(* ===== verification/Prelude.thy ===== *)
theory Prelude
  imports Main "HOL-Library.Char_ord" "HOL-Library.List_Lexorder" "HOL-Library.Multiset"
begin

text \<open>
  Shared vocabulary of the development.

  \<^item> results: a Rust \<open>Result\<close> is a sum whose left side is the error; \<open>and_then\<close> is the
    \<open>?\<close> operator and \<open>try_fold\<close> a \<open>for\<close> loop whose body may return early with an error;
  \<^item> unsigned 64 bit arithmetic on \<^typ>\<open>nat\<close>: \<open>sat_add64\<close>, \<open>sat_mul64\<close>, \<open>wrap64\<close>;
  \<^item> strings: a Rust \<open>String\<close> is its list of UTF-8 bytes, ordered byte-wise, and \<open>trim\<close> removes
    the encodings of the Unicode white space characters;
  \<^item> facts on lists the components share.
\<close>

named_theorems result_simps "evaluation of results"
named_theorems smap_simps "lookups in ordered maps"

section \<open>Results\<close>

type_synonym ('e, 'a) result = "'e + 'a"

abbreviation Err :: "'e \<Rightarrow> ('e, 'a) result" where "Err \<equiv> Inl"
abbreviation Ok :: "'a \<Rightarrow> ('e, 'a) result" where "Ok \<equiv> Inr"

fun is_ok :: "('e, 'a) result \<Rightarrow> bool" where
  "is_ok (Inr _) = True"
| "is_ok (Inl _) = False"

fun and_then :: "('e, 'a) result \<Rightarrow> ('a \<Rightarrow> ('e, 'b) result) \<Rightarrow> ('e, 'b) result" where
  "and_then (Inl e) f = Inl e"
| "and_then (Inr x) f = f x"

text \<open>In generated code \<open>and_then\<close> is a case distinction, so that its continuation waits.\<close>
lemma and_then_case [code_unfold]: "and_then r f = (case r of Inl e \<Rightarrow> Inl e | Inr x \<Rightarrow> f x)"
  by (cases r) simp_all

definition guard_err :: "bool \<Rightarrow> 'e \<Rightarrow> ('e, unit) result" where
  "guard_err c e = (if c then Inl e else Inr ())"

fun try_fold :: "('s \<Rightarrow> 'a \<Rightarrow> ('e, 's) result) \<Rightarrow> 's \<Rightarrow> 'a list \<Rightarrow> ('e, 's) result" where
  "try_fold f s [] = Inr s"
| "try_fold f s (x # xs) = and_then (f s x) (\<lambda>s'. try_fold f s' xs)"

lemma and_then_eq_Inr [result_simps]:
  "and_then r f = Inr y \<longleftrightarrow> (\<exists>x. r = Inr x \<and> f x = Inr y)"
  by (cases r) auto

lemma and_then_eq_Inl [result_simps]:
  "and_then r f = Inl e \<longleftrightarrow> r = Inl e \<or> (\<exists>x. r = Inr x \<and> f x = Inl e)"
  by (cases r) auto

lemma guard_err_eq_Inr [result_simps]: "guard_err c e = Inr u \<longleftrightarrow> \<not> c"
  by (simp add: guard_err_def)

lemma guard_err_eq_Inl [result_simps]: "guard_err c e = Inl e' \<longleftrightarrow> c \<and> e' = e"
  by (auto simp: guard_err_def)

lemma and_then_assoc: "and_then (and_then r f) g = and_then r (\<lambda>x. and_then (f x) g)"
  by (cases r) auto

lemma try_fold_append:
  "try_fold f s (xs @ ys) = and_then (try_fold f s xs) (\<lambda>s'. try_fold f s' ys)"
  by (induction xs arbitrary: s) (auto simp: and_then_assoc)

lemma try_fold_invariant:
  assumes "try_fold f s xs = Inr s'" and "P s"
    and "\<And>t x t'. x \<in> set xs \<Longrightarrow> P t \<Longrightarrow> f t x = Inr t' \<Longrightarrow> P t'"
  shows "P s'"
  using assms
proof (induction xs arbitrary: s)
  case Nil
  then show ?case by simp
next
  case (Cons x xs)
  from Cons.prems(1) obtain t where t: "f s x = Inr t" "try_fold f t xs = Inr s'"
    by (auto simp: result_simps)
  have "P t" using Cons.prems(2,3) t(1) by auto
  then show ?case using Cons.IH [OF t(2)] Cons.prems(3) by auto
qed

lemma try_fold_err: "try_fold f s xs = Inl e \<Longrightarrow> \<exists>t x. x \<in> set xs \<and> f t x = Inl e"
proof (induction xs arbitrary: s)
  case (Cons x xs)
  then show ?case by (cases "f s x") (auto, blast)
qed simp

lemma try_fold_unit:
  "try_fold (\<lambda>_. f) () xs = Inr u \<longleftrightarrow> (\<forall>x\<in>set xs. f x = Inr ())"
  by (induction xs) (auto simp: result_simps)

section \<open>Unsigned machine arithmetic\<close>

definition u64_max :: nat where "u64_max = 2 ^ 64 - 1"
definition u32_max :: nat where "u32_max = 2 ^ 32 - 1"
definition wrap64 :: "nat \<Rightarrow> nat" where "wrap64 n = n mod 2 ^ 64"
definition sat_add64 :: "nat \<Rightarrow> nat \<Rightarrow> nat" where "sat_add64 a b = min (a + b) u64_max"
definition sat_mul64 :: "nat \<Rightarrow> nat \<Rightarrow> nat" where "sat_mul64 a b = min (a * b) u64_max"
definition sat_add32 :: "nat \<Rightarrow> nat \<Rightarrow> nat" where "sat_add32 a b = min (a + b) u32_max"

lemma sat_add64_le [simp]: "sat_add64 a b \<le> u64_max"
  by (simp add: sat_add64_def)

lemma sat_mul64_le [simp]: "sat_mul64 a b \<le> u64_max"
  by (simp add: sat_mul64_def)

lemma sat_add64_exact: "a + b \<le> u64_max \<Longrightarrow> sat_add64 a b = a + b"
  by (simp add: sat_add64_def)

lemma sat_add64_mono: "a \<le> a' \<Longrightarrow> b \<le> b' \<Longrightarrow> sat_add64 a b \<le> sat_add64 a' b'"
  unfolding sat_add64_def by linarith

lemma sat_add64_ge: "a \<le> u64_max \<Longrightarrow> a \<le> sat_add64 a b"
  by (simp add: sat_add64_def)

lemma sat_add64_Suc: "r < u64_max \<Longrightarrow> sat_add64 r 1 = Suc r"
  by (simp add: sat_add64_def)

lemma wrap64_id: "n \<le> u64_max \<Longrightarrow> wrap64 n = n"
  by (simp add: wrap64_def u64_max_def)

section \<open>Strings\<close>

type_synonym rstring = string

definition ws1 :: "char \<Rightarrow> bool" where
  "ws1 a = (let n = (of_char a :: nat) in 9 \<le> n \<and> n \<le> 13 \<or> n = 32)"

definition ws2 :: "char \<Rightarrow> char \<Rightarrow> bool" where
  "ws2 a b = (let m = (of_char a :: nat); n = (of_char b :: nat) in
     m = 0xC2 \<and> (n = 0x85 \<or> n = 0xA0))"

definition ws3 :: "char \<Rightarrow> char \<Rightarrow> char \<Rightarrow> bool" where
  "ws3 a b c = (let l = (of_char a :: nat); m = (of_char b :: nat); n = (of_char c :: nat) in
     l = 0xE1 \<and> m = 0x9A \<and> n = 0x80
     \<or> l = 0xE2 \<and> m = 0x80 \<and> (0x80 \<le> n \<and> n \<le> 0x8A \<or> n = 0xA8 \<or> n = 0xA9 \<or> n = 0xAF)
     \<or> l = 0xE2 \<and> m = 0x81 \<and> n = 0x9F
     \<or> l = 0xE3 \<and> m = 0x80 \<and> n = 0x80)"

fun trim_start :: "rstring \<Rightarrow> rstring" where
  "trim_start [] = []"
| "trim_start [a] = (if ws1 a then [] else [a])"
| "trim_start [a, b] = (if ws1 a then trim_start [b] else if ws2 a b then [] else [a, b])"
| "trim_start (a # b # c # s) =
     (if ws1 a then trim_start (b # c # s)
      else if ws2 a b then trim_start (c # s)
      else if ws3 a b c then trim_start s
      else a # b # c # s)"

fun trim_rev :: "rstring \<Rightarrow> rstring" where
  "trim_rev [] = []"
| "trim_rev [a] = (if ws1 a then [] else [a])"
| "trim_rev [a, b] = (if ws1 a then trim_rev [b] else if ws2 b a then [] else [a, b])"
| "trim_rev (a # b # c # s) =
     (if ws1 a then trim_rev (b # c # s)
      else if ws2 b a then trim_rev (c # s)
      else if ws3 c b a then trim_rev s
      else a # b # c # s)"

definition trim :: "rstring \<Rightarrow> rstring" where
  "trim s = rev (trim_rev (rev (trim_start s)))"

definition is_blank :: "rstring \<Rightarrow> bool" where
  "is_blank s = (trim s = [])"

definition starts_with :: "rstring \<Rightarrow> rstring \<Rightarrow> bool" where
  "starts_with p s = (take (length p) s = p)"

fun str_contains :: "rstring \<Rightarrow> rstring \<Rightarrow> bool" where
  "str_contains p [] = (p = [])"
| "str_contains p (c # s) = (starts_with p (c # s) \<or> str_contains p s)"

fun join_with :: "rstring \<Rightarrow> rstring list \<Rightarrow> rstring" where
  "join_with sep [] = []"
| "join_with sep [x] = x"
| "join_with sep (x # y # ys) = x @ sep @ join_with sep (y # ys)"

definition strip_prefix :: "rstring \<Rightarrow> rstring \<Rightarrow> rstring option" where
  "strip_prefix p s = (if starts_with p s then Some (drop (length p) s) else None)"

text \<open>\<open>Display\<close> of an unsigned integer\<close>
fun nat_str :: "nat \<Rightarrow> rstring" where
  "nat_str n = (if n < 10 then [char_of (48 + n)] else nat_str (n div 10) @ [char_of (48 + n mod 10)])"

declare nat_str.simps [simp del]

lemma starts_with_append [simp]: "starts_with p (p @ s)"
  by (simp add: starts_with_def)

lemma starts_with_iff: "starts_with p s \<longleftrightarrow> (\<exists>r. s = p @ r)"
  unfolding starts_with_def by (metis append_eq_conv_conj append_take_drop_id)

lemma strip_prefix_append [simp]: "strip_prefix p (p @ s) = Some s"
  by (simp add: strip_prefix_def)

lemma trim_empty [simp]: "trim [] = []"
  by (simp add: trim_def)

lemma is_blank_empty [simp]: "is_blank []"
  by (simp add: is_blank_def)

text \<open>Trimming keeps every printable ASCII character other than the space.\<close>
definition solid :: "char \<Rightarrow> bool" where
  "solid c = (let n = (of_char c :: nat) in 32 < n \<and> n < 128)"

lemma solid_ws: "solid c \<Longrightarrow> \<not> ws1 c" "solid c \<Longrightarrow> \<not> ws2 c b" "solid c \<Longrightarrow> \<not> ws2 a c"
  "solid c \<Longrightarrow> \<not> ws3 c b d" "solid c \<Longrightarrow> \<not> ws3 a c d" "solid c \<Longrightarrow> \<not> ws3 a b c"
  by (auto simp: solid_def ws1_def ws2_def ws3_def Let_def)

lemma trim_start_solid: "c \<in> set s \<Longrightarrow> solid c \<Longrightarrow> c \<in> set (trim_start s)"
  by (induction s rule: trim_start.induct) (auto simp: solid_ws)

lemma trim_rev_solid: "c \<in> set s \<Longrightarrow> solid c \<Longrightarrow> c \<in> set (trim_rev s)"
  by (induction s rule: trim_rev.induct) (auto simp: solid_ws)

lemma solid_not_blank: "c \<in> set s \<Longrightarrow> solid c \<Longrightarrow> \<not> is_blank s"
  using trim_rev_solid [of c "rev (trim_start s)"] trim_start_solid [of c s]
  by (auto simp: is_blank_def trim_def)

section \<open>Lists\<close>

lemma length_filter_split:
  "length (filter P xs) = length (filter (\<lambda>x. P x \<and> Q x) xs) + length (filter (\<lambda>x. P x \<and> \<not> Q x) xs)"
  by (induction xs) auto

lemma length_filter_eq_0: "length (filter P xs) = 0 \<longleftrightarrow> (\<forall>x\<in>set xs. \<not> P x)"
  by (simp add: filter_empty_conv)

lemma find_Some_iff_ex: "(\<exists>x. find P xs = Some x) \<longleftrightarrow> (\<exists>x\<in>set xs. P x)"
  by (induction xs) auto

lemma find_SomeD: "find P xs = Some x \<Longrightarrow> x \<in> set xs \<and> P x"
  by (induction xs) (auto split: if_splits)

lemma count_list_remove1:
  "x \<in> set xs \<Longrightarrow> count_list (remove1 x xs) y = count_list xs y - (if x = y then 1 else 0)"
  by (induction xs) (auto simp: count_list_0_iff)

end
