(* ===== verification/Ordered_Map.thy ===== *)
theory Ordered_Map
  imports Prelude
begin

text \<open>
  Ordered maps and sets: \<open>BTreeMap\<close> and \<open>BTreeSet\<close> as strictly ascending lists, and the
  locale \<open>kv_map\<close> with the laws their clients use.
\<close>

section \<open>The interface\<close>

locale kv_map =
  fixes emp :: "'m"
    and look :: "'m \<Rightarrow> 'k \<Rightarrow> 'v option"
    and ins :: "'k \<Rightarrow> 'v \<Rightarrow> 'm \<Rightarrow> 'm"
    and del :: "'k \<Rightarrow> 'm \<Rightarrow> 'm"
    and inv :: "'m \<Rightarrow> bool"
  assumes inv_emp: "inv emp"
    and inv_ins: "inv m \<Longrightarrow> inv (ins k v m)"
    and inv_del: "inv m \<Longrightarrow> inv (del k m)"
    and look_emp: "look emp k = None"
    and look_ins: "inv m \<Longrightarrow> look (ins k v m) k' = (if k' = k then Some v else look m k')"
    and look_del: "inv m \<Longrightarrow> look (del k m) k' = (if k' = k then None else look m k')"
    and ext: "inv m \<Longrightarrow> inv m' \<Longrightarrow> (\<And>k. look m k = look m' k) \<Longrightarrow> m = m'"
begin

lemma ins_same: "inv m \<Longrightarrow> look m k = Some v \<Longrightarrow> ins k v m = m"
  by (rule ext) (auto simp: inv_ins look_ins)

lemma ins_overwrite: "inv m \<Longrightarrow> ins k v (ins k w m) = ins k v m"
  by (rule ext) (auto simp: inv_ins look_ins)

lemma ins_commute: "inv m \<Longrightarrow> k \<noteq> k' \<Longrightarrow> ins k v (ins k' w m) = ins k' w (ins k v m)"
  by (rule ext) (auto simp: inv_ins look_ins)

lemma del_absent: "inv m \<Longrightarrow> look m k = None \<Longrightarrow> del k m = m"
  by (rule ext) (auto simp: inv_del look_del)

lemma del_ins: "inv m \<Longrightarrow> del k (ins k v m) = del k m"
  by (rule ext) (auto simp: inv_del inv_ins look_del look_ins)

lemma inv_fold_del: "inv m \<Longrightarrow> inv (fold del ks m)"
  by (induction ks arbitrary: m) (auto simp: inv_del)

lemma look_fold_del: "inv m \<Longrightarrow> look (fold del ks m) k = (if k \<in> set ks then None else look m k)"
  by (induction ks arbitrary: m) (auto simp: inv_del look_del)

lemma inv_fold_ins: "inv m \<Longrightarrow> inv (fold (\<lambda>(k, v). ins k v) kvs m)"
  by (induction kvs arbitrary: m) (auto simp: inv_ins)

lemma look_fold_ins:
  "inv m \<Longrightarrow> look (fold (\<lambda>(k, v). ins k v) kvs m) k =
    (case map_of (rev kvs) k of Some v \<Rightarrow> Some v | None \<Rightarrow> look m k)"
  by (induction kvs arbitrary: m)
    (auto simp: inv_ins look_ins map_add_def split: option.splits)

end

section \<open>Sorted association lists\<close>

type_synonym ('k, 'v) smap = "('k \<times> 'v) list"

definition sm_wf :: "('k::linorder, 'v) smap \<Rightarrow> bool" where
  "sm_wf m = sorted_wrt (<) (map fst m)"

definition sm_get :: "('k, 'v) smap \<Rightarrow> 'k \<Rightarrow> 'v option" where
  "sm_get m k = map_of m k"

fun sm_insert :: "'k::linorder \<Rightarrow> 'v \<Rightarrow> ('k, 'v) smap \<Rightarrow> ('k, 'v) smap" where
  "sm_insert k v [] = [(k, v)]"
| "sm_insert k v ((k', v') # m) =
     (if k < k' then (k, v) # (k', v') # m
      else if k = k' then (k, v) # m
      else (k', v') # sm_insert k v m)"

definition sm_remove :: "'k \<Rightarrow> ('k, 'v) smap \<Rightarrow> ('k, 'v) smap" where
  "sm_remove k m = filter (\<lambda>(k', _). k' \<noteq> k) m"

text \<open>\<open>get_mut\<close> followed by an assignment through the reference\<close>
definition sm_modify :: "'k \<Rightarrow> ('v \<Rightarrow> 'v) \<Rightarrow> ('k, 'v) smap \<Rightarrow> ('k, 'v) smap" where
  "sm_modify k f m = map (\<lambda>(k', v). (k', if k' = k then f v else v)) m"

definition sm_contains :: "('k, 'v) smap \<Rightarrow> 'k \<Rightarrow> bool" where
  "sm_contains m k = (map_of m k \<noteq> None)"

definition sm_keys :: "('k, 'v) smap \<Rightarrow> 'k list" where
  "sm_keys m = map fst m"

definition sm_values :: "('k, 'v) smap \<Rightarrow> 'v list" where
  "sm_values m = map snd m"

definition sm_of_list :: "('k::linorder \<times> 'v) list \<Rightarrow> ('k, 'v) smap" where
  "sm_of_list kvs = fold (\<lambda>(k, v). sm_insert k v) kvs []"

lemma sm_wf_Nil [simp]: "sm_wf []"
  by (simp add: sm_wf_def)

lemma sm_wf_Cons: "sm_wf ((k, v) # m) \<longleftrightarrow> sm_wf m \<and> (\<forall>k'\<in>fst ` set m. k < k')"
  by (auto simp: sm_wf_def)

lemma sm_get_Nil [simp]: "sm_get [] k = None"
  by (simp add: sm_get_def)

lemma set_sm_insert_keys: "fst ` set (sm_insert k v m) = insert k (fst ` set m)"
  by (induction m rule: sm_insert.induct) auto

lemma sm_wf_insert [simp, intro]: "sm_wf m \<Longrightarrow> sm_wf (sm_insert k v m)"
  by (induction k v m rule: sm_insert.induct) (auto simp: sm_wf_Cons set_sm_insert_keys)

lemma sm_wf_filter: "sm_wf m \<Longrightarrow> sm_wf (filter P m)"
proof (induction m)
  case (Cons p m)
  then show ?case by (cases p) (auto simp: sm_wf_Cons)
qed simp

lemma sm_wf_remove [simp, intro]: "sm_wf m \<Longrightarrow> sm_wf (sm_remove k m)"
  by (simp add: sm_remove_def sm_wf_filter)

lemma sm_keys_modify [simp]: "map fst (sm_modify k f m) = map fst m"
  by (simp add: sm_modify_def case_prod_beta comp_def)

lemma sm_wf_modify [simp, intro]: "sm_wf m \<Longrightarrow> sm_wf (sm_modify k f m)"
  by (simp add: sm_wf_def)

lemma sm_get_absent: "\<forall>k'\<in>fst ` set m. k < k' \<Longrightarrow> sm_get m (k::'k::linorder) = None"
  by (auto simp: sm_get_def map_of_eq_None_iff)

lemma sm_get_insert [simp, smap_simps]:
  "sm_wf m \<Longrightarrow> sm_get (sm_insert k v m) k' = (if k' = k then Some v else sm_get m k')"
proof (induction k v m rule: sm_insert.induct)
  case (2 k v k1 v1 m)
  then show ?case by (auto simp: sm_get_def sm_wf_Cons)
qed (auto simp: sm_get_def)

lemma sm_get_remove [simp, smap_simps]:
  "sm_get (sm_remove k m) k' = (if k' = k then None else sm_get m k')"
  by (induction m) (auto simp: sm_get_def sm_remove_def)

lemma sm_get_modify [simp, smap_simps]:
  "sm_get (sm_modify k f m) k' = (if k' = k then map_option f (sm_get m k') else sm_get m k')"
  by (induction m) (auto simp: sm_get_def sm_modify_def)

lemma sm_wf_ext:
  assumes "sm_wf m" "sm_wf m'" and eq: "\<And>k. sm_get m k = sm_get m' k"
  shows "m = m'"
proof (rule map_sorted_distinct_set_unique [where f = fst])
  have d: "distinct (map fst m)" "distinct (map fst m')"
    using assms(1,2) by (simp_all add: sm_wf_def strict_sorted_iff)
  have "map_of m = map_of m'" using eq by (auto simp: sm_get_def fun_eq_iff)
  then show s: "set m = set m'" using d map_of_eqI by (metis map_of_inject_set)
  show "inj_on fst (set m \<union> set m')" using d s by (simp add: distinct_map)
qed (use assms in \<open>simp_all add: sm_wf_def strict_sorted_iff\<close>)

interpretation sm: kv_map "[]" sm_get sm_insert sm_remove sm_wf
  by unfold_locales (auto intro: sm_wf_ext)

lemma sm_wf_of_list [simp, intro]: "sm_wf (sm_of_list kvs)"
  unfolding sm_of_list_def by (rule sm.inv_fold_ins) simp

lemma sm_get_of_list [smap_simps]: "sm_get (sm_of_list kvs) k = map_of (rev kvs) k"
  unfolding sm_of_list_def by (subst sm.look_fold_ins) (auto split: option.splits)

lemma sm_contains_get: "sm_contains m k \<longleftrightarrow> (\<exists>v. sm_get m k = Some v)"
  by (auto simp: sm_contains_def sm_get_def)

lemma sm_get_Some_mem: "sm_get m k = Some v \<Longrightarrow> (k, v) \<in> set m"
  by (simp add: sm_get_def map_of_SomeD)

lemma sm_mem_get: "sm_wf m \<Longrightarrow> (k, v) \<in> set m \<Longrightarrow> sm_get m k = Some v"
  by (simp add: sm_wf_def sm_get_def strict_sorted_iff)

lemma sm_mem_iff: "sm_wf m \<Longrightarrow> (k, v) \<in> set m \<longleftrightarrow> sm_get m k = Some v"
  by (auto intro: sm_mem_get sm_get_Some_mem)

lemma sm_distinct: "sm_wf m \<Longrightarrow> distinct (map fst m)"
  by (simp add: sm_wf_def strict_sorted_iff)

lemma sm_get_filter:
  "sm_wf m \<Longrightarrow> sm_get (filter P m) k =
    (case sm_get m k of Some v \<Rightarrow> if P (k, v) then Some v else None | None \<Rightarrow> None)"
proof (induction m)
  case (Cons p m)
  obtain k1 v1 where p: "p = (k1, v1)" by (cases p)
  have "k1 \<notin> fst ` set m" using Cons.prems by (auto simp: p sm_wf_Cons)
  then have "map_of (filter P m) k1 = None"
    by (force simp: map_of_eq_None_iff)
  with Cons show ?case by (auto simp: p sm_wf_Cons sm_get_def split: option.splits)
qed simp

lemma map_of_rev_distinct_keys: "distinct (map fst xs) \<Longrightarrow> map_of (rev xs) = map_of xs"
proof (induction xs)
  case (Cons p xs)
  then have "fst p \<notin> dom (map_of xs)" by (auto simp: dom_map_of_conv_image_fst)
  then show ?case using Cons by (cases p) (auto simp: map_add_def fun_eq_iff split: option.splits)
qed simp

lemma sm_get_rev: "sm_wf m \<Longrightarrow> map_of (rev m) k = sm_get m k"
  by (simp add: sm_get_def map_of_rev_distinct_keys sm_distinct)

lemma sm_insert_absent_length: "sm_wf m \<Longrightarrow> sm_get m k = None \<Longrightarrow> length (sm_insert k v m) = Suc (length m)"
  by (induction m) (auto simp: sm_wf_Cons sm_get_def split: if_splits)

lemma sm_remove_present_length: "sm_wf m \<Longrightarrow> sm_get m k = Some v \<Longrightarrow> Suc (length (sm_remove k m)) = length m"
proof (induction m)
  case (Cons kv m)
  have "\<forall>p\<in>set m. fst p \<noteq> fst kv" using Cons.prems(1) by (cases kv) (auto simp: sm_wf_Cons)
  then have "sm_remove (fst kv) m = m" by (simp add: sm_remove_def filter_id_conv case_prod_beta)
  then show ?case using Cons by (cases kv) (auto simp: sm_wf_Cons sm_get_def sm_remove_def split: if_splits)
qed simp

lemma sm_values_mem: "sm_wf m \<Longrightarrow> v \<in> set (sm_values m) \<longleftrightarrow> (\<exists>k. sm_get m k = Some v)"
  by (force simp: sm_values_def sm_mem_iff [symmetric] image_iff)

lemma sm_values_insert:
  assumes "sm_wf m"
  shows "set (sm_values (sm_insert k v m)) = insert v {w. \<exists>j. j \<noteq> k \<and> sm_get m j = Some w}"
  using assms by (auto simp: sm_values_mem split: if_splits)

lemma sm_values_split:
  assumes "sm_wf m"
  shows "set (sm_values m) = (case sm_get m k of Some v \<Rightarrow> {v} | None \<Rightarrow> {}) \<union> {w. \<exists>j. j \<noteq> k \<and> sm_get m j = Some w}"
proof (rule set_eqI)
  fix v
  have "(\<exists>j. sm_get m j = Some v) \<longleftrightarrow> sm_get m k = Some v \<or> (\<exists>j. j \<noteq> k \<and> sm_get m j = Some v)" by metis
  then show "v \<in> set (sm_values m) \<longleftrightarrow>
      v \<in> (case sm_get m k of Some v \<Rightarrow> {v} | None \<Rightarrow> {}) \<union> {w. \<exists>j. j \<noteq> k \<and> sm_get m j = Some w}"
    using assms by (auto simp: sm_values_mem split: option.split)
qed

lemma sm_values_remove:
  assumes "sm_wf m"
  shows "set (sm_values (sm_remove k m)) = {w. \<exists>j. j \<noteq> k \<and> sm_get m j = Some w}"
  using assms by (auto simp: sm_values_mem split: if_splits)

section \<open>Ordered sets\<close>

type_synonym 'a sset = "'a list"

fun ss_insert :: "'a::linorder \<Rightarrow> 'a sset \<Rightarrow> 'a sset" where
  "ss_insert x [] = [x]"
| "ss_insert x (y # ys) =
     (if x < y then x # y # ys else if x = y then y # ys else y # ss_insert x ys)"

definition ss_wf :: "'a::linorder sset \<Rightarrow> bool" where
  "ss_wf xs = sorted_wrt (<) xs"

definition ss_of_list :: "'a::linorder list \<Rightarrow> 'a sset" where
  "ss_of_list xs = fold ss_insert xs []"

lemma ss_wf_Nil [simp]: "ss_wf []"
  by (simp add: ss_wf_def)

lemma set_ss_insert [simp]: "set (ss_insert x xs) = insert x (set xs)"
  by (induction xs) auto

lemma ss_wf_insert [simp, intro]: "ss_wf xs \<Longrightarrow> ss_wf (ss_insert x xs)"
  by (induction x xs rule: ss_insert.induct) (auto simp: ss_wf_def)

lemma fold_ss_insert: "ss_wf s \<Longrightarrow> ss_wf (fold ss_insert xs s) \<and> set (fold ss_insert xs s) = set s \<union> set xs"
  by (induction xs arbitrary: s) auto

lemma ss_wf_of_list [simp, intro]: "ss_wf (ss_of_list xs)"
  by (simp add: ss_of_list_def fold_ss_insert)

lemma set_ss_of_list [simp]: "set (ss_of_list xs) = set xs"
  by (simp add: ss_of_list_def fold_ss_insert)

lemma ss_distinct: "ss_wf xs \<Longrightarrow> distinct xs"
  by (simp add: ss_wf_def strict_sorted_iff)

lemma ss_sorted: "ss_wf xs \<Longrightarrow> sorted xs"
  by (simp add: ss_wf_def strict_sorted_iff)

end
