(* ===== verification/Evidence_Types.thy ===== *)
theory Evidence_Types
  imports Ordered_Map
begin

text \<open>
  The data of the contracts an execution graph carries: evidence pointers and their durability
  (harness-contract/src/reality/mod.rs and context/mod.rs), acceptance verdicts
  (acceptance.rs), delivery envelopes and terminal presentations (outcome.rs), the
  continuation and cancellation records of turn.rs and the approval decision of
  policy/approval.rs.  Field names carry a short prefix naming their record.
\<close>

section \<open>Reality boundaries and evidence pointers\<close>

datatype reality_boundary = Observed | Inferred | Simulated | Hypothetical | Conflict | Unknown

definition can_be_authoritative :: "reality_boundary \<Rightarrow> bool" where
  "can_be_authoritative b = (case b of Observed \<Rightarrow> True | Inferred \<Rightarrow> True | _ \<Rightarrow> False)"

fun boundary_as_str :: "reality_boundary \<Rightarrow> rstring" where
  "boundary_as_str Observed = ''observed''"
| "boundary_as_str Inferred = ''inferred''"
| "boundary_as_str Simulated = ''simulated''"
| "boundary_as_str Hypothetical = ''hypothetical''"
| "boundary_as_str Conflict = ''conflict''"
| "boundary_as_str Unknown = ''unknown''"

datatype claim_support_state = SupportUnknown | Supported | Contradicted | Both

definition combine :: "claim_support_state \<Rightarrow> claim_support_state \<Rightarrow> claim_support_state" where
  "combine a b =
    (if a = Both \<or> b = Both \<or> (a = Supported \<and> b = Contradicted)
        \<or> (a = Contradicted \<and> b = Supported) then Both
     else if a = Supported \<or> b = Supported then Supported
     else if a = Contradicted \<or> b = Contradicted then Contradicted
     else SupportUnknown)"

record evidence_ref =
  er_ref_type :: rstring
  er_id :: rstring
  er_source :: "rstring option"
  er_boundary :: reality_boundary
  er_confidence_bp :: "nat option"

definition with_explicit_boundary ::
  "rstring \<Rightarrow> rstring \<Rightarrow> reality_boundary \<Rightarrow> evidence_ref" where
  "with_explicit_boundary ref_type i b =
    \<lparr> er_ref_type = ref_type, er_id = i, er_source = None, er_boundary = b,
      er_confidence_bp = None \<rparr>"

definition er_durable :: "rstring \<Rightarrow> evidence_ref" where
  "er_durable i = (with_explicit_boundary ''durable_evidence'' i Observed)
     \<lparr> er_source := Some ''runtime.artifact'' \<rparr>"

definition with_confidence_bp :: "evidence_ref \<Rightarrow> nat \<Rightarrow> evidence_ref" where
  "with_confidence_bp e bp = e \<lparr> er_confidence_bp := Some (min bp 10000) \<rparr>"

section \<open>Workspace identities\<close>

datatype workspace_object_kind = File | Directory

record workspace_path_identity =
  wp_workspace_id :: rstring
  wp_repository_id :: rstring
  wp_workspace_relative_path :: rstring
  wp_repository_relative_path :: rstring
  wp_object_kind :: workspace_object_kind
  wp_observed_revision_or_digest :: "rstring option"

datatype workspace_access_mode = AccessRead | AccessWrite

datatype evidence_coverage_kind =
  ExactContent | ScopedContent | DirectoryListing | RecursiveContent | GlobDiscovery | WriteEffect

record workspace_scope_identity =
  ws_access_mode :: workspace_access_mode
  ws_path :: workspace_path_identity
  ws_coverage :: evidence_coverage_kind

datatype evidence_target_identity =
  TargetWorkspace workspace_scope_identity
| TargetNetwork rstring
| AmbiguousWorkspace rstring "rstring list"
| UnavailableWorkspace rstring rstring

datatype evidence_obligation_kind =
  ObContentRead | ObDirectoryListing | ObRecursiveScan | ObGlobDiscovery | ObWriteEffect
| ObVerifyAfterWrite | ObVerifyUpstreamChange | ObNetworkEvidence

datatype evidence_observation_requirement = RuntimeAcquisition | ProviderModel

record evidence_obligation =
  eo_obligation_id :: rstring
  eo_kind :: evidence_obligation_kind
  eo_target :: evidence_target_identity
  eo_observation_requirement :: evidence_observation_requirement

record required_acceptance =
  ra_criteria :: "rstring list"
  ra_evidence_obligations :: "evidence_obligation list"

definition ra_is_empty :: "required_acceptance \<Rightarrow> bool" where
  "ra_is_empty r = (ra_criteria r = [] \<and> ra_evidence_obligations r = [])"

section \<open>Evidence access and observations\<close>

datatype evidence_durability = Pending | Durable | Unavailable

record evidence_access_ref =
  ea_evidence_ref :: evidence_ref
  ea_sha256 :: rstring
  ea_bytes :: nat
  ea_media_type :: rstring
  ea_durability :: evidence_durability
  ea_retrieval_selector :: rstring
  ea_visibility_scope :: rstring

definition ea_is_durable :: "evidence_access_ref \<Rightarrow> bool" where
  "ea_is_durable e = (ea_durability e = Durable)"

record provider_model_observation =
  pm_provider_invocation_id :: rstring
  pm_obligation_ids :: "rstring list"
  pm_raw_ref :: evidence_ref
  pm_model_receipt_sha256 :: rstring
  pm_raw_tokens :: nat
  pm_receipt_tokens :: nat
  pm_omitted_tokens :: nat
  pm_complete :: bool
  pm_provider_request_sequence :: nat
  pm_provider_attempt :: nat
  pm_model :: rstring

datatype workspace_prior_state = PriorExisting rstring | PriorAbsent

datatype observed_evidence_provenance = FreshExecution | RetainedReplay

record observed_evidence =
  oe_obligation_id :: rstring
  oe_target :: evidence_target_identity
  oe_observed_at_sequence :: nat
  oe_tool_name :: rstring
  oe_provenance :: observed_evidence_provenance
  oe_evidence_ref :: "evidence_access_ref option"
  oe_model_observation :: "provider_model_observation option"
  oe_workspace_prior_state :: "workspace_prior_state option"

record observed_acceptance =
  oa_satisfied_criteria :: "rstring list"
  oa_observed_evidence :: "observed_evidence list"
  oa_unresolved_obligation_ids :: "rstring list"

definition oa_is_empty :: "observed_acceptance \<Rightarrow> bool" where
  "oa_is_empty a = (oa_satisfied_criteria a = [] \<and> oa_observed_evidence a = []
     \<and> oa_unresolved_obligation_ids a = [])"

text \<open>
  \<open>merge_from\<close> sorts the observations by their JSON text; the serializer is the parameter
  \<open>json\<close>.  \<open>sort()\<close> followed by \<open>dedup()\<close> leaves the sorted distinct values and \<open>sort_by\<close> is
  stable.
\<close>
definition push_absent :: "'a \<Rightarrow> 'a list \<Rightarrow> 'a list" where
  "push_absent x xs = (if x \<in> set xs then xs else xs @ [x])"

definition merge_from ::
  "(observed_evidence \<Rightarrow> rstring) \<Rightarrow> observed_acceptance \<Rightarrow> observed_acceptance
   \<Rightarrow> observed_acceptance" where
  "merge_from json a b =
    \<lparr> oa_satisfied_criteria = remdups (sort (oa_satisfied_criteria a @ oa_satisfied_criteria b)),
      oa_observed_evidence =
        sort_key json (fold push_absent (oa_observed_evidence b) (oa_observed_evidence a)),
      oa_unresolved_obligation_ids =
        remdups (sort (oa_unresolved_obligation_ids a @ oa_unresolved_obligation_ids b)) \<rparr>"

section \<open>Acceptance\<close>

datatype acceptance_verdict = Satisfied | Unsatisfied | FrameworkInvalid | Unresolved

datatype terminal_fact_kind = CommittedEffect | ObservedEvidence | Artifact | AcceptanceVerdict

record acceptance_evaluation =
  ae_evaluator_revision :: nat
  ae_contract_digest :: rstring
  ae_receipt_set_digest :: rstring
  ae_derived_obligations :: "rstring list"
  ae_verdict :: acceptance_verdict

record context_budget_lease_ref =
  cl_lease_id :: rstring
  cl_owner_id :: rstring
  cl_scope :: rstring
  cl_max_tokens :: nat
  cl_consumed_tokens :: nat
  cl_revision :: nat

section \<open>Delivery envelopes\<close>

datatype pipeline_status = PipeWaiting | PipeCompleted | PipeFailed | PipeCancelled

datatype delivery_status = DeliverySatisfied | DeliveryPartial | DeliveryDenied | DeliveryUnavailable

datatype delivery_branch_status = BranchCompleted | BranchFailed | BranchCancelled | BranchBlocked

record delivery_branch_terminal =
  db_branch_id :: rstring
  db_execution_id :: "rstring option"
  db_status :: delivery_branch_status
  db_result_ref :: "rstring option"
  db_failure_ref :: "rstring option"

record verified_delivery_reference =
  vr_reference_id :: rstring
  vr_kind :: rstring
  vr_source_execution_id :: "rstring option"

datatype verified_effect_status = Applied | NotApplied | Uncertain

record verified_delivery_effect =
  ve_effect_id :: rstring
  ve_kind :: rstring
  ve_status :: verified_effect_status
  ve_receipt_ref :: "rstring option"
  ve_source_execution_id :: "rstring option"

record workspace_materialization_receipt =
  wm_receipt_id :: rstring
  wm_source_execution_id :: rstring
  wm_source_node_id :: rstring
  wm_source_result_ref :: rstring
  wm_target_path :: rstring
  wm_artifact_kind :: rstring
  wm_before_sha256 :: "rstring option"
  wm_sha256 :: rstring
  wm_bytes :: nat
  wm_write_effect_id :: rstring
  wm_reread_verified :: bool
  wm_materialized_at_ms :: nat

record delivery_coverage =
  dc_required_obligation_ids :: "rstring list"
  dc_satisfied_obligation_ids :: "rstring list"
  dc_coverage_basis_points :: nat

record delivery_unresolved =
  du_unresolved_id :: rstring
  du_kind :: rstring
  du_summary :: rstring
  du_source_execution_id :: "rstring option"
  du_obligation_id :: "rstring option"

record delivery_conflict =
  dx_conflict_id :: rstring
  dx_summary :: rstring
  dx_source_execution_ids :: "rstring list"

datatype user_answer_format = HumanText | Markdown | FormatStrictJson | FormatOther
datatype user_answer_detail = Concise | Balanced | Detailed
datatype user_answer_evidence_preference = EvidenceNone | WhenUseful | EvidenceRequired
datatype user_answer_citation_preference = CitationNone | WhenAvailable | CitationRequired

record user_answer_contract =
  ua_language :: rstring
  ua_format :: user_answer_format
  ua_detail :: user_answer_detail
  ua_conclusion_only :: bool
  ua_evidence_preference :: user_answer_evidence_preference
  ua_citation_preference :: user_answer_citation_preference
  ua_structural_constraints :: "rstring list"
  ua_other_format :: "rstring option"

datatype cancellation_cause = UserRequested | CauseSystem | CauseParent | CauseDeadline | LeaseLost
datatype cancellation_status = CancelRequested | CancelCancelled | AlreadyTerminal

record cancellation_receipt =
  cr_cancellation_id :: rstring
  cr_session_id :: rstring
  cr_turn_id :: rstring
  cr_execution_id :: rstring
  cr_actor_id :: rstring
  cr_cause :: cancellation_cause
  cr_reason :: "rstring option"
  cr_requested_at_ms :: nat
  cr_effective_at_ms :: "nat option"
  cr_status :: cancellation_status
  cr_journal_sequence :: nat
  cr_projection_revision :: nat

record delivery_envelope =
  de_envelope_id :: rstring
  de_revision :: nat
  de_objective_id :: rstring
  de_pipeline_status :: pipeline_status
  de_delivery_status :: delivery_status
  de_branch_terminals :: "delivery_branch_terminal list"
  de_verified_receipts :: "verified_delivery_reference list"
  de_verified_artifacts :: "verified_delivery_reference list"
  de_verified_effects :: "verified_delivery_effect list"
  de_workspace_materializations :: "workspace_materialization_receipt list"
  de_coverage :: delivery_coverage
  de_unresolved :: "delivery_unresolved list"
  de_conflicts :: "delivery_conflict list"
  de_cancellation :: "cancellation_receipt option"
  de_user_answer_contract :: user_answer_contract
  de_created_at_ms :: nat

section \<open>Terminal presentations\<close>

datatype answer_origin =
  ModelDirect | TerminalDelegate | TeamSynthesizer | TerminalNarrator | FallbackModel
| ProgrammaticFallback | RuntimeVerifiedFallback | OriginCancellationReceipt

datatype answer_validation_status = ValidationPending | ValidationValid | ValidationInvalid

record answer_validation =
  av_status :: answer_validation_status
  av_findings :: "rstring list"
  av_envelope_revision :: "nat option"

datatype terminal_presentation_state =
  PresStarted | PresStreaming | PresValidating | PresCommitted | PresAborted | PresSuperseded

record presentation_model_attempt =
  pa_provider :: rstring
  pa_model :: rstring
  pa_failure :: "rstring option"

record terminal_presentation =
  tp_presentation_id :: rstring
  tp_attempt_id :: rstring
  tp_envelope_id :: rstring
  tp_envelope_revision :: nat
  tp_state :: terminal_presentation_state
  tp_answer_origin :: answer_origin
  tp_source_execution_id :: "rstring option"
  tp_narrator_model :: "rstring option"
  tp_narrator_provider :: "rstring option"
  tp_models_attempted :: "presentation_model_attempt list"
  tp_validation :: answer_validation
  tp_fallback_reason :: "rstring option"
  tp_generated_at_ms :: nat
  tp_committed_at_ms :: "nat option"

section \<open>Continuations\<close>

datatype continuation_authorization = Authorized | Revoked

record collaboration_continuation_binding =
  cb_source_session_id :: rstring
  cb_source_turn_id :: rstring
  cb_source_root_id :: rstring
  cb_team_set_ref :: rstring
  cb_delivery_revision :: nat
  cb_result_refs :: "rstring list"
  cb_current_ingress :: rstring
  cb_candidate_revision :: nat
  cb_binding_digest :: rstring
  cb_authorization :: continuation_authorization
  cb_authorization_revision :: nat
  cb_handoff_id :: "rstring option"

section \<open>Facts\<close>

text \<open>The support states form the four-valued join semilattice with bottom and top.\<close>

lemma combine_idem [simp]: "combine a a = a"
  by (cases a) (simp_all add: combine_def)

lemma combine_commute: "combine a b = combine b a"
  by (cases a; cases b) (simp_all add: combine_def)

lemma combine_assoc: "combine (combine a b) c = combine a (combine b c)"
  by (cases a; cases b; cases c) (simp_all add: combine_def)

lemma combine_SupportUnknown [simp]: "combine SupportUnknown a = a" "combine a SupportUnknown = a"
  by (cases a; simp add: combine_def)+

lemma combine_Both [simp]: "combine Both a = Both" "combine a Both = Both"
  by (simp_all add: combine_def)

lemma set_fold_push_absent: "set (fold push_absent xs ys) = set ys \<union> set xs"
  by (induction xs arbitrary: ys) (auto simp: push_absent_def)

lemma distinct_fold_push_absent: "distinct ys \<Longrightarrow> distinct (fold push_absent xs ys)"
  by (induction xs arbitrary: ys) (auto simp: push_absent_def)

lemma merge_from_members:
  "set (oa_satisfied_criteria (merge_from json a b)) =
     set (oa_satisfied_criteria a) \<union> set (oa_satisfied_criteria b)"
  "set (oa_observed_evidence (merge_from json a b)) =
     set (oa_observed_evidence a) \<union> set (oa_observed_evidence b)"
  "set (oa_unresolved_obligation_ids (merge_from json a b)) =
     set (oa_unresolved_obligation_ids a) \<union> set (oa_unresolved_obligation_ids b)"
  by (simp_all add: merge_from_def set_fold_push_absent)

end
