(* ===== verification/Contract.thy ===== *)
theory Contract
  imports Evidence_Types
begin

text \<open>
  The execution graph contract, harness-contract/src/execution_graph/contract.rs: nodes, edges,
  dependency policies, work contracts, results, the graph itself and the commands on it, with
  the constructors, defaults and validations the file defines.  Record fields are prefixed:
  \<open>n_\<close> for a node, \<open>e_\<close> an edge, \<open>w_\<close> a work contract, \<open>r_\<close> a node result, \<open>u_\<close> usage, \<open>g_\<close> the
  graph.
\<close>

section \<open>Enumerations\<close>

datatype execution_node_kind =
  InlineModel | ToolBatch | AgentTask | Verify | Materialize | Synthesize | Approval
| SessionDispatch | Timer

datatype execution_work_role =
  RolePlan | RoleTool | RoleEvidenceAnalyze | RoleCrossCheck | RoleSynthesize | RoleVerify

datatype execution_node_status =
  Planned | Ready | Running | WaitingInput | WaitingApproval | WaitingExternal | Paused
| Completed | Blocked | Failed | Cancelled

definition is_terminal :: "execution_node_status \<Rightarrow> bool" where
  "is_terminal s = (case s of Completed \<Rightarrow> True | Blocked \<Rightarrow> True | Failed \<Rightarrow> True
     | Cancelled \<Rightarrow> True | _ \<Rightarrow> False)"

datatype execution_edge_kind = DependsOn | CrossTeamHandoff | ArtifactRequires | Verifies | Produces

definition is_dependency :: "execution_edge_kind \<Rightarrow> bool" where
  "is_dependency k = (case k of DependsOn \<Rightarrow> True | ArtifactRequires \<Rightarrow> True | _ \<Rightarrow> False)"

section \<open>Materialization requests\<close>

datatype execution_materialization_content =
  ExistingOrSourceSummary | SourceSummary | SourceJsonField rstring

record execution_materialization_request =
  mr_source_node_id :: rstring
  mr_target_path :: rstring
  mr_artifact_kind :: rstring
  mr_content :: execution_materialization_content
  mr_expected_sha256 :: "rstring option"

fun split_on :: "char \<Rightarrow> rstring \<Rightarrow> rstring list" where
  "split_on c [] = [[]]"
| "split_on c (x # xs) =
     (if x = c then [] # split_on c xs
      else case split_on c xs of [] \<Rightarrow> [[x]] | p # ps \<Rightarrow> (x # p) # ps)"

definition path_is_absolute :: "rstring \<Rightarrow> bool" where
  "path_is_absolute p = starts_with ''/'' p"

definition path_has_parent_dir :: "rstring \<Rightarrow> bool" where
  "path_has_parent_dir p = (''..'' \<in> set (split_on (CHR 0x2F) p))"

definition is_ascii_hexdigit :: "char \<Rightarrow> bool" where
  "is_ascii_hexdigit c = (let n = (of_char c :: nat) in
     48 \<le> n \<and> n \<le> 57 \<or> 65 \<le> n \<and> n \<le> 70 \<or> 97 \<le> n \<and> n \<le> 102)"

definition valid_sha256_ref :: "rstring \<Rightarrow> bool" where
  "valid_sha256_ref d = (case strip_prefix ''sha256:'' d of None \<Rightarrow> False
     | Some hex \<Rightarrow> length hex = 64 \<and> list_all is_ascii_hexdigit hex)"

definition mr_validate :: "execution_materialization_request \<Rightarrow> (rstring, unit) result" where
  "mr_validate r =
    (if is_blank (mr_source_node_id r) \<or> is_blank (mr_target_path r) \<or> is_blank (mr_artifact_kind r)
     then Err ''materialization source, target and artifact kind are required''
     else if path_is_absolute (mr_target_path r) \<or> path_has_parent_dir (mr_target_path r)
     then Err ''materialization target must be a workspace-relative path''
     else if (case mr_content r of SourceJsonField field \<Rightarrow> is_blank field | _ \<Rightarrow> False)
     then Err ''materialization JSON field is empty''
     else if (case mr_expected_sha256 r of Some d \<Rightarrow> \<not> valid_sha256_ref d | None \<Rightarrow> False)
     then Err ''materialization expected_sha256 is invalid''
     else Ok ())"

section \<open>Dependencies and work contracts\<close>

datatype dependency_predicate =
  PredEvidenceReady (pred_minimum: nat)
    (pred_required_fact_kinds: "terminal_fact_kind list")
    (pred_accepted_execution_statuses: "execution_node_status list")
    (pred_accepted_acceptance_verdicts: "acceptance_verdict list")
    (pred_require_committed_effect: bool)

datatype execution_dependency_policy =
  All
| Any bool
| Quorum nat bool
| EvidenceReady dependency_predicate bool
| Finally

fun cancel_remaining :: "execution_dependency_policy \<Rightarrow> bool" where
  "cancel_remaining All = False"
| "cancel_remaining (Any c) = c"
| "cancel_remaining (Quorum _ c) = c"
| "cancel_remaining (EvidenceReady _ c) = c"
| "cancel_remaining Finally = False"

record execution_work_contract =
  w_role :: execution_work_role
  w_required :: bool
  w_dependency :: execution_dependency_policy
  w_cancellation_group :: "rstring option"
  w_required_evidence_refs :: "rstring list"
  w_input_artifact_refs :: "rstring list"
  w_output_artifact_kinds :: "rstring list"
  w_context_view_ref :: "rstring option"
  w_model_profile :: "rstring option"
  w_reasoning_effort :: "rstring option"
  w_expected_input_tokens :: nat
  w_expected_output_tokens :: nat
  w_expected_duration_ms :: nat
  w_scheduling_priority :: nat

definition work_new :: "execution_work_role \<Rightarrow> execution_work_contract" where
  "work_new role =
    \<lparr> w_role = role, w_required = True, w_dependency = All, w_cancellation_group = None,
      w_required_evidence_refs = [], w_input_artifact_refs = [], w_output_artifact_kinds = [],
      w_context_view_ref = None, w_model_profile = None, w_reasoning_effort = None,
      w_expected_input_tokens = 0, w_expected_output_tokens = 0, w_expected_duration_ms = 0,
      w_scheduling_priority = 0 \<rparr>"

section \<open>Lineage\<close>

record execution_graph_lineage =
  l_session_id :: rstring
  l_turn_id :: rstring
  l_root_task_id :: rstring
  l_task_id :: rstring
  l_generation :: nat

definition lineage_validate :: "execution_graph_lineage \<Rightarrow> (rstring, unit) result" where
  "lineage_validate l =
    (if is_blank (l_session_id l) then Err ''execution graph session_id must not be empty''
     else if is_blank (l_turn_id l) then Err ''execution graph turn_id must not be empty''
     else if is_blank (l_root_task_id l) then Err ''execution graph root_task_id must not be empty''
     else if is_blank (l_task_id l) then Err ''execution graph task_id must not be empty''
     else if l_generation l = 0 then Err ''execution graph generation must be positive''
     else Ok ())"

section \<open>Nodes and edges\<close>

record execution_edge =
  e_from :: rstring
  e_to :: rstring
  e_kind :: execution_edge_kind

record execution_acceptance =
  a_required :: required_acceptance
  a_criteria :: "rstring list"
  a_required_evidence :: "rstring list"
  a_minimum_score_basis_points :: "nat option"

definition acceptance_default :: execution_acceptance where
  "acceptance_default =
    \<lparr> a_required = \<lparr> ra_criteria = [], ra_evidence_obligations = [] \<rparr>, a_criteria = [],
      a_required_evidence = [], a_minimum_score_basis_points = None \<rparr>"

record execution_retry_policy =
  rp_max_attempts :: nat
  rp_retryable_failure_kinds :: "rstring list"
  rp_base_backoff_ms :: nat
  rp_maximum_backoff_ms :: nat

definition retry_policy_default :: execution_retry_policy where
  "retry_policy_default =
    \<lparr> rp_max_attempts = 1, rp_retryable_failure_kinds = [], rp_base_backoff_ms = 500,
      rp_maximum_backoff_ms = 30000 \<rparr>"

record execution_node_spec =
  n_id :: rstring
  n_kind :: execution_node_kind
  n_payload_ref :: rstring
  n_executor_kind :: rstring
  n_idempotency_key :: rstring
  n_lease_ref :: "context_budget_lease_ref option"
  n_acceptance :: execution_acceptance
  n_retry_policy :: execution_retry_policy
  n_resource_scopes :: "rstring list"
  n_work :: "execution_work_contract option"

text \<open>\<open>ExecutionNodeSpec::new\<close>; the random UUID is the argument \<open>uuid\<close>.\<close>
definition node_new :: "rstring \<Rightarrow> execution_node_kind \<Rightarrow> rstring \<Rightarrow> rstring \<Rightarrow> execution_node_spec" where
  "node_new uuid kind executor_kind payload_ref =
    (let i = ''execution-node-'' @ uuid in
     \<lparr> n_id = i, n_kind = kind, n_payload_ref = payload_ref, n_executor_kind = executor_kind,
       n_idempotency_key = i, n_lease_ref = None, n_acceptance = acceptance_default,
       n_retry_policy = retry_policy_default, n_resource_scopes = [], n_work = None \<rparr>)"

section \<open>Results\<close>

record execution_failure =
  f_kind :: rstring
  f_message :: rstring
  f_retryable :: bool
  f_evidence_refs :: "evidence_access_ref list"

record execution_usage =
  u_required_acceptance :: required_acceptance
  u_observed_acceptance :: observed_acceptance
  u_acceptance_evaluation :: "acceptance_evaluation option"
  u_model :: "rstring option"
  u_input_tokens :: nat
  u_output_tokens :: nat
  u_cache_creation_input_tokens :: nat
  u_cache_read_input_tokens :: nat
  u_cached_tokens :: nat
  u_duration_ms :: nat
  u_tool_calls :: nat
  u_duplicate_tool_calls :: nat
  u_max_tool_concurrency_observed :: nat
  u_parallel_tool_batches :: nat
  u_runtime_write_attempt_paths :: "rstring list"
  u_runtime_observed_resource_scopes :: "rstring list"

definition usage_default :: execution_usage where
  "usage_default =
    \<lparr> u_required_acceptance = \<lparr> ra_criteria = [], ra_evidence_obligations = [] \<rparr>,
      u_observed_acceptance = \<lparr> oa_satisfied_criteria = [], oa_observed_evidence = [],
        oa_unresolved_obligation_ids = [] \<rparr>,
      u_acceptance_evaluation = None, u_model = None, u_input_tokens = 0, u_output_tokens = 0,
      u_cache_creation_input_tokens = 0, u_cache_read_input_tokens = 0, u_cached_tokens = 0,
      u_duration_ms = 0, u_tool_calls = 0, u_duplicate_tool_calls = 0,
      u_max_tool_concurrency_observed = 0, u_parallel_tool_batches = 0,
      u_runtime_write_attempt_paths = [], u_runtime_observed_resource_scopes = [] \<rparr>"

record execution_node_result =
  r_status :: execution_node_status
  r_result_ref :: "rstring option"
  r_summary :: "rstring option"
  r_evidence_refs :: "evidence_access_ref list"
  r_failure :: "execution_failure option"
  r_usage :: execution_usage
  r_finished_at_ms :: nat

record execution_recovery_cursor =
  rc_commit_cursor :: nat
  rc_node_attempts :: "(rstring, nat) smap"

record execution_parent_binding =
  pb_execution_id :: rstring
  pb_node_id :: rstring

section \<open>Service classes\<close>

datatype execution_service_class = Interactive | Foreground | Background | Maintenance

fun rank :: "execution_service_class \<Rightarrow> nat" where
  "rank Interactive = 0"
| "rank Foreground = 1"
| "rank Background = 2"
| "rank Maintenance = 3"

definition bounded_by ::
  "execution_service_class \<Rightarrow> execution_service_class option \<Rightarrow> execution_service_class" where
  "bounded_by c parent_ceiling = (case parent_ceiling of
     Some parent \<Rightarrow> if rank c < rank parent then parent else c
   | None \<Rightarrow> c)"

text \<open>The derived \<open>Ord\<close> of the enumeration is the order of the ranks.\<close>

instantiation execution_service_class :: linorder
begin

definition less_eq_execution_service_class ::
  "execution_service_class \<Rightarrow> execution_service_class \<Rightarrow> bool" where
  "less_eq_execution_service_class a b = (rank a \<le> rank b)"

definition less_execution_service_class ::
  "execution_service_class \<Rightarrow> execution_service_class \<Rightarrow> bool" where
  "less_execution_service_class a b = (rank a < rank b)"

instance
proof
  fix a b :: execution_service_class
  show "a \<le> b \<Longrightarrow> b \<le> a \<Longrightarrow> a = b"
    by (cases a; cases b) (simp_all add: less_eq_execution_service_class_def)
qed (auto simp: less_eq_execution_service_class_def less_execution_service_class_def)

end

section \<open>The graph\<close>

record execution_graph =
  g_id :: rstring
  g_revision :: nat
  g_objective :: rstring
  g_service_class :: execution_service_class
  g_parent_execution :: "execution_parent_binding option"
  g_lineage :: "execution_graph_lineage option"
  g_continuation_binding :: "collaboration_continuation_binding option"
  g_nodes :: "execution_node_spec list"
  g_edges :: "execution_edge list"
  g_node_statuses :: "(rstring, execution_node_status) smap"
  g_node_results :: "(rstring, execution_node_result) smap"
  g_recovery_cursor :: execution_recovery_cursor
  g_delivery_envelope :: "delivery_envelope option"
  g_terminal_presentation :: "terminal_presentation option"

definition graph_new :: "rstring \<Rightarrow> rstring \<Rightarrow> execution_graph" where
  "graph_new uuid objective =
    \<lparr> g_id = ''execution-graph-'' @ uuid, g_revision = 0, g_objective = objective,
      g_service_class = Interactive, g_parent_execution = None, g_lineage = None,
      g_continuation_binding = None, g_nodes = [], g_edges = [], g_node_statuses = [],
      g_node_results = [],
      g_recovery_cursor = \<lparr> rc_commit_cursor = 0, rc_node_attempts = [] \<rparr>,
      g_delivery_envelope = None, g_terminal_presentation = None \<rparr>"

definition with_lineage :: "execution_graph \<Rightarrow> execution_graph_lineage \<Rightarrow> execution_graph" where
  "with_lineage g l = g \<lparr> g_lineage := Some l \<rparr>"

section \<open>Commands\<close>

datatype approval_grant_scope = ScopeOnce | ScopeTurn | ScopeTask | ScopeSession | ScopeGlobal

datatype approval_decision_actor_kind =
  ActorHuman | ActorPolicy | ActorStewardAgent | ActorTypedOwner | ActorTimeoutPolicy

record approval_decision_actor =
  ada_kind :: approval_decision_actor_kind
  ada_actor_id :: rstring

record approval_decision_command =
  ad_approval_id :: rstring
  ad_approved :: bool
  ad_skip :: bool
  ad_reason :: rstring
  ad_scope :: approval_grant_scope
  ad_actor :: approval_decision_actor
  ad_evidence_refs :: "rstring list"

text \<open>The first argument of every command is its \<open>expected_revision\<close>.\<close>
datatype execution_graph_command =
  CmdStart (cmd_expected_revision: nat)
| CmdAdvance (cmd_expected_revision: nat)
| CmdPause (cmd_expected_revision: nat) rstring
| CmdResume (cmd_expected_revision: nat)
| CmdCancel (cmd_expected_revision: nat) rstring
| CmdCancelNode (cmd_expected_revision: nat) rstring rstring
| CmdSubmitApproval (cmd_expected_revision: nat) rstring approval_decision_command
| CmdResolveExternal (cmd_expected_revision: nat) rstring rstring rstring
| CmdReplan (cmd_expected_revision: nat) rstring rstring

section \<open>Well-formed graphs\<close>

text \<open>
  The maps of a graph are ordered maps and its revision is a 64 bit number; every operation of
  the development keeps this.
\<close>
definition graph_wf :: "execution_graph \<Rightarrow> bool" where
  "graph_wf g = (sm_wf (g_node_statuses g) \<and> sm_wf (g_node_results g)
     \<and> sm_wf (rc_node_attempts (g_recovery_cursor g)) \<and> g_revision g \<le> u64_max)"

lemma graph_new_wf [simp]: "graph_wf (graph_new uuid objective)"
  by (simp add: graph_wf_def graph_new_def)

lemma graph_wf_statuses [intro]: "graph_wf g \<Longrightarrow> sm_wf (g_node_statuses g)"
  by (simp add: graph_wf_def)

lemma graph_wf_results [intro]: "graph_wf g \<Longrightarrow> sm_wf (g_node_results g)"
  by (simp add: graph_wf_def)

lemma bounded_by_ge: "bounded_by c (Some parent) \<ge> parent"
  by (auto simp: bounded_by_def less_eq_execution_service_class_def)

lemma bounded_by_max: "bounded_by c (Some parent) = max c parent"
  by (cases c; cases parent) (simp_all add: bounded_by_def max_def less_eq_execution_service_class_def)

lemma split_on_nonempty [simp]: "split_on c s \<noteq> []"
  by (induction s) (auto split: list.splits)

lemma path_has_parent_dir_prefix: "path_has_parent_dir (''../'' @ p)"
  by (auto simp: path_has_parent_dir_def split: list.splits)

end
