(* ===== verification/Kahn.thy ===== *)
theory Kahn
  imports Ordered_Map
begin

text \<open>
  The in-degree machinery that the graph validation (validation.rs) and the work projection
  (\<open>graph_shape\<close> and \<open>critical_path\<close> of projection.rs) share: an in-degree map, an adjacency map
  and the relaxation of a node's targets.  \<open>relax_sat\<close> decrements with \<open>saturating_sub\<close>.
  \<open>kahn_inv\<close> is the invariant of every such loop, \<open>kahn_step\<close> its preservation.
\<close>

type_synonym indegree_map = "(rstring, nat) smap"
type_synonym adjacency_map = "(rstring, rstring list) smap"
type_synonym dep_pair = "rstring \<times> rstring"

section \<open>The maps\<close>

definition sm_push :: "'k::linorder \<Rightarrow> 'v \<Rightarrow> ('k, 'v list) smap \<Rightarrow> ('k, 'v list) smap" where
  "sm_push k x m = sm_insert k ((case sm_get m k of Some l \<Rightarrow> l | None \<Rightarrow> []) @ [x]) m"

definition targets :: "('k, 'v list) smap \<Rightarrow> 'k \<Rightarrow> 'v list" where
  "targets m k = (case sm_get m k of Some l \<Rightarrow> l | None \<Rightarrow> [])"

definition zero_indegree :: "rstring list \<Rightarrow> indegree_map" where
  "zero_indegree ids = map (\<lambda>i. (i, 0)) ids"

definition initial_frontier :: "indegree_map \<Rightarrow> rstring list" where
  "initial_frontier indegree = map fst (filter (\<lambda>(_, c). c = 0) indegree)"

definition relax_sat :: "rstring \<Rightarrow> indegree_map \<times> rstring list \<Rightarrow> indegree_map \<times> rstring list" where
  "relax_sat t st = (case st of (indegree, next) \<Rightarrow>
     (case sm_get indegree t of
        None \<Rightarrow> (indegree, next)
      | Some c \<Rightarrow> (sm_modify t (\<lambda>n. n - 1) indegree, if c - 1 = 0 then next @ [t] else next)))"

lemma sm_wf_push [simp, intro]: "sm_wf m \<Longrightarrow> sm_wf (sm_push k x m)"
  by (simp add: sm_push_def)

lemma targets_push: "sm_wf m \<Longrightarrow> targets (sm_push k x m) k' = targets m k' @ (if k' = k then [x] else [])"
  by (auto simp: targets_def sm_push_def)

lemma targets_Nil [simp]: "targets [] k = []"
  by (simp add: targets_def)

lemma sm_wf_zero_indegree: "ss_wf ids \<Longrightarrow> sm_wf (zero_indegree ids)"
  by (simp add: sm_wf_def ss_wf_def zero_indegree_def comp_def)

lemma keys_zero_indegree [simp]: "map fst (zero_indegree ids) = ids"
  by (simp add: zero_indegree_def comp_def)

lemma sm_get_zero_indegree: "sm_get (zero_indegree ids) v = (if v \<in> set ids then Some 0 else None)"
  by (induction ids) (auto simp: zero_indegree_def sm_get_def)

lemma set_initial_frontier:
  "sm_wf m \<Longrightarrow> set (initial_frontier m) = {v. sm_get m v = Some 0}"
  by (force simp: initial_frontier_def sm_mem_iff)

lemma sorted_initial_frontier: "sm_wf m \<Longrightarrow> sorted_wrt (<) (initial_frontier m)"
  using sm_wf_filter [of m "\<lambda>(_, c). c = 0"] by (simp add: initial_frontier_def sm_wf_def)

section \<open>Pending predecessors\<close>

definition pend :: "dep_pair list \<Rightarrow> rstring set \<Rightarrow> rstring \<Rightarrow> nat" where
  "pend E D v = length (filter (\<lambda>p. snd p = v \<and> fst p \<notin> D) E)"

definition succs :: "dep_pair list \<Rightarrow> rstring \<Rightarrow> rstring list" where
  "succs E x = map snd (filter (\<lambda>p. fst p = x) E)"

lemma pend_eq_0: "pend E D v = 0 \<longleftrightarrow> (\<forall>u. (u, v) \<in> set E \<longrightarrow> u \<in> D)"
  by (auto simp: pend_def filter_empty_conv)

lemma pend_mono: "D \<subseteq> D' \<Longrightarrow> pend E D v = 0 \<Longrightarrow> pend E D' v = 0"
  by (auto simp: pend_eq_0)

lemma pend_insert: "x \<notin> D \<Longrightarrow> pend E D v = pend E (insert x D) v + count_list (succs E x) v"
  by (induction E) (auto simp: pend_def succs_def)

lemma set_succs: "set (succs E x) = {v. (x, v) \<in> set E}"
  by (force simp: succs_def)

section \<open>Relaxing a list of targets\<close>

lemma relax_sat_known:
  "sm_get m t = Some c \<Longrightarrow> relax_sat t (m, nx) =
     (sm_modify t (\<lambda>n. n - 1) m, if c - 1 = 0 then nx @ [t] else nx)"
  by (simp add: relax_sat_def)

lemma zeroes_Cons:
  assumes "sm_get m t = Some c" "Suc (count_list ts t) \<le> c"
  shows "{v\<in>set (t # ts). sm_get m v = Some (count_list (t # ts) v)} =
    (if c - 1 = 0 then {t} else {}) \<union> {v\<in>set ts. sm_get (sm_modify t (\<lambda>n. n - 1) m) v = Some (count_list ts v)}" (is "?L = ?R")
proof (rule set_eqI)
  fix v
  have zero: "t \<notin> set ts \<Longrightarrow> count_list ts t = 0" by simp
  have pos: "t \<in> set ts \<Longrightarrow> c \<noteq> 1" using assms(2) by (metis One_nat_def Suc_le_mono count_list_0_iff le_zero_eq)
  show "v \<in> ?L \<longleftrightarrow> v \<in> ?R"
  proof (cases "v = t")
    case True
    then show ?thesis using assms pos zero by (cases "t \<in> set ts") auto
  qed auto
qed

lemma fold_relax_sat:
  assumes "\<forall>v\<in>set ts. \<exists>c. sm_get m v = Some c \<and> count_list ts v \<le> c"
  shows "\<exists>m' zs. fold relax_sat ts (m, nx) = (m', nx @ zs) \<and> distinct zs
    \<and> set zs = {v\<in>set ts. sm_get m v = Some (count_list ts v)}
    \<and> map fst m' = map fst m
    \<and> (\<forall>v. sm_get m' v = map_option (\<lambda>c. c - count_list ts v) (sm_get m v))"
  using assms
proof (induction ts arbitrary: m nx)
  case Nil
  show ?case by (auto simp: option.map_id0 [unfolded id_def])
next
  case (Cons t ts)
  obtain c where c: "sm_get m t = Some c" "Suc (count_list ts t) \<le> c"
    using Cons.prems by force
  let ?m = "sm_modify t (\<lambda>n. n - 1) m"
  let ?n = "if c - 1 = 0 then nx @ [t] else nx"
  have pre: "\<forall>v\<in>set ts. \<exists>c. sm_get ?m v = Some c \<and> count_list ts v \<le> c"
  proof
    fix v assume v: "v \<in> set ts"
    show "\<exists>c. sm_get ?m v = Some c \<and> count_list ts v \<le> c"
    proof (cases "v = t")
      case True
      then show ?thesis using c by auto
    next
      case False
      then show ?thesis using Cons.prems v by auto
    qed
  qed
  from Cons.IH [OF pre, of ?n] obtain m' zs where IH:
    "fold relax_sat ts (?m, ?n) = (m', ?n @ zs)" "distinct zs"
    "set zs = {v\<in>set ts. sm_get ?m v = Some (count_list ts v)}" "map fst m' = map fst ?m"
    "\<forall>v. sm_get m' v = map_option (\<lambda>c. c - count_list ts v) (sm_get ?m v)"
    by blast
  let ?zs = "if c - 1 = 0 then t # zs else zs"
  have fresh: "t \<notin> set ts" if "c - 1 = 0"
  proof -
    have "count_list ts t = 0" using that c(2) by linarith
    then show ?thesis by (simp add: count_list_0_iff)
  qed
  have "fold relax_sat (t # ts) (m, nx) = (m', nx @ ?zs)"
    using IH(1) by (simp add: relax_sat_known [OF c(1)])
  moreover have "distinct ?zs" using IH(2,3) fresh by auto
  moreover have "set ?zs = {v\<in>set (t # ts). sm_get m v = Some (count_list (t # ts) v)}"
    unfolding zeroes_Cons [OF c] using IH(3) by simp
  moreover have "map fst m' = map fst m" using IH(4) by simp
  moreover have "\<forall>v. sm_get m' v = map_option (\<lambda>c. c - count_list (t # ts) v) (sm_get m v)"
    using IH(5) c by (auto simp: option.map_comp comp_def)
  ultimately show ?case by blast
qed

section \<open>The loop invariant\<close>

definition kahn_inv ::
  "dep_pair list \<Rightarrow> rstring set \<Rightarrow> rstring set \<Rightarrow> indegree_map \<Rightarrow> rstring list \<Rightarrow> bool" where
  "kahn_inv E V D m A \<longleftrightarrow>
     sm_wf m \<and> (\<forall>v. sm_get m v = (if v \<in> V then Some (pend E D v) else None))
     \<and> D \<subseteq> V \<and> (\<forall>v\<in>D. pend E D v = 0)
     \<and> distinct A \<and> set A = {v\<in>V. v \<notin> D \<and> pend E D v = 0}"

lemma kahn_inv_perm: "kahn_inv E V D m A \<Longrightarrow> mset A' = mset A \<Longrightarrow> kahn_inv E V D m A'"
  unfolding kahn_inv_def by (metis mset_eq_imp_distinct_iff mset_eq_setD)

lemma kahn_relax:
  assumes inv: "kahn_inv E V D m A" and edges: "\<forall>(u, v)\<in>set E. u \<in> V \<and> v \<in> V"
    and x: "x \<in> set A"
  obtains m' zs where "fold relax_sat (succs E x) (m, nx) = (m', nx @ zs)"
    "kahn_inv E V (insert x D) m' (remove1 x A @ zs)"
    "\<forall>z\<in>set zs. (x, z) \<in> set E"
    "\<forall>t\<in>set (succs E x). \<exists>c. sm_get m t = Some c \<and> count_list (succs E x) t \<le> c"
proof -
  let ?ts = "succs E x"
  have x': "x \<in> V" "x \<notin> D" "pend E D x = 0" using inv x by (auto simp: kahn_inv_def)
  have get: "sm_get m v = (if v \<in> V then Some (pend E D v) else None)" for v
    using inv by (auto simp: kahn_inv_def)
  have pend: "pend E D v = pend E (insert x D) v + count_list ?ts v" for v
    using x'(2) by (rule pend_insert)
  have ts_V: "set ?ts \<subseteq> V" using edges by (auto simp: set_succs)
  have pre: "\<forall>v\<in>set ?ts. \<exists>c. sm_get m v = Some c \<and> count_list ?ts v \<le> c"
    using ts_V pend by (auto simp: get)
  from fold_relax_sat [OF pre, of nx] obtain m' zs where F:
    "fold relax_sat ?ts (m, nx) = (m', nx @ zs)" "distinct zs"
    "set zs = {v\<in>set ?ts. sm_get m v = Some (count_list ?ts v)}" "map fst m' = map fst m"
    "\<forall>v. sm_get m' v = map_option (\<lambda>c. c - count_list ?ts v) (sm_get m v)" by blast
  have A: "distinct A" "set A = {v\<in>V. v \<notin> D \<and> pend E D v = 0}" "D \<subseteq> V"
    "\<forall>v\<in>D. pend E D v = 0" using inv by (auto simp: kahn_inv_def)
  have zs: "set zs = {v\<in>set ?ts. pend E (insert x D) v = 0}"
    using F(3) ts_V pend by (auto simp: get)
  have ts_pos: "v \<in> set ?ts \<Longrightarrow> 0 < pend E D v" for v
    using pend [of v] by (metis add_is_0 count_list_0_iff gr0I)
  have disj: "set zs \<inter> set A = {}" "set zs \<inter> insert x D = {}"
    using ts_pos zs A x' by force+
  have ready: "set (remove1 x A @ zs) = {v\<in>V. v \<notin> insert x D \<and> pend E (insert x D) v = 0}"
  proof -
    have "v \<in> set A \<and> v \<noteq> x \<or> v \<in> set zs \<longleftrightarrow> v \<in> V \<and> v \<notin> insert x D \<and> pend E (insert x D) v = 0" for v
      using zs A(2) ts_V disj(2) pend [of v] by (cases "v \<in> set ?ts") (auto simp: count_list_0_iff)
    then show ?thesis using A(1) by auto
  qed
  have "kahn_inv E V (insert x D) m' (remove1 x A @ zs)"
    unfolding kahn_inv_def
  proof (intro conjI)
    show "sm_wf m'" using inv F(4) by (simp add: kahn_inv_def sm_wf_def)
    show "\<forall>v. sm_get m' v = (if v \<in> V then Some (pend E (insert x D) v) else None)"
      using F(5) pend by (simp add: get)
    show "insert x D \<subseteq> V" using A(3) x'(1) by simp
    show "\<forall>v\<in>insert x D. pend E (insert x D) v = 0"
      using A(4) x'(3) pend by (metis add_is_0 insertE)
    show "distinct (remove1 x A @ zs)" using A(1) F(2) disj(1) by (auto simp: distinct_remove1)
    show "set (remove1 x A @ zs) = {v\<in>V. v \<notin> insert x D \<and> pend E (insert x D) v = 0}"
      by (rule ready)
  qed
  then show thesis using that F(1) zs pre by (auto simp: set_succs)
qed

text \<open>A whole frontier, node by node in any order\<close>

lemma kahn_batch:
  assumes "kahn_inv E V D m (B @ A)" and edges: "\<forall>(u, v)\<in>set E. u \<in> V \<and> v \<in> V"
  obtains m' zs where
    "fold (\<lambda>x. fold relax_sat (succs E x)) B (m, A) = (m', A @ zs)"
    "kahn_inv E V (D \<union> set B) m' (A @ zs)"
    "\<forall>z\<in>set zs. \<exists>x\<in>set B. (x, z) \<in> set E"
proof -
  have "\<exists>m' zs. fold (\<lambda>x. fold relax_sat (succs E x)) B (m, A) = (m', A @ zs)
    \<and> kahn_inv E V (D \<union> set B) m' (A @ zs) \<and> (\<forall>z\<in>set zs. \<exists>x\<in>set B. (x, z) \<in> set E)"
    using assms(1)
  proof (induction B arbitrary: D m A)
    case Nil
    then show ?case by auto
  next
    case (Cons x B)
    obtain m1 z1 where 1: "fold relax_sat (succs E x) (m, A) = (m1, A @ z1)"
      "kahn_inv E V (insert x D) m1 (remove1 x ((x # B) @ A) @ z1)"
      "\<forall>z\<in>set z1. (x, z) \<in> set E"
      using kahn_relax [OF Cons.prems edges, where x = x and nx = A]
      by (metis append_Cons list.set_intros(1))
    have "kahn_inv E V (insert x D) m1 (B @ (A @ z1))" using 1(2) by simp
    from Cons.IH [OF this] obtain m2 z2 where 2:
      "fold (\<lambda>x. fold relax_sat (succs E x)) B (m1, A @ z1) = (m2, (A @ z1) @ z2)"
      "kahn_inv E V (insert x D \<union> set B) m2 ((A @ z1) @ z2)"
      "\<forall>z\<in>set z2. \<exists>x\<in>set B. (x, z) \<in> set E" by blast
    then show ?case using 1 by (intro exI [of _ m2] exI [of _ "z1 @ z2"]) auto
  qed
  then show thesis using that by blast
qed

lemma kahn_finished:
  assumes inv: "kahn_inv E V D m []" and edges: "\<forall>(u, v)\<in>set E. u \<in> V \<and> v \<in> V"
    and "finite V" and "acyclic (set E)"
  shows "D = V"
proof (rule ccontr)
  assume "D \<noteq> V"
  then have ne: "V - D \<noteq> {}" using inv by (auto simp: kahn_inv_def)
  have "wf (set E)" using assms(4) finite_acyclic_wf by blast
  then obtain v where v: "v \<in> V - D" "\<And>u. (u, v) \<in> set E \<Longrightarrow> u \<notin> V - D"
    using ne by (meson all_not_in_conv wfE_min)
  then have "pend E D v = 0" using edges by (auto simp: pend_eq_0)
  then show False using inv v(1) by (auto simp: kahn_inv_def)
qed

end
