(* ===== verification/Validation.thy ===== *)
theory Validation
  imports Contract Kahn
begin

text \<open>
  Graph validation, harness-contract/src/execution_graph/validation.rs.
  \<open>validate_execution_graph\<close> checks every node, every dependency edge and every dependency
  policy and then runs Kahn's algorithm; it returns the batches of nodes in execution order.
  The loop is a total function: its measure is the sum of the in-degrees.  \<open>CountUnderflow\<close> is
  not a value of the source's error type; it stands for the arithmetic panic of \<open>*cnt -= 1\<close> on
  a zero cnt and is shown to be unreachable.
\<close>

datatype validation_error =
  EmptyObjective
| DuplicateNode rstring
| MissingPayload rstring
| MissingExecutor rstring
| MissingNode rstring
| Cycle
| TimerUnavailable
| InvalidDependencyPolicy rstring rstring
| OptionalEffectOwner rstring
| InvalidWorkContract rstring rstring
| CountUnderflow

section \<open>The checks on nodes and edges\<close>

definition check_node ::
  "rstring sset \<Rightarrow> execution_node_spec \<Rightarrow> (validation_error, rstring sset) result" where
  "check_node ids node =
    (if n_id node \<in> set ids then Err (DuplicateNode (n_id node))
     else if is_blank (n_payload_ref node) then Err (MissingPayload (n_id node))
     else if is_blank (n_executor_kind node) then Err (MissingExecutor (n_id node))
     else if n_kind node = Timer then Err TimerUnavailable
     else if (case n_work node of
         Some work \<Rightarrow> list_ex is_blank (w_required_evidence_refs work @ w_input_artifact_refs work
                        @ w_output_artifact_kinds work)
       | None \<Rightarrow> False)
     then Err (InvalidWorkContract (n_id node)
       ''evidence and artifact contract values must be non-empty'')
     else Ok (ss_insert (n_id node) ids))"

definition check_edge ::
  "rstring sset \<Rightarrow> indegree_map \<times> adjacency_map \<Rightarrow> execution_edge
   \<Rightarrow> (validation_error, indegree_map \<times> adjacency_map) result" where
  "check_edge ids st edge = (case st of (indegree, outgoing) \<Rightarrow>
    (if e_from edge \<notin> set ids then Err (MissingNode (e_from edge))
     else if e_to edge \<notin> set ids then Err (MissingNode (e_to edge))
     else case sm_get indegree (e_to edge) of
       None \<Rightarrow> Err (MissingNode (e_to edge))
     | Some cnt \<Rightarrow> Ok (sm_modify (e_to edge) (\<lambda>n. n + 1) indegree,
                        sm_push (e_from edge) (e_to edge) outgoing)))"

definition dependency_edges :: "execution_graph \<Rightarrow> execution_edge list" where
  "dependency_edges g = filter (\<lambda>e. is_dependency (e_kind e)) (g_edges g)"

definition predecessor_count :: "execution_graph \<Rightarrow> rstring \<Rightarrow> nat" where
  "predecessor_count g i =
     length (filter (\<lambda>e. is_dependency (e_kind e) \<and> e_to e = i) (g_edges g))"

definition check_dependency_policy ::
  "execution_dependency_policy \<Rightarrow> rstring \<Rightarrow> nat \<Rightarrow> (validation_error, unit) result" where
  "check_dependency_policy policy i n = (case policy of
     All \<Rightarrow> Ok ()
   | Finally \<Rightarrow> Ok ()
   | Any _ \<Rightarrow> if n = 0 then Err (InvalidDependencyPolicy i ''any requires at least one dependency'')
             else Ok ()
   | Quorum minimum _ \<Rightarrow>
       if minimum = 0 \<or> minimum > n
       then Err (InvalidDependencyPolicy i (''quorum minimum '' @ nat_str minimum @ '' exceeds ''
              @ nat_str n @ '' dependencies''))
       else Ok ()
   | EvidenceReady predicate _ \<Rightarrow>
       (let minimum = pred_minimum predicate in
        if minimum = 0 \<or> minimum > n
        then Err (InvalidDependencyPolicy i (''evidence-ready minimum '' @ nat_str minimum
               @ '' exceeds '' @ nat_str n @ '' dependencies''))
        else Ok ()))"

definition may_own_effect :: "execution_node_spec \<Rightarrow> execution_work_contract \<Rightarrow> bool" where
  "may_own_effect node work =
    (n_kind node \<in> {Materialize, Synthesize, Approval, SessionDispatch}
     \<or> w_role work = RoleSynthesize
     \<or> list_ex (\<lambda>scope. starts_with ''write:'' scope \<or> starts_with ''worktree:'' scope
          \<or> starts_with ''network:'' scope \<or> starts_with ''system:'' scope) (n_resource_scopes node))"

definition check_work ::
  "execution_graph \<Rightarrow> execution_node_spec \<Rightarrow> (validation_error, unit) result" where
  "check_work g node = (case n_work node of
     None \<Rightarrow> Ok ()
   | Some work \<Rightarrow>
       and_then (check_dependency_policy (w_dependency work) (n_id node)
                   (predecessor_count g (n_id node)))
         (\<lambda>_. if \<not> w_required work \<and> may_own_effect node work
              then Err (OptionalEffectOwner (n_id node)) else Ok ()))"

section \<open>The batch loop\<close>

definition relax_target ::
  "indegree_map \<times> rstring list \<Rightarrow> rstring \<Rightarrow> (validation_error, indegree_map \<times> rstring list) result" where
  "relax_target st target = (case st of (indegree, nexts) \<Rightarrow>
    (case sm_get indegree target of
       None \<Rightarrow> Err (MissingNode target)
     | Some cnt \<Rightarrow>
         if cnt = 0 then Err CountUnderflow
         else Ok (sm_modify target (\<lambda>n. n - 1) indegree,
                  if cnt - 1 = 0 then nexts @ [target] else nexts)))"

definition relax_node ::
  "adjacency_map \<Rightarrow> indegree_map \<times> rstring list \<Rightarrow> rstring
   \<Rightarrow> (validation_error, indegree_map \<times> rstring list) result" where
  "relax_node outgoing st i = try_fold relax_target st (targets outgoing i)"

definition indegree_sum :: "indegree_map \<Rightarrow> nat" where
  "indegree_sum m = sum_list (map snd m)"

lemma indegree_sum_modify:
  "sm_get m t = Some c \<Longrightarrow> 0 < c \<Longrightarrow> indegree_sum (sm_modify t (\<lambda>n. n - 1) m) < indegree_sum m"
proof (induction m)
  case (Cons p m)
  have le: "indegree_sum (sm_modify t (\<lambda>n. n - 1) m) \<le> indegree_sum m"
    unfolding indegree_sum_def sm_modify_def
    by (induction m) (auto split: if_splits)
  show ?case
    using Cons le by (cases p) (auto simp: indegree_sum_def sm_modify_def sm_get_def split: if_splits)
qed simp

lemma relax_target_sum:
  assumes "relax_target (m, nx) t = Inr (m', nx')"
  shows "indegree_sum m' + length nx' \<le> indegree_sum m + length nx"
  using assms indegree_sum_modify [of m t]
  by (auto simp: relax_target_def split: option.splits if_splits)

lemma try_relax_target_sum:
  "try_fold relax_target (m, nx) ts = Inr (m', nx') \<Longrightarrow>
   indegree_sum m' + length nx' \<le> indegree_sum m + length nx"
proof (induction ts arbitrary: m nx)
  case (Cons t ts)
  then show ?case by (force simp: result_simps dest: relax_target_sum)
qed simp

lemma relax_batch_sum:
  "try_fold (relax_node outgoing) (m, nx) batch = Inr (m', nx') \<Longrightarrow>
   indegree_sum m' + length nx' \<le> indegree_sum m + length nx"
proof (induction batch arbitrary: m nx)
  case (Cons i batch)
  then show ?case by (force simp: result_simps relax_node_def dest: try_relax_target_sum)
qed simp

function batch_loop ::
  "adjacency_map \<Rightarrow> indegree_map \<Rightarrow> rstring list \<Rightarrow> rstring list list \<Rightarrow> nat
   \<Rightarrow> (validation_error, rstring list list \<times> nat) result" where
  "batch_loop outgoing indegree frontier batches visited =
    (if frontier = [] then Ok (batches, visited)
     else let batch = sort frontier in
       (case try_fold (relax_node outgoing) (indegree, []) batch of
          Inl e \<Rightarrow> Err e
        | Inr (indegree', nexts) \<Rightarrow>
            batch_loop outgoing indegree' nexts (batches @ [batch]) (visited + length batch)))"
  by pat_completeness auto
termination
proof (relation "measure (\<lambda>(_, m, f, _, _). indegree_sum m + (if f = [] then 0 else 1))")
  fix outgoing indegree frontier batches visited batch b x y
  assume "frontier \<noteq> []" "batch = sort frontier"
    "try_fold (relax_node outgoing) (indegree, []) batch = Inr b" "(x, y) = b"
  then have "indegree_sum x + length y \<le> indegree_sum indegree"
    using relax_batch_sum [of outgoing indegree "[]" batch x y] by simp
  then show "((outgoing, x, y, batches @ [batch], visited + length batch),
      outgoing, indegree, frontier, batches, visited)
      \<in> measure (\<lambda>(_, m, f, _, _). indegree_sum m + (if f = [] then 0 else 1))"
    using \<open>frontier \<noteq> []\<close> by (cases y) auto
qed simp

declare batch_loop.simps [simp del]

definition validate_execution_graph ::
  "execution_graph \<Rightarrow> (validation_error, rstring list list) result" where
  "validate_execution_graph g =
    (if is_blank (g_objective g) then Err EmptyObjective
     else and_then (try_fold check_node [] (g_nodes g)) (\<lambda>ids.
       and_then (try_fold (check_edge ids) (zero_indegree ids, []) (dependency_edges g))
         (\<lambda>(indegree, outgoing).
       and_then (try_fold (\<lambda>_. check_work g) () (g_nodes g)) (\<lambda>_.
       and_then (batch_loop outgoing indegree (initial_frontier indegree) [] 0)
         (\<lambda>(batches, visited).
           if visited \<noteq> length (g_nodes g) then Err Cycle else Ok batches)))))"

section \<open>What the checks establish\<close>

definition dep_pairs :: "execution_graph \<Rightarrow> dep_pair list" where
  "dep_pairs g = map (\<lambda>e. (e_from e, e_to e)) (dependency_edges g)"

definition node_ids :: "execution_graph \<Rightarrow> rstring set" where
  "node_ids g = n_id ` set (g_nodes g)"

definition node_acceptable :: "execution_node_spec \<Rightarrow> bool" where
  "node_acceptable node =
    (\<not> is_blank (n_payload_ref node) \<and> \<not> is_blank (n_executor_kind node) \<and> n_kind node \<noteq> Timer
     \<and> (case n_work node of
          Some work \<Rightarrow> (\<forall>v\<in>set (w_required_evidence_refs work @ w_input_artifact_refs work
                           @ w_output_artifact_kinds work). \<not> is_blank v)
        | None \<Rightarrow> True))"

definition policy_satisfiable :: "execution_dependency_policy \<Rightarrow> nat \<Rightarrow> bool" where
  "policy_satisfiable policy n = (case policy of
     Any _ \<Rightarrow> 0 < n
   | Quorum minimum _ \<Rightarrow> 0 < minimum \<and> minimum \<le> n
   | EvidenceReady predicate _ \<Rightarrow> 0 < pred_minimum predicate \<and> pred_minimum predicate \<le> n
   | _ \<Rightarrow> True)"

definition graph_acceptable :: "execution_graph \<Rightarrow> bool" where
  "graph_acceptable g \<longleftrightarrow>
     \<not> is_blank (g_objective g) \<and> distinct (map n_id (g_nodes g))
     \<and> (\<forall>node\<in>set (g_nodes g). node_acceptable node)
     \<and> (\<forall>(u, v)\<in>set (dep_pairs g). u \<in> node_ids g \<and> v \<in> node_ids g)
     \<and> (\<forall>node\<in>set (g_nodes g). \<forall>work. n_work node = Some work \<longrightarrow>
          policy_satisfiable (w_dependency work) (predecessor_count g (n_id node))
          \<and> (w_required work \<or> \<not> may_own_effect node work))"

lemma check_node_ok:
  "check_node ids node = Inr ids' \<longleftrightarrow>
     n_id node \<notin> set ids \<and> node_acceptable node \<and> ids' = ss_insert (n_id node) ids"
  by (auto simp: check_node_def node_acceptable_def list_ex_iff split: option.splits)

lemma check_nodes_ok:
  "ss_wf ids0 \<Longrightarrow> (\<exists>ids. try_fold check_node ids0 nodes = Inr ids) \<longleftrightarrow>
     distinct (map n_id nodes) \<and> (\<forall>node\<in>set nodes. node_acceptable node \<and> n_id node \<notin> set ids0)"
proof (induction nodes arbitrary: ids0)
  case (Cons node nodes)
  then show ?case
    by (auto simp: result_simps check_node_ok) (metis image_eqI)
qed simp

lemma check_nodes_ids:
  "ss_wf ids0 \<Longrightarrow> try_fold check_node ids0 nodes = Inr ids \<Longrightarrow>
     ss_wf ids \<and> set ids = set ids0 \<union> n_id ` set nodes"
proof (induction nodes arbitrary: ids0)
  case (Cons node nodes)
  then have "try_fold check_node (ss_insert (n_id node) ids0) nodes = Inr ids"
    by (auto simp: result_simps check_node_ok)
  from Cons.IH [OF _ this] Cons.prems(1) show ?case by auto
qed simp

lemma check_edge_ok:
  "check_edge ids (m, out) e = Inr st \<longleftrightarrow>
     e_from e \<in> set ids \<and> e_to e \<in> set ids \<and> (\<exists>c. sm_get m (e_to e) = Some c)
     \<and> st = (sm_modify (e_to e) Suc m, sm_push (e_from e) (e_to e) out)"
  by (auto simp: check_edge_def split: option.splits)

lemma check_edges_ok:
  assumes "\<forall>i\<in>set ids. sm_get m i \<noteq> None" "sm_wf out"
  shows "(\<exists>st. try_fold (check_edge ids) (m, out) es = Inr st) \<longleftrightarrow>
     (\<forall>e\<in>set es. e_from e \<in> set ids \<and> e_to e \<in> set ids)"
  using assms
proof (induction es arbitrary: m out)
  case (Cons e es)
  show ?case
  proof (cases "e_from e \<in> set ids \<and> e_to e \<in> set ids")
    case True
    then have "check_edge ids (m, out) e =
        Inr (sm_modify (e_to e) Suc m, sm_push (e_from e) (e_to e) out)"
      using Cons.prems by (simp add: check_edge_ok)
    moreover have "\<forall>i\<in>set ids. sm_get (sm_modify (e_to e) Suc m) i \<noteq> None"
      "sm_wf (sm_push (e_from e) (e_to e) out)" using Cons.prems by auto
    ultimately show ?thesis using Cons.IH True by simp
  next
    case False
    then show ?thesis by (auto simp: result_simps check_edge_ok)
  qed
qed simp

lemma check_edges_state:
  assumes "try_fold (check_edge ids) (m, out) es = Inr (m', out')" "sm_wf out"
  shows "sm_wf out' \<and> map fst m' = map fst m
    \<and> (\<forall>v. sm_get m' v = map_option (\<lambda>c. c + length (filter (\<lambda>e. e_to e = v) es)) (sm_get m v))
    \<and> (\<forall>x. targets out' x = targets out x @ map e_to (filter (\<lambda>e. e_from e = x) es))"
  using assms
proof (induction es arbitrary: m out)
  case Nil
  then show ?case by (simp add: option.map_ident)
next
  case (Cons e es)
  from Cons.prems(1) have
    "try_fold (check_edge ids) (sm_modify (e_to e) Suc m, sm_push (e_from e) (e_to e) out) es
       = Inr (m', out')"
    by (auto simp: result_simps check_edge_ok)
  from Cons.IH [OF this] Cons.prems(2) show ?case
    by (auto simp: targets_push option.map_comp comp_def)
qed

lemma check_work_ok:
  "check_work g node = Inr () \<longleftrightarrow> (\<forall>work. n_work node = Some work \<longrightarrow>
     policy_satisfiable (w_dependency work) (predecessor_count g (n_id node))
     \<and> (w_required work \<or> \<not> may_own_effect node work))"
  by (auto simp: check_work_def check_dependency_policy_def policy_satisfiable_def result_simps
      Let_def split: option.splits execution_dependency_policy.splits if_splits)

section \<open>The batch loop\<close>

text \<open>
  The specification of the batches: batch \<open>i\<close> is the sorted list of all nodes outside the earlier
  batches whose predecessors all are in earlier batches, and no batch is empty.
\<close>
definition layers :: "dep_pair list \<Rightarrow> rstring set \<Rightarrow> rstring list list \<Rightarrow> bool" where
  "layers E V bs \<longleftrightarrow> (\<forall>i<length bs. bs ! i \<noteq> [] \<and>
     bs ! i = sorted_list_of_set {v\<in>V. v \<notin> set (concat (take i bs))
                \<and> (\<forall>u. (u, v) \<in> set E \<longrightarrow> u \<in> set (concat (take i bs)))})"

lemma relax_targets_sat:
  assumes "\<forall>v\<in>set ts. \<exists>c. sm_get m v = Some c \<and> count_list ts v \<le> c"
  shows "try_fold relax_target (m, nx) ts = Inr (fold relax_sat ts (m, nx))"
  using assms
proof (induction ts arbitrary: m nx)
  case (Cons t ts)
  obtain c where c: "sm_get m t = Some c" "Suc (count_list ts t) \<le> c" using Cons.prems by force
  have pre: "\<forall>v\<in>set ts. \<exists>c. sm_get (sm_modify t (\<lambda>n. n - 1) m) v = Some c \<and> count_list ts v \<le> c"
  proof
    fix v assume v: "v \<in> set ts"
    show "\<exists>c. sm_get (sm_modify t (\<lambda>n. n - 1) m) v = Some c \<and> count_list ts v \<le> c"
      using c Cons.prems v by (cases "v = t") auto
  qed
  show ?case using c Cons.IH [OF pre] by (simp add: relax_target_def relax_sat_known)
qed simp

lemma relax_batch_sat:
  assumes "kahn_inv E V D m (B @ A)" "\<forall>(u, v)\<in>set E. u \<in> V \<and> v \<in> V"
    and "\<And>x. targets outgoing x = succs E x"
  shows "try_fold (relax_node outgoing) (m, A) B = Inr (fold (\<lambda>x. fold relax_sat (succs E x)) B (m, A))"
  using assms(1)
proof (induction B arbitrary: D m A)
  case (Cons x B)
  obtain m1 z1 where 1: "fold relax_sat (succs E x) (m, A) = (m1, A @ z1)"
    "kahn_inv E V (insert x D) m1 (remove1 x ((x # B) @ A) @ z1)"
    "\<forall>t\<in>set (succs E x). \<exists>c. sm_get m t = Some c \<and> count_list (succs E x) t \<le> c"
    using kahn_relax [OF Cons.prems assms(2), where x = x and nx = A]
    by (metis append_Cons list.set_intros(1))
  have "kahn_inv E V (insert x D) m1 (B @ (A @ z1))" using 1(2) by simp
  from Cons.IH [OF this] show ?case
    using relax_targets_sat [OF 1(3), of A] by (simp add: relax_node_def assms(3) 1(1))
qed simp

lemma layers_snoc:
  assumes "layers E V bs" "kahn_inv E V (set (concat bs)) m f" "f \<noteq> []"
  shows "layers E V (bs @ [sort f])"
proof -
  have f: "distinct f" "set f = {v\<in>V. v \<notin> set (concat bs) \<and> pend E (set (concat bs)) v = 0}"
    using assms(2) by (auto simp: kahn_inv_def)
  have "sort f = sorted_list_of_set (set f)"
    using f(1) by (simp add: sorted_list_of_set_sort_remdups distinct_remdups_id)
  then have "sort f = sorted_list_of_set {v\<in>V. v \<notin> set (concat bs)
      \<and> (\<forall>u. (u, v) \<in> set E \<longrightarrow> u \<in> set (concat bs))}"
    using f(2) by (simp add: pend_eq_0)
  moreover have "sort f \<noteq> []" using assms(3) by (metis length_sort length_0_conv)
  ultimately show ?thesis
    using assms(1) by (auto simp: layers_def nth_append less_Suc_eq)
qed

lemma batch_loop_correct:
  assumes "kahn_inv E V (set (concat bs)) m f" "\<forall>(u, v)\<in>set E. u \<in> V \<and> v \<in> V"
    and "\<And>x. targets outgoing x = succs E x"
    and "layers E V bs" "distinct (concat bs)" "visited = length (concat bs)"
  shows "\<exists>bs' m'. batch_loop outgoing m f bs visited = Inr (bs', length (concat bs'))
    \<and> layers E V bs' \<and> distinct (concat bs') \<and> kahn_inv E V (set (concat bs')) m' []"
  using assms
proof (induction outgoing m f bs visited rule: batch_loop.induct)
  case (1 outgoing m f bs visited)
  show ?case
  proof (cases "f = []")
    case True
    then show ?thesis using "1.prems" by (subst batch_loop.simps) auto
  next
    case False
    have inv: "kahn_inv E V (set (concat bs)) m (sort f @ [])"
      using "1.prems"(1) by (auto intro: kahn_inv_perm)
    obtain m' zs where step:
      "fold (\<lambda>x. fold relax_sat (succs E x)) (sort f) (m, []) = (m', [] @ zs)"
      "kahn_inv E V (set (concat bs) \<union> set (sort f)) m' ([] @ zs)"
      by (rule kahn_batch [OF inv "1.prems"(2)])
    have relax: "try_fold (relax_node outgoing) (m, []) (sort f) = Inr (m', zs)"
      using relax_batch_sat [OF inv "1.prems"(2,3)] step(1) by simp
    have inv': "kahn_inv E V (set (concat (bs @ [sort f]))) m' zs"
      using step(2) by (simp add: Un_commute)
    have dist: "distinct (concat (bs @ [sort f]))"
      using "1.prems"(1,5) by (auto simp: kahn_inv_def)
    from "1.IH" [OF False refl relax refl inv' "1.prems"(2,3)
        layers_snoc [OF "1.prems"(4,1) False] dist] "1.prems"(6)
    show ?thesis using False relax by (subst batch_loop.simps) simp
  qed
qed

lemma layers_edge:
  assumes "layers E V bs" "finite V" "i < length bs" "v \<in> set (bs ! i)" "(u, v) \<in> set E"
  shows "u \<in> set (concat (take i bs))"
proof -
  have "v \<in> {v\<in>V. v \<notin> set (concat (take i bs)) \<and> (\<forall>u. (u, v) \<in> set E \<longrightarrow> u \<in> set (concat (take i bs)))}"
    using assms(1-4) by (auto simp: layers_def)
  then show ?thesis using assms(5) by blast
qed

lemma layers_mem:
  assumes "layers E V bs" "finite V" "i < length bs"
  shows "set (bs ! i) \<subseteq> V"
  using assms by (auto simp: layers_def)

lemma layers_acyclic:
  assumes "layers E V bs" "finite V" "set (concat bs) = V" "\<forall>(u, v)\<in>set E. u \<in> V \<and> v \<in> V"
  shows "acyclic (set E)"
proof -
  define idx where "idx v = (LEAST i. i < length bs \<and> v \<in> set (bs ! i))" for v
  have least: "idx v < length bs \<and> v \<in> set (bs ! idx v)" if "v \<in> V" for v
  proof -
    have "\<exists>i. i < length bs \<and> v \<in> set (bs ! i)"
      using that assms(3) by (metis (no_types, lifting) UN_E in_set_conv_nth set_concat)
    then show ?thesis unfolding idx_def by (rule LeastI_ex)
  qed
  have "idx u < idx v" if e: "(u, v) \<in> set E" for u v
  proof -
    have v: "idx v < length bs" "v \<in> set (bs ! idx v)" using least e assms(4) by auto
    obtain b where b: "b \<in> set (take (idx v) bs)" "u \<in> set b"
      using layers_edge [OF assms(1,2) v e] by auto
    obtain j where "j < idx v" "bs ! j = b" using b(1) v(1) by (auto simp: in_set_conv_nth)
    with b(2) have j: "j < idx v" "u \<in> set (bs ! j)" by auto
    have "idx u \<le> j" unfolding idx_def using j v(1) by (intro Least_le) simp
    then show ?thesis using j(1) by simp
  qed
  then have "set E \<subseteq> measure idx" by auto
  then show ?thesis using wf_measure wf_subset wf_acyclic by blast
qed

section \<open>Acceptance\<close>

lemma dep_pairs_ids:
  "(\<forall>e\<in>set (dependency_edges g). e_from e \<in> X \<and> e_to e \<in> X)
   \<longleftrightarrow> (\<forall>(u, v)\<in>set (dep_pairs g). u \<in> X \<and> v \<in> X)"
  by (auto simp: dep_pairs_def)

lemma check_work_err: "check_work g node = Inl e \<Longrightarrow> e \<noteq> Cycle \<and> e \<noteq> CountUnderflow"
  by (cases "n_work node")
    (auto simp: check_work_def check_dependency_policy_def Let_def result_simps
      split: execution_dependency_policy.splits if_splits)

lemma check_node_err: "check_node ids node = Inl e \<Longrightarrow> e \<noteq> Cycle \<and> e \<noteq> CountUnderflow"
  by (auto simp: check_node_def split: if_splits)

lemma check_edge_err: "check_edge ids st e = Inl err \<Longrightarrow> err \<noteq> Cycle \<and> err \<noteq> CountUnderflow"
  by (cases st) (auto simp: check_edge_def split: if_splits option.splits)

lemma validate_rejected:
  assumes "\<not> graph_acceptable g"
  shows "\<exists>e. validate_execution_graph g = Inl e \<and> e \<noteq> Cycle \<and> e \<noteq> CountUnderflow"
proof (cases "is_blank (g_objective g)")
  case True
  then show ?thesis by (simp add: validate_execution_graph_def)
next
  case obj: False
  show ?thesis
  proof (cases "try_fold check_node [] (g_nodes g)")
    case (Inl e)
    then have "e \<noteq> Cycle \<and> e \<noteq> CountUnderflow"
      using try_fold_err check_node_err by metis
    then show ?thesis using Inl obj by (simp add: validate_execution_graph_def)
  next
    case ids: (Inr ids)
    then have nodes: "distinct (map n_id (g_nodes g)) \<and> (\<forall>node\<in>set (g_nodes g). node_acceptable node)"
      "set ids = node_ids g"
      using check_nodes_ok [of "[]" "g_nodes g"] check_nodes_ids [of "[]" "g_nodes g" ids]
      by (auto simp: node_ids_def)
    show ?thesis
    proof (cases "try_fold (check_edge ids) (zero_indegree ids, []) (dependency_edges g)")
      case (Inl e)
      then have "e \<noteq> Cycle \<and> e \<noteq> CountUnderflow"
        using try_fold_err check_edge_err by metis
      then show ?thesis using Inl obj ids by (simp add: validate_execution_graph_def)
    next
      case edges: (Inr st)
      then have "\<forall>(u, v)\<in>set (dep_pairs g). u \<in> node_ids g \<and> v \<in> node_ids g"
        using check_edges_ok [of ids "zero_indegree ids" "[]" "dependency_edges g"] nodes(2)
        by (auto simp: sm_get_zero_indegree dep_pairs_ids [symmetric])
      then have "\<not> (\<forall>node\<in>set (g_nodes g). check_work g node = Inr ())"
        using assms obj nodes by (auto simp: graph_acceptable_def check_work_ok)
      then obtain e where e: "try_fold (\<lambda>_. check_work g) () (g_nodes g) = Inl e"
        by (cases "try_fold (\<lambda>_. check_work g) () (g_nodes g)") (auto simp: try_fold_unit)
      then have "e \<noteq> Cycle \<and> e \<noteq> CountUnderflow"
        using try_fold_err check_work_err by metis
      then show ?thesis using e obj ids edges
        by (cases st) (simp add: validate_execution_graph_def)
    qed
  qed
qed

lemma validate_accepted:
  assumes "graph_acceptable g"
  shows "\<exists>bs m. layers (dep_pairs g) (node_ids g) bs \<and> distinct (concat bs)
    \<and> kahn_inv (dep_pairs g) (node_ids g) (set (concat bs)) m []
    \<and> validate_execution_graph g =
        (if length (concat bs) \<noteq> length (g_nodes g) then Inl Cycle else Inr bs)"
proof -
  let ?E = "dep_pairs g" and ?V = "node_ids g"
  have acc: "\<not> is_blank (g_objective g)" "distinct (map n_id (g_nodes g))"
    "\<forall>node\<in>set (g_nodes g). node_acceptable node" "\<forall>(u, v)\<in>set ?E. u \<in> ?V \<and> v \<in> ?V"
    "\<forall>node\<in>set (g_nodes g). check_work g node = Inr ()"
    using assms by (auto simp: graph_acceptable_def check_work_ok)
  obtain ids where ids: "try_fold check_node [] (g_nodes g) = Inr ids"
    using check_nodes_ok [of "[]" "g_nodes g"] acc(2,3) by auto
  have V: "ss_wf ids" "set ids = ?V"
    using check_nodes_ids [OF _ ids] by (auto simp: node_ids_def)
  obtain m out where st:
    "try_fold (check_edge ids) (zero_indegree ids, []) (dependency_edges g) = Inr (m, out)"
    using check_edges_ok [of ids "zero_indegree ids" "[]" "dependency_edges g"] acc(4) V(2)
    by (auto simp: sm_get_zero_indegree dep_pairs_ids)
  note state = check_edges_state [OF st sm_wf_Nil]
  have wf: "sm_wf m" using state sm_wf_zero_indegree [OF V(1)] by (simp add: sm_wf_def)
  have get: "sm_get m v = (if v \<in> ?V then Some (pend ?E {} v) else None)" for v
    using state V(2)
    by (simp add: sm_get_zero_indegree pend_def dep_pairs_def filter_map comp_def)
  have out: "targets out x = succs ?E x" for x
    using state by (simp add: succs_def dep_pairs_def filter_map comp_def)
  have inv: "kahn_inv ?E ?V (set (concat [])) m (initial_frontier m)"
    using wf get strict_sorted_iff [of "initial_frontier m"] sorted_initial_frontier [OF wf]
    by (auto simp: kahn_inv_def set_initial_frontier)
  from batch_loop_correct [OF inv acc(4) out, of 0] obtain bs m' where
    "batch_loop out m (initial_frontier m) [] 0 = Inr (bs, length (concat bs))"
    "layers ?E ?V bs" "distinct (concat bs)" "kahn_inv ?E ?V (set (concat bs)) m' []"
    by (auto simp: layers_def)
  then show ?thesis
    using acc(1) ids st acc(5) try_fold_unit [of "check_work g" "g_nodes g" "()"]
    by (intro exI [of _ bs] exI [of _ m']) (simp add: validate_execution_graph_def)
qed

lemma acceptable_length:
  "graph_acceptable g \<Longrightarrow> length (g_nodes g) = card (node_ids g)"
  by (metis distinct_card graph_acceptable_def length_map list.set_map node_ids_def)

lemma finite_node_ids [simp]: "finite (node_ids g)"
  by (simp add: node_ids_def)

lemma validate_complete:
  assumes "graph_acceptable g" "acyclic (set (dep_pairs g))"
  shows "\<exists>bs. validate_execution_graph g = Inr bs"
proof -
  obtain bs m where bs: "distinct (concat bs)"
    "kahn_inv (dep_pairs g) (node_ids g) (set (concat bs)) m []"
    "validate_execution_graph g =
       (if length (concat bs) \<noteq> length (g_nodes g) then Inl Cycle else Inr bs)"
    using validate_accepted [OF assms(1)] by blast
  have "set (concat bs) = node_ids g"
    using kahn_finished [OF bs(2) _ _ assms(2)] assms(1) by (simp add: graph_acceptable_def)
  then have "length (concat bs) = length (g_nodes g)"
    using acceptable_length [OF assms(1)] distinct_card [OF bs(1)] by simp
  then show ?thesis using bs(3) by simp
qed

lemma validate_sound:
  assumes "validate_execution_graph g = Inr bs"
  shows "graph_acceptable g" "layers (dep_pairs g) (node_ids g) bs" "distinct (concat bs)"
    "set (concat bs) = node_ids g" "acyclic (set (dep_pairs g))"
proof -
  show acc: "graph_acceptable g" using validate_rejected [of g] assms by auto
  obtain bs' m where bs': "layers (dep_pairs g) (node_ids g) bs'" "distinct (concat bs')"
    "kahn_inv (dep_pairs g) (node_ids g) (set (concat bs')) m []"
    "validate_execution_graph g =
       (if length (concat bs') \<noteq> length (g_nodes g) then Inl Cycle else Inr bs')"
    using validate_accepted [OF acc] by blast
  have eq: "bs' = bs" "length (concat bs') = length (g_nodes g)"
    using bs'(4) assms by (auto split: if_splits)
  show "layers (dep_pairs g) (node_ids g) bs" "distinct (concat bs)" using bs' eq by auto
  have "set (concat bs) \<subseteq> node_ids g" using bs'(3) eq by (simp add: kahn_inv_def)
  then show all: "set (concat bs) = node_ids g"
    using acceptable_length [OF acc] distinct_card [OF bs'(2)] eq
    by (metis card_subset_eq finite_node_ids)
  show "acyclic (set (dep_pairs g))"
    using layers_acyclic [OF _ finite_node_ids all] bs'(1) eq acc by (simp add: graph_acceptable_def)
qed

section \<open>Properties\<close>

text \<open>
  C2: Validation accepts exactly the graphs that satisfy every check on nodes, edges, dependency
  policies and optional effect owners and whose dependency edges are acyclic.
\<close>
theorem validate_execution_graph_accepts_iff:
  "(\<exists>bs. validate_execution_graph g = Inr bs) \<longleftrightarrow>
     graph_acceptable g \<and> acyclic (set (dep_pairs g))"
  using validate_complete validate_sound(1,5) by blast

text \<open>
  C14: The batches of an accepted graph partition its nodes, no batch is empty, and batch \<open>i\<close> is
  the sorted list of exactly those nodes outside the earlier batches all of whose dependency
  predecessors are in earlier batches.
\<close>
theorem validate_execution_graph_batches:
  assumes "validate_execution_graph g = Inr bs"
  shows "distinct (concat bs) \<and> set (concat bs) = node_ids g \<and> layers (dep_pairs g) (node_ids g) bs"
  using validate_sound(2-4) [OF assms] by simp

text \<open>
  C33: \<open>Cycle\<close> is reported exactly when all other checks pass and the dependency edges are cyclic;
  the in-degree counter never underflows.
\<close>
theorem validate_execution_graph_cycle_iff:
  "(validate_execution_graph g = Inl Cycle \<longleftrightarrow>
      graph_acceptable g \<and> \<not> acyclic (set (dep_pairs g)))
   \<and> validate_execution_graph g \<noteq> Inl CountUnderflow"
proof (cases "graph_acceptable g")
  case True
  then show ?thesis
    using validate_accepted [OF True] validate_complete [OF True] validate_sound(5) [of g]
    by (auto split: if_splits)
next
  case False
  then show ?thesis using validate_rejected [OF False] by auto
qed

definition sample_node :: "rstring \<Rightarrow> execution_node_kind \<Rightarrow> execution_node_spec" where
  "sample_node i kind =
    \<lparr> n_id = i, n_kind = kind, n_payload_ref = ''payload'', n_executor_kind = ''runtime'',
      n_idempotency_key = i, n_lease_ref = None, n_acceptance = acceptance_default,
      n_retry_policy = \<lparr> rp_max_attempts = 1, rp_retryable_failure_kinds = [],
        rp_base_backoff_ms = 1, rp_maximum_backoff_ms = 1 \<rparr>,
      n_resource_scopes = [], n_work = None \<rparr>"

definition sample_edge :: "rstring \<Rightarrow> rstring \<Rightarrow> execution_edge" where
  "sample_edge u v = \<lparr> e_from = u, e_to = v, e_kind = DependsOn \<rparr>"

definition sample_diamond :: execution_graph where
  "sample_diamond = (graph_new ''1'' ''answer'') \<lparr>
     g_nodes := [sample_node ''d'' Verify, sample_node ''b'' AgentTask, sample_node ''c'' AgentTask,
                 sample_node ''a'' InlineModel],
     g_edges := [sample_edge ''a'' ''b'', sample_edge ''a'' ''c'', sample_edge ''b'' ''d'',
                 sample_edge ''c'' ''d''] \<rparr>"

lemma validate_sample_diamond:
  "validate_execution_graph sample_diamond = Inr [[''a''], [''b'', ''c''], [''d'']]"
  by code_simp

theorem validate_execution_graph_batches_witness:
  "distinct (concat [[''a''], [''b'', ''c''], [''d'']])
   \<and> set (concat [[''a''], [''b'', ''c''], [''d'']]) = node_ids sample_diamond
   \<and> layers (dep_pairs sample_diamond) (node_ids sample_diamond) [[''a''], [''b'', ''c''], [''d'']]"
  by (rule validate_execution_graph_batches [OF validate_sample_diamond])

end
