(* ===== verification/Work_Projection.thy ===== *)
theory Work_Projection
  imports Validation
begin

text \<open>
  The work graph projection, harness-contract/src/execution_graph/projection.rs from
  \<open>project_work_graph\<close> to \<open>dependency_completion\<close>.  The two loops of \<open>graph_shape\<close> and
  \<open>critical_path\<close> are \<open>while\<close> loops over arbitrary graphs; they are \<open>partial_function\<close>s whose
  value \<open>None\<close> is non-termination, and both are shown to return on every graph, cyclic ones
  included.  A \<open>.sum()\<close> of \<open>u64\<close> values is taken modulo \<open>2^64\<close> (the release profile has no overflow
  checks); the other sums saturate as in the source.
\<close>

record execution_work_graph_projection =
  wg_node_count :: nat
  wg_width :: nat
  wg_depth :: nat
  wg_expected_serial_ms :: nat
  wg_expected_critical_path_ms :: nat
  wg_expected_speedup_basis_points :: "nat option"
  wg_actual_serial_ms :: nat
  wg_actual_critical_path_ms :: nat
  wg_actual_speedup_basis_points :: "nat option"
  wg_input_tokens :: nat
  wg_output_tokens :: nat
  wg_cache_creation_input_tokens :: nat
  wg_cache_read_input_tokens :: nat
  wg_cached_tokens :: nat
  wg_optional_nodes :: nat
  wg_cancelled_optional_nodes :: nat

section \<open>Shape\<close>

definition sm_bump :: "rstring \<Rightarrow> indegree_map \<Rightarrow> indegree_map" where
  "sm_bump k m = sm_insert k ((case sm_get m k of Some c \<Rightarrow> c | None \<Rightarrow> 0) + 1) m"

definition count_edges :: "dep_pair list \<Rightarrow> indegree_map \<Rightarrow> indegree_map" where
  "count_edges deps m = fold (\<lambda>(_, v). sm_bump v) deps m"

definition outgoing_of :: "dep_pair list \<Rightarrow> adjacency_map" where
  "outgoing_of deps = fold (\<lambda>(u, v). sm_push u v) deps []"

definition predecessors_of :: "dep_pair list \<Rightarrow> adjacency_map" where
  "predecessors_of deps = fold (\<lambda>(u, v). sm_push v u) deps []"

partial_function (option) shape_loop ::
  "adjacency_map \<Rightarrow> indegree_map \<Rightarrow> rstring list \<Rightarrow> nat \<Rightarrow> nat \<Rightarrow> (nat \<times> nat) option" where
  "shape_loop outgoing indegree frontier width depth =
    (if frontier = [] then Some (width, depth)
     else (case fold (\<lambda>i. fold relax_sat (targets outgoing i)) frontier (indegree, []) of
       (indegree', frontier') \<Rightarrow>
         shape_loop outgoing indegree' frontier' (max width (length frontier)) (depth + 1)))"

definition graph_shape :: "rstring sset \<Rightarrow> dep_pair list \<Rightarrow> (nat \<times> nat) option" where
  "graph_shape ids deps =
    (let indegree = count_edges deps (zero_indegree ids)
     in shape_loop (outgoing_of deps) indegree (initial_frontier indegree) 0 0)"

section \<open>Critical path\<close>

definition list_get :: "'a list \<Rightarrow> nat \<Rightarrow> 'a option" where
  "list_get xs i = (if i < length xs then Some (xs ! i) else None)"

definition dependency_completion ::
  "execution_dependency_policy \<Rightarrow> nat list \<Rightarrow> nat \<Rightarrow> nat option" where
  "dependency_completion policy pc n =
    (if n = 0 then Some 0
     else case policy of
       All \<Rightarrow> if length pc = n then Some (if pc = [] then 0 else last pc) else None
     | Finally \<Rightarrow> if length pc = n then Some (if pc = [] then 0 else last pc) else None
     | Any _ \<Rightarrow> list_get pc 0
     | Quorum minimum _ \<Rightarrow> list_get pc (minimum - 1)
     | EvidenceReady predicate _ \<Rightarrow> list_get pc (pred_minimum predicate - 1))"

definition option_default :: "'a \<Rightarrow> 'a option \<Rightarrow> 'a" where
  "option_default d x = (case x of Some v \<Rightarrow> v | None \<Rightarrow> d)"

text \<open>The end time of one node from the end times of its predecessors\<close>
definition node_end ::
  "adjacency_map \<Rightarrow> (rstring, nat) smap \<Rightarrow> (rstring, execution_dependency_policy) smap
   \<Rightarrow> (rstring, execution_node_status) smap option \<Rightarrow> (rstring, nat) smap \<Rightarrow> rstring \<Rightarrow> nat" where
  "node_end predecessors weights policies statuses completion i =
    (let pc = sort (List.map_filter (sm_get completion)
                (filter (\<lambda>p. case statuses of None \<Rightarrow> True
                     | Some ss \<Rightarrow> sm_get ss p = Some Completed) (targets predecessors i)));
         prerequisite = dependency_completion (option_default All (sm_get policies i)) pc
                (length (targets predecessors i))
     in sat_add64 (option_default 0 prerequisite) (option_default 0 (sm_get weights i)))"

partial_function (option) critical_loop ::
  "adjacency_map \<Rightarrow> (rstring, nat) smap \<Rightarrow> (rstring, execution_dependency_policy) smap
   \<Rightarrow> (rstring, execution_node_status) smap option \<Rightarrow> adjacency_map
   \<Rightarrow> indegree_map \<Rightarrow> rstring list \<Rightarrow> (rstring, nat) smap \<Rightarrow> (rstring, nat) smap option" where
  "critical_loop predecessors weights policies statuses outgoing indegree frontier completion =
    (if frontier = [] then Some completion
     else let i = last frontier;
              completion' = sm_insert i
                (node_end predecessors weights policies statuses completion i) completion
       in (case fold relax_sat (targets outgoing i) (indegree, butlast frontier) of
         (indegree', frontier') \<Rightarrow>
           critical_loop predecessors weights policies statuses outgoing indegree' frontier'
             completion'))"

definition list_max :: "nat list \<Rightarrow> nat option" where
  "list_max xs = (case xs of [] \<Rightarrow> None | x # ys \<Rightarrow> Some (fold max ys x))"

definition completion_times ::
  "rstring sset \<Rightarrow> dep_pair list \<Rightarrow> (rstring, nat) smap
   \<Rightarrow> (rstring, execution_dependency_policy) smap
   \<Rightarrow> (rstring, execution_node_status) smap option \<Rightarrow> (rstring, nat) smap option" where
  "completion_times ids deps weights policies statuses =
    (let indegree = count_edges deps (zero_indegree ids)
     in critical_loop (predecessors_of deps) weights policies statuses (outgoing_of deps) indegree
          (initial_frontier indegree) [])"

definition critical_path ::
  "rstring sset \<Rightarrow> rstring sset \<Rightarrow> dep_pair list \<Rightarrow> (rstring, nat) smap
   \<Rightarrow> (rstring, execution_dependency_policy) smap
   \<Rightarrow> (rstring, execution_node_status) smap option \<Rightarrow> nat option" where
  "critical_path ids required deps weights policies statuses =
    map_option (\<lambda>completion.
       (case list_max (List.map_filter (sm_get completion) required) of
          Some m \<Rightarrow> m
        | None \<Rightarrow> option_default 0 (list_max (sm_values completion))))
      (completion_times ids deps weights policies statuses)"

section \<open>The projection\<close>

definition speedup_basis_points :: "nat \<Rightarrow> nat \<Rightarrow> nat option" where
  "speedup_basis_points serial_ms critical_path_ms =
    (if critical_path_ms > 0
     then Some (min (sat_mul64 serial_ms 10000 div critical_path_ms) u32_max) else None)"

definition work_nodes :: "execution_graph \<Rightarrow> execution_node_spec list" where
  "work_nodes g = filter (\<lambda>n. n_work n \<noteq> None) (g_nodes g)"

definition work_ids :: "execution_graph \<Rightarrow> rstring sset" where
  "work_ids g = ss_of_list (map n_id (work_nodes g))"

definition work_dependencies :: "execution_graph \<Rightarrow> dep_pair list" where
  "work_dependencies g =
    map (\<lambda>e. (e_from e, e_to e))
      (filter (\<lambda>e. is_dependency (e_kind e) \<and> e_from e \<in> set (work_ids g)
                 \<and> e_to e \<in> set (work_ids g)) (g_edges g))"

definition expected_weights :: "execution_graph \<Rightarrow> (rstring, nat) smap" where
  "expected_weights g = sm_of_list (map (\<lambda>n. (n_id n,
     case n_work n of Some w \<Rightarrow> w_expected_duration_ms w | None \<Rightarrow> 0)) (work_nodes g))"

definition actual_weights :: "execution_graph \<Rightarrow> (rstring, nat) smap" where
  "actual_weights g = sm_of_list (map (\<lambda>n. (n_id n,
     case sm_get (g_node_results g) (n_id n) of Some r \<Rightarrow> u_duration_ms (r_usage r) | None \<Rightarrow> 0))
     (work_nodes g))"

definition work_policies :: "execution_graph \<Rightarrow> (rstring, execution_dependency_policy) smap" where
  "work_policies g = sm_of_list (map (\<lambda>n. (n_id n,
     case n_work n of Some w \<Rightarrow> w_dependency w | None \<Rightarrow> All)) (work_nodes g))"

definition required_ids :: "execution_graph \<Rightarrow> rstring sset" where
  "required_ids g = ss_of_list (map n_id (filter (\<lambda>n. case n_work n of
     Some w \<Rightarrow> w_required w | None \<Rightarrow> True) (work_nodes g)))"

definition serial_sum :: "(rstring, nat) smap \<Rightarrow> nat" where
  "serial_sum weights = fold (\<lambda>w acc. wrap64 (acc + w)) (sm_values weights) 0"

definition add_usage :: "execution_node_result \<Rightarrow> execution_usage \<Rightarrow> execution_usage" where
  "add_usage r acc = acc \<lparr>
     u_input_tokens := sat_add64 (u_input_tokens acc) (u_input_tokens (r_usage r)),
     u_output_tokens := sat_add64 (u_output_tokens acc) (u_output_tokens (r_usage r)),
     u_cached_tokens := sat_add64 (u_cached_tokens acc) (u_cached_tokens (r_usage r)),
     u_cache_creation_input_tokens :=
       sat_add64 (u_cache_creation_input_tokens acc) (u_cache_creation_input_tokens (r_usage r)),
     u_cache_read_input_tokens :=
       sat_add64 (u_cache_read_input_tokens acc) (u_cache_read_input_tokens (r_usage r)) \<rparr>"

definition total_usage :: "execution_graph \<Rightarrow> execution_usage" where
  "total_usage g = fold add_usage
     (List.map_filter (\<lambda>n. sm_get (g_node_results g) (n_id n)) (work_nodes g)) usage_default"

definition is_optional_work :: "execution_node_spec \<Rightarrow> bool" where
  "is_optional_work n = (case n_work n of Some w \<Rightarrow> \<not> w_required w | None \<Rightarrow> False)"

text \<open>
  The outer \<open>option\<close> is non-termination of the loops, the inner one the \<open>Option\<close> of the source.
\<close>
definition project_work_graph ::
  "execution_graph \<Rightarrow> execution_work_graph_projection option option" where
  "project_work_graph g =
    (if work_nodes g = [] then Some None
     else case graph_shape (work_ids g) (work_dependencies g) of
       None \<Rightarrow> None
     | Some (width, depth) \<Rightarrow>
     (case critical_path (work_ids g) (required_ids g) (work_dependencies g)
             (expected_weights g) (work_policies g) None of
       None \<Rightarrow> None
     | Some expected_cp \<Rightarrow>
     (case critical_path (work_ids g) (required_ids g) (work_dependencies g)
             (actual_weights g) (work_policies g) (Some (g_node_statuses g)) of
       None \<Rightarrow> None
     | Some actual_cp \<Rightarrow>
       (let expected_serial = serial_sum (expected_weights g);
            actual_serial = serial_sum (actual_weights g);
            usage = total_usage g
        in Some (Some
          \<lparr> wg_node_count = length (work_nodes g), wg_width = width, wg_depth = depth,
            wg_expected_serial_ms = expected_serial,
            wg_expected_critical_path_ms = expected_cp,
            wg_expected_speedup_basis_points = speedup_basis_points expected_serial expected_cp,
            wg_actual_serial_ms = actual_serial,
            wg_actual_critical_path_ms = actual_cp,
            wg_actual_speedup_basis_points = speedup_basis_points actual_serial actual_cp,
            wg_input_tokens = u_input_tokens usage,
            wg_output_tokens = u_output_tokens usage,
            wg_cache_creation_input_tokens = u_cache_creation_input_tokens usage,
            wg_cache_read_input_tokens = u_cache_read_input_tokens usage,
            wg_cached_tokens = u_cached_tokens usage,
            wg_optional_nodes = length (filter is_optional_work (work_nodes g)),
            wg_cancelled_optional_nodes = length (filter (\<lambda>n. is_optional_work n
               \<and> sm_get (g_node_statuses g) (n_id n) = Some Cancelled) (work_nodes g)) \<rparr>)))))"

section \<open>The maps of the loops\<close>

lemma sm_bump_get:
  "sm_wf m \<Longrightarrow> sm_get (sm_bump k m) v =
     (if v = k then Some (Suc (option_default 0 (sm_get m k))) else sm_get m v)"
  by (simp add: sm_bump_def option_default_def split: option.splits)

lemma count_edges_wf [simp, intro]: "sm_wf m \<Longrightarrow> sm_wf (count_edges deps m)"
  unfolding count_edges_def by (induction deps arbitrary: m) (auto simp: sm_bump_def)

lemma count_edges_get:
  "sm_wf m \<Longrightarrow> sm_get m v = Some c \<Longrightarrow>
     sm_get (count_edges deps m) v = Some (c + length (filter (\<lambda>p. snd p = v) deps))"
  unfolding count_edges_def
proof (induction deps arbitrary: m c)
  case (Cons p deps)
  have "sm_wf (sm_bump (snd p) m)" using Cons.prems(1) by (simp add: sm_bump_def)
  then show ?case using Cons by (auto simp: case_prod_beta sm_bump_get option_default_def)
qed simp

lemma count_edges_None:
  "sm_wf m \<Longrightarrow> sm_get m v = None \<Longrightarrow> v \<notin> snd ` set deps \<Longrightarrow> sm_get (count_edges deps m) v = None"
  unfolding count_edges_def
proof (induction deps arbitrary: m)
  case (Cons p deps)
  have "sm_wf (sm_bump (snd p) m)" using Cons.prems(1) by (simp add: sm_bump_def)
  then show ?case using Cons by (auto simp: case_prod_beta sm_bump_get)
qed simp

lemma fold_push_targets:
  "sm_wf m \<Longrightarrow> sm_wf (fold (\<lambda>p. sm_push (f p) (h p)) deps m)
     \<and> targets (fold (\<lambda>p. sm_push (f p) (h p)) deps m) x =
         targets m x @ map h (filter (\<lambda>p. f p = x) deps)"
  by (induction deps arbitrary: m) (auto simp: targets_push)

lemma outgoing_of_targets: "targets (outgoing_of deps) x = succs deps x"
  using fold_push_targets [of "[]" fst snd deps x]
  by (simp add: outgoing_of_def case_prod_unfold succs_def)

definition preds :: "dep_pair list \<Rightarrow> rstring \<Rightarrow> rstring list" where
  "preds E x = map fst (filter (\<lambda>p. snd p = x) E)"

lemma predecessors_of_targets: "targets (predecessors_of deps) x = preds deps x"
  using fold_push_targets [of "[]" snd fst deps x]
  by (simp add: predecessors_of_def case_prod_unfold preds_def)

lemma set_preds: "set (preds E v) = {u. (u, v) \<in> set E}"
  by (force simp: preds_def)

lemma loop_start:
  assumes "ss_wf ids" "\<forall>(u, v)\<in>set deps. u \<in> set ids \<and> v \<in> set ids"
  defines "m \<equiv> count_edges deps (zero_indegree ids)"
  shows "kahn_inv deps (set ids) {} m (initial_frontier m)"
proof -
  have wf: "sm_wf m" using assms(1) by (auto simp: m_def sm_wf_zero_indegree)
  have get: "sm_get m v = (if v \<in> set ids then Some (pend deps {} v) else None)" for v
  proof (cases "v \<in> set ids")
    case True
    then show ?thesis using sm_wf_zero_indegree [OF assms(1)]
      by (simp add: m_def count_edges_get [where c = 0] sm_get_zero_indegree pend_def)
  next
    case False
    then have "v \<notin> snd ` set deps" using assms(2) by auto
    then show ?thesis using False sm_wf_zero_indegree [OF assms(1)]
      by (simp add: m_def count_edges_None sm_get_zero_indegree)
  qed
  show ?thesis
    using wf get sorted_initial_frontier [OF wf] strict_sorted_iff [of "initial_frontier m"]
    by (auto simp: kahn_inv_def set_initial_frontier)
qed

section \<open>Shape\<close>

definition max_length :: "'a list list \<Rightarrow> nat" where
  "max_length bs = foldr max (map length bs) 0"

lemma max_length_snoc: "max_length (bs @ [b]) = max (max_length bs) (length b)"
  unfolding max_length_def by (induction bs) (auto simp: max.assoc)

lemma shape_loop_returns:
  assumes "kahn_inv E V (set (concat bs)) m f" "\<forall>(u, v)\<in>set E. u \<in> V \<and> v \<in> V" "finite V"
    and "\<And>x. targets outgoing x = succs E x" "layers E V bs"
  shows "\<exists>bs' m'. shape_loop outgoing m f (max_length bs) (length bs) =
      Some (max_length bs', length bs') \<and> layers E V bs'
      \<and> kahn_inv E V (set (concat bs')) m' []"
  using assms
proof (induction "card (V - set (concat bs))" arbitrary: bs m f rule: less_induct)
  case less
  show ?case
  proof (cases "f = []")
    case True
    then show ?thesis using less.prems by (subst shape_loop.simps) auto
  next
    case False
    have inv: "kahn_inv E V (set (concat bs)) m (f @ [])" using less.prems(1) by simp
    obtain m' zs where step:
      "fold (\<lambda>x. fold relax_sat (succs E x)) f (m, []) = (m', [] @ zs)"
      "kahn_inv E V (set (concat bs) \<union> set f) m' ([] @ zs)"
      by (rule kahn_batch [OF inv less.prems(2)])
    have sub: "set f \<subseteq> V - set (concat bs)" using less.prems(1) by (auto simp: kahn_inv_def)
    have "card (V - set (concat (bs @ [sort f]))) < card (V - set (concat bs))"
      using sub False less.prems(3) by (intro psubset_card_mono) (auto simp: neq_Nil_conv)
    moreover have "kahn_inv E V (set (concat (bs @ [sort f]))) m' zs"
      using step(2) by (simp add: Un_commute)
    ultimately obtain bs' m'' where
      "shape_loop outgoing m' zs (max_length (bs @ [sort f])) (length (bs @ [sort f])) =
         Some (max_length bs', length bs')" "layers E V bs'" "kahn_inv E V (set (concat bs')) m'' []"
      using less.hyps less.prems(2-4) layers_snoc [OF less.prems(5,1) False] by blast
    then show ?thesis using False step(1) less.prems(4)
      by (subst shape_loop.simps) (auto simp: max_length_snoc)
  qed
qed

lemma graph_shape_returns:
  assumes "ss_wf ids" "\<forall>(u, v)\<in>set deps. u \<in> set ids \<and> v \<in> set ids"
  shows "\<exists>bs m. graph_shape ids deps = Some (max_length bs, length bs)
    \<and> layers deps (set ids) bs \<and> kahn_inv deps (set ids) (set (concat bs)) m []"
proof -
  let ?m = "count_edges deps (zero_indegree ids)"
  have inv: "kahn_inv deps (set ids) (set (concat [])) ?m (initial_frontier ?m)"
    using loop_start [OF assms] by simp
  show ?thesis
    using shape_loop_returns [OF inv assms(2) _ outgoing_of_targets]
    by (simp add: graph_shape_def Let_def max_length_def layers_def)
qed

definition layer_after :: "dep_pair list \<Rightarrow> rstring set \<Rightarrow> rstring list list \<Rightarrow> rstring set" where
  "layer_after E V bs =
     {v\<in>V. v \<notin> set (concat bs) \<and> (\<forall>u. (u, v) \<in> set E \<longrightarrow> u \<in> set (concat bs))}"

lemma layers_nth:
  "layers E V bs \<Longrightarrow> i < length bs \<Longrightarrow>
     bs ! i = sorted_list_of_set (layer_after E V (take i bs)) \<and> bs ! i \<noteq> []"
  unfolding layers_def layer_after_def by blast

lemma layers_prefix_unique:
  assumes "layers E V bs" "layers E V bs'" "i \<le> length bs" "i \<le> length bs'"
  shows "take i bs = take i bs'"
  using assms(3,4)
proof (induction i)
  case (Suc i)
  then have eq: "take i bs = take i bs'" by simp
  have "bs ! i = bs' ! i"
    using layers_nth [OF assms(1), of i] layers_nth [OF assms(2), of i] Suc.prems eq by simp
  then show ?case using eq Suc.prems by (simp add: take_Suc_conv_app_nth)
qed simp

lemma layers_maximal_length:
  assumes "layers E V bs" "kahn_inv E V (set (concat bs)) m []" "layers E V bs'"
  shows "length bs' \<le> length bs"
proof (rule ccontr)
  assume "\<not> length bs' \<le> length bs"
  then have lt: "length bs < length bs'" by simp
  have eq: "take (length bs) bs' = bs"
    using layers_prefix_unique [OF assms(3,1), of "length bs"] lt by simp
  have "layer_after E V bs = {}"
    using assms(2) by (auto simp: layer_after_def kahn_inv_def pend_eq_0)
  then show False using layers_nth [OF assms(3) lt] eq by simp
qed

lemma layers_unique:
  assumes "layers E V bs" "kahn_inv E V (set (concat bs)) m []"
    and "layers E V bs'" "kahn_inv E V (set (concat bs')) m' []"
  shows "bs = bs'"
  using layers_maximal_length [OF assms(1,2,3)] layers_maximal_length [OF assms(3,4,1)]
    layers_prefix_unique [OF assms(1,3), of "length bs"] by simp

section \<open>Critical path\<close>

text \<open>One end time per visited node, each the value of the recurrence \<open>node_end\<close>\<close>
definition completion_ok ::
  "dep_pair list \<Rightarrow> (rstring, nat) smap \<Rightarrow> (rstring, execution_dependency_policy) smap
   \<Rightarrow> (rstring, execution_node_status) smap option \<Rightarrow> rstring set \<Rightarrow> (rstring, nat) smap \<Rightarrow> bool" where
  "completion_ok E W P S D c \<longleftrightarrow> sm_wf c \<and> (\<forall>v. sm_get c v =
     (if v \<in> D then Some (node_end (predecessors_of E) W P S c v) else None))"

definition weight :: "(rstring, nat) smap \<Rightarrow> rstring \<Rightarrow> nat" where
  "weight W v = option_default 0 (sm_get W v)"

lemma map_filter_cong: "(\<And>x. x \<in> set xs \<Longrightarrow> f x = h x) \<Longrightarrow> List.map_filter f xs = List.map_filter h xs"
  by (induction xs) (auto simp: List.map_filter_simps split: option.splits)

lemma set_map_filter: "set (List.map_filter f xs) = {y. \<exists>x\<in>set xs. f x = Some y}"
  by (force simp: List.map_filter_def)

lemma node_end_cong:
  assumes "\<And>p. (p, i) \<in> set E \<Longrightarrow> sm_get c p = sm_get c' p"
  shows "node_end (predecessors_of E) W P S c i = node_end (predecessors_of E) W P S c' i"
proof -
  have "List.map_filter (sm_get c) (filter Q (preds E i)) = List.map_filter (sm_get c') (filter Q (preds E i))" for Q
    using assms by (intro map_filter_cong) (auto simp: set_preds)
  then show ?thesis by (simp add: node_end_def predecessors_of_targets Let_def)
qed

lemma dependency_completion_mem:
  "dependency_completion policy pc n = Some x \<Longrightarrow> x = 0 \<or> x \<in> set pc"
  by (auto simp: dependency_completion_def list_get_def split: if_splits execution_dependency_policy.splits)

lemma node_end_le:
  assumes "\<And>p x. (p, i) \<in> set E \<Longrightarrow> sm_get c p = Some x \<Longrightarrow> x \<le> b"
  shows "node_end (predecessors_of E) W P S c i \<le> b + weight W i"
proof -
  define pc where "pc = sort (List.map_filter (sm_get c)
    (filter (\<lambda>p. case S of None \<Rightarrow> True | Some ss \<Rightarrow> sm_get ss p = Some Completed) (preds E i)))"
  have "x \<le> b" if "x \<in> set pc" for x
    using that assms by (auto simp: pc_def set_map_filter set_preds)
  then have "option_default 0 (dependency_completion pol pc n) \<le> b" for pol n
    using dependency_completion_mem [of pol pc n]
    by (auto simp: option_default_def split: option.splits)
  then show ?thesis
    unfolding node_end_def Let_def predecessors_of_targets pc_def [symmetric] weight_def sat_add64_def
    by (meson add_le_mono1 le_trans min.cobounded1)
qed

lemma completion_ok_insert:
  assumes ok: "completion_ok E W P S D c" and x: "x \<notin> D" "pend E D x = 0"
    and closed: "\<forall>v\<in>D. pend E D v = 0"
  shows "completion_ok E W P S (insert x D)
    (sm_insert x (node_end (predecessors_of E) W P S c x) c)"
proof -
  let ?c = "sm_insert x (node_end (predecessors_of E) W P S c x) c"
  have wf: "sm_wf c" using ok by (simp add: completion_ok_def)
  have same: "node_end (predecessors_of E) W P S ?c v = node_end (predecessors_of E) W P S c v"
    if "v \<in> insert x D" for v
  proof (rule node_end_cong)
    fix p assume "(p, v) \<in> set E"
    then have "p \<in> D" using that x(2) closed by (auto simp: pend_eq_0)
    then show "sm_get ?c p = sm_get c p" using x(1) wf by auto
  qed
  show ?thesis using ok same wf by (auto simp: completion_ok_def)
qed

lemma completion_bound_insert:
  assumes "\<forall>v x. sm_get c v = Some x \<longrightarrow> x \<le> sum (weight W) D" "x \<notin> D" "finite D" "sm_wf c"
  shows "\<forall>v y. sm_get (sm_insert x (node_end (predecessors_of E) W P S c x) c) v = Some y
    \<longrightarrow> y \<le> sum (weight W) (insert x D)"
proof -
  have "node_end (predecessors_of E) W P S c x \<le> sum (weight W) D + weight W x"
    using assms(1) by (intro node_end_le) blast
  then show ?thesis using assms by (auto simp: trans_le_add2)
qed

lemma critical_loop_returns:
  assumes "kahn_inv E V D m f" "\<forall>(u, v)\<in>set E. u \<in> V \<and> v \<in> V" "finite V"
    and "completion_ok E W P S D c" "\<forall>v x. sm_get c v = Some x \<longrightarrow> x \<le> sum (weight W) D"
  shows "\<exists>c' D' m'. critical_loop (predecessors_of E) W P S (outgoing_of E) m f c = Some c'
    \<and> kahn_inv E V D' m' [] \<and> completion_ok E W P S D' c'
    \<and> (\<forall>v x. sm_get c' v = Some x \<longrightarrow> x \<le> sum (weight W) D')"
  using assms
proof (induction "card (V - D)" arbitrary: D m f c rule: less_induct)
  case less
  show ?case
  proof (cases "f = []")
    case True
    then show ?thesis using less.prems by (subst critical_loop.simps) auto
  next
    case False
    let ?x = "last f"
    let ?c = "sm_insert ?x (node_end (predecessors_of E) W P S c ?x) c"
    have D: "D \<subseteq> V" "\<forall>v\<in>D. pend E D v = 0" and x: "?x \<in> V" "?x \<notin> D" "pend E D ?x = 0"
      using less.prems(1) last_in_set [OF False] by (auto simp: kahn_inv_def)
    have fin: "finite D" using D(1) less.prems(3) finite_subset by blast
    obtain m' zs where step: "fold relax_sat (succs E ?x) (m, butlast f) = (m', butlast f @ zs)"
      "kahn_inv E V (insert ?x D) m' (remove1 ?x f @ zs)"
      by (rule kahn_relax [OF less.prems(1,2) last_in_set [OF False], where nx = "butlast f"])
    have "mset f = mset (butlast f @ [?x])" using False by simp
    then have "mset (butlast f @ zs) = mset (remove1 ?x f @ zs)" by simp
    then have inv: "kahn_inv E V (insert ?x D) m' (butlast f @ zs)"
      using step(2) kahn_inv_perm by blast
    have "card (V - insert ?x D) < card (V - D)"
      using x less.prems(3) by (intro psubset_card_mono) auto
    moreover have "completion_ok E W P S (insert ?x D) ?c"
      by (rule completion_ok_insert [OF less.prems(4) x(2,3) D(2)])
    moreover have "\<forall>v y. sm_get ?c v = Some y \<longrightarrow> y \<le> sum (weight W) (insert ?x D)"
      using completion_bound_insert [OF less.prems(5) x(2) fin] less.prems(4)
      by (simp add: completion_ok_def)
    ultimately obtain c' D' m'' where
      "critical_loop (predecessors_of E) W P S (outgoing_of E) m' (butlast f @ zs) ?c = Some c'"
      "kahn_inv E V D' m'' []" "completion_ok E W P S D' c'"
      "\<forall>v x. sm_get c' v = Some x \<longrightarrow> x \<le> sum (weight W) D'"
      using less.hyps inv less.prems(2,3) by blast
    then show ?thesis using False step(1)
      by (subst critical_loop.simps) (auto simp: Let_def outgoing_of_targets)
  qed
qed

lemma completion_times_returns:
  assumes "ss_wf ids" "\<forall>(u, v)\<in>set deps. u \<in> set ids \<and> v \<in> set ids"
  shows "\<exists>c D m. completion_times ids deps W P S = Some c \<and> kahn_inv deps (set ids) D m []
    \<and> completion_ok deps W P S D c
    \<and> (\<forall>v x. sm_get c v = Some x \<longrightarrow> x \<le> sum (weight W) D)"
  unfolding completion_times_def Let_def
  by (rule critical_loop_returns [OF loop_start [OF assms] assms(2)])
    (auto simp: completion_ok_def)

section \<open>Critical paths are longest chains\<close>

text \<open>A chain is a list of nodes, last node first, each the dependency of the one before it.\<close>
fun dep_chain :: "dep_pair list \<Rightarrow> rstring list \<Rightarrow> bool" where
  "dep_chain E [] = False"
| "dep_chain E [v] = True"
| "dep_chain E (v # u # us) = ((u, v) \<in> set E \<and> dep_chain E (u # us))"

definition chain_ms :: "(rstring, nat) smap \<Rightarrow> rstring list \<Rightarrow> nat" where
  "chain_ms W vs = min (sum_list (map (weight W) vs)) u64_max"

definition waits_for_all :: "(rstring, execution_dependency_policy) smap \<Rightarrow> rstring \<Rightarrow> bool" where
  "waits_for_all P v = (option_default All (sm_get P v) \<in> {All, Finally})"

lemma chain_ms_Cons: "chain_ms W (v # vs) = sat_add64 (chain_ms W vs) (weight W v)"
  by (auto simp: chain_ms_def sat_add64_def)

lemma last_sort:
  fixes xs :: "nat list"
  assumes "xs \<noteq> []"
  shows "last (sort xs) \<in> set xs" "x \<in> set xs \<Longrightarrow> x \<le> last (sort xs)"
proof -
  have ne: "sort xs \<noteq> []" using assms by (metis length_0_conv length_sort)
  show "last (sort xs) \<in> set xs" using last_in_set [OF ne] by simp
  assume "x \<in> set xs"
  then obtain k where "k < length (sort xs)" "x = sort xs ! k"
    by (metis in_set_conv_nth set_sort)
  then show "x \<le> last (sort xs)"
    using sorted_nth_mono [OF sorted_sort [of xs], of k "length (sort xs) - 1"] ne
    by (simp add: last_conv_nth)
qed

lemma map_filter_total:
  "\<forall>x\<in>set xs. \<exists>y. f x = Some y \<Longrightarrow> List.map_filter f xs = map (the \<circ> f) xs"
  by (induction xs) (auto simp: List.map_filter_simps)

lemma node_end_all:
  assumes "waits_for_all P v" "\<forall>p. (p, v) \<in> set E \<longrightarrow> sm_get c p = Some (t p)"
  shows "node_end (predecessors_of E) W P None c v =
    sat_add64 (if preds E v = [] then 0 else last (sort (map t (preds E v)))) (weight W v)"
proof -
  have "List.map_filter (sm_get c) (preds E v) = map (the \<circ> sm_get c) (preds E v)"
    using assms(2) by (intro map_filter_total) (auto simp: set_preds)
  also have "\<dots> = map t (preds E v)" using assms(2) by (auto simp: set_preds)
  finally have "List.map_filter (sm_get c) (preds E v) = map t (preds E v)" .
  moreover have "sort (map t (preds E v)) = [] \<longleftrightarrow> preds E v = []"
    by (metis length_0_conv length_map length_sort)
  ultimately show ?thesis
    using assms(1)
    by (auto simp: node_end_def Let_def predecessors_of_targets waits_for_all_def weight_def
        dependency_completion_def option_default_def)
qed

text \<open>A completion time that is one more weight after the latest predecessor is attained by a chain and bounds all of them.\<close>
lemma chain_attained:
  assumes eq: "t v = sat_add64 (if preds E v = [] then 0 else last (sort (map t (preds E v)))) (weight W v)"
    and IH: "\<And>p. (p, v) \<in> set E \<Longrightarrow> \<exists>vs. dep_chain E (p # vs) \<and> t p = chain_ms W (p # vs)"
  shows "\<exists>vs. dep_chain E (v # vs) \<and> t v = chain_ms W (v # vs)"
proof (cases "preds E v = []")
  case True
  then show ?thesis using eq by (intro exI [of _ "[]"]) (simp add: chain_ms_Cons, simp add: chain_ms_def)
next
  case False
  then have "last (sort (map t (preds E v))) \<in> t ` set (preds E v)" using last_sort(1) [of "map t (preds E v)"] by simp
  then obtain p where p: "(p, v) \<in> set E" "last (sort (map t (preds E v))) = t p" by (auto simp: set_preds)
  then obtain vs where "dep_chain E (p # vs)" "t p = chain_ms W (p # vs)" using IH by blast
  then show ?thesis using eq False p by (intro exI [of _ "p # vs"]) (simp add: chain_ms_Cons [of W v])
qed

lemma chain_bounded:
  assumes eq: "t v = sat_add64 (if preds E v = [] then 0 else last (sort (map t (preds E v)))) (weight W v)"
    and IH: "\<And>p us. (p, v) \<in> set E \<Longrightarrow> dep_chain E (p # us) \<Longrightarrow> chain_ms W (p # us) \<le> t p" and chain: "dep_chain E (v # vs)"
  shows "chain_ms W (v # vs) \<le> t v"
proof (cases vs)
  case Nil
  then show ?thesis using eq by (simp add: chain_ms_Cons) (simp add: chain_ms_def sat_add64_def min.coboundedI1)
next
  case (Cons p us)
  then have p: "(p, v) \<in> set E" "dep_chain E (p # us)" using chain by auto
  have mem: "p \<in> set (preds E v)" using p by (simp add: set_preds)
  have "chain_ms W (p # us) \<le> t p" by (rule IH [OF p])
  also have "t p \<le> last (sort (map t (preds E v)))" using last_sort(2) [of "map t (preds E v)" "t p"] mem by fastforce
  finally show ?thesis using eq mem by (auto simp: Cons chain_ms_Cons [of W v] intro: sat_add64_mono)
qed

lemma completion_is_longest:
  assumes ok: "completion_ok E W P None D c" and V: "D = V"
    and E: "\<forall>(u, v)\<in>set E. u \<in> V \<and> v \<in> V" and "acyclic (set E)"
    and all: "\<forall>v\<in>V. waits_for_all P v" and "v \<in> V"
  shows "\<exists>x. sm_get c v = Some x
    \<and> (\<exists>vs. dep_chain E (v # vs) \<and> x = chain_ms W (v # vs))
    \<and> (\<forall>vs. dep_chain E (v # vs) \<longrightarrow> chain_ms W (v # vs) \<le> x)"
proof -
  have wf: "wf (set E)" using assms(4) finite_acyclic_wf by blast
  define t where "t p = the (sm_get c p)" for p
  have get: "sm_get c p = Some (t p)" if "p \<in> V" for p
    using ok that V by (auto simp: completion_ok_def t_def)
  have eq: "t v = sat_add64 (if preds E v = [] then 0 else last (sort (map t (preds E v)))) (weight W v)"
    if "v \<in> V" for v
  proof -
    have "Some (t v) = Some (node_end (predecessors_of E) W P None c v)"
      using ok that V get by (auto simp: completion_ok_def)
    moreover have "\<forall>p. (p, v) \<in> set E \<longrightarrow> sm_get c p = Some (t p)" using E get by blast
    ultimately show ?thesis using node_end_all all that by simp
  qed
  have "v \<in> V \<longrightarrow> (\<exists>vs. dep_chain E (v # vs) \<and> t v = chain_ms W (v # vs))
      \<and> (\<forall>vs. dep_chain E (v # vs) \<longrightarrow> chain_ms W (v # vs) \<le> t v)" for v
  proof (induction v rule: wf_induct_rule [OF wf])
    case (1 v)
    have mem: "p \<in> V" if "(p, v) \<in> set E" for p using E that by blast
    show ?case
    proof (intro impI conjI allI)
      assume v: "v \<in> V"
      show "\<exists>vs. dep_chain E (v # vs) \<and> t v = chain_ms W (v # vs)"
        by (rule chain_attained [OF eq [OF v]]) (use 1 mem in blast)
      fix vs
      assume "dep_chain E (v # vs)"
      then show "chain_ms W (v # vs) \<le> t v" by (rule chain_bounded [OF eq [OF v], rotated]) (use 1 mem in blast)
    qed
  qed
  then show ?thesis using assms(6) get by auto
qed

section \<open>The projection of a graph\<close>

lemma list_max_Some: "xs \<noteq> [] \<Longrightarrow> list_max xs = Some (Max (set xs))"
proof (cases xs)
  case (Cons x ys)
  have "fold max ys x = Max (set (x # ys))" by (simp only: Max.set_eq_fold)
  then show ?thesis by (simp add: Cons list_max_def)
qed simp

lemma list_max_cases:
  "list_max xs = (if xs = [] then None else Some (Max (set xs)))"
  using list_max_Some [of xs] by (auto simp: list_max_def)

lemma work_ids_wf [simp]: "ss_wf (work_ids g)"
  by (simp add: work_ids_def)

lemma work_dependencies_ids:
  "\<forall>(u, v)\<in>set (work_dependencies g). u \<in> set (work_ids g) \<and> v \<in> set (work_ids g)"
  by (auto simp: work_dependencies_def)

lemmas work_shape = graph_shape_returns [OF work_ids_wf work_dependencies_ids]
lemmas work_times = completion_times_returns [OF work_ids_wf work_dependencies_ids]

lemma critical_path_bound:
  assumes "ss_wf ids" "\<forall>(u, v)\<in>set deps. u \<in> set ids \<and> v \<in> set ids"
  shows "\<exists>x. critical_path ids required deps W P S = Some x \<and> x \<le> sum (weight W) (set ids)"
proof -
  obtain c D m where c: "completion_times ids deps W P S = Some c" "kahn_inv deps (set ids) D m []"
    "sm_wf c" "\<forall>v x. sm_get c v = Some x \<longrightarrow> x \<le> sum (weight W) D"
    using completion_times_returns [OF assms, of W P S] by (auto simp: completion_ok_def)
  have D: "D \<subseteq> set ids" using c(2) by (simp add: kahn_inv_def)
  have le: "x \<le> sum (weight W) (set ids)" if "sm_get c v = Some x" for v x
    using c(4) that sum_mono2 [OF _ D, of "weight W"] by (meson List.finite_set le_trans zero_le)
  have vals: "x \<le> sum (weight W) (set ids)" if "x \<in> set (sm_values c)" for x
    using that le c(3) by (auto simp: sm_values_def sm_mem_iff)
  have req: "x \<le> sum (weight W) (set ids)" if "x \<in> set (List.map_filter (sm_get c) required)" for x
    using that le by (auto simp: set_map_filter)
  show ?thesis
    using req vals by (simp add: critical_path_def c(1) list_max_cases option_default_def)
qed

lemma project_work_graph_returns_fields:
  assumes "work_nodes g \<noteq> []"
  obtains p bs m where "project_work_graph g = Some (Some p)"
    "wg_width p = max_length bs" "wg_depth p = length bs"
    "layers (work_dependencies g) (set (work_ids g)) bs"
    "kahn_inv (work_dependencies g) (set (work_ids g)) (set (concat bs)) m []"
    "wg_expected_critical_path_ms p \<le> sum (weight (expected_weights g)) (set (work_ids g))"
    "wg_actual_critical_path_ms p \<le> sum (weight (actual_weights g)) (set (work_ids g))"
    "wg_expected_serial_ms p = serial_sum (expected_weights g)"
    "wg_actual_serial_ms p = serial_sum (actual_weights g)"
    "critical_path (work_ids g) (required_ids g) (work_dependencies g) (expected_weights g)
       (work_policies g) None = Some (wg_expected_critical_path_ms p)"
proof -
  obtain bs m where shape: "graph_shape (work_ids g) (work_dependencies g) = Some (max_length bs, length bs)"
    "layers (work_dependencies g) (set (work_ids g)) bs"
    "kahn_inv (work_dependencies g) (set (work_ids g)) (set (concat bs)) m []"
    using work_shape by blast
  note cp = critical_path_bound [OF work_ids_wf work_dependencies_ids, of g "required_ids g"]
  obtain x where x: "critical_path (work_ids g) (required_ids g) (work_dependencies g)
      (expected_weights g) (work_policies g) None = Some x"
    "x \<le> sum (weight (expected_weights g)) (set (work_ids g))" using cp by blast
  obtain y where y: "critical_path (work_ids g) (required_ids g) (work_dependencies g)
      (actual_weights g) (work_policies g) (Some (g_node_statuses g)) = Some y"
    "y \<le> sum (weight (actual_weights g)) (set (work_ids g))" using cp by blast
  have "\<exists>p. project_work_graph g = Some (Some p)
      \<and> wg_width p = max_length bs \<and> wg_depth p = length bs
      \<and> wg_expected_critical_path_ms p = x \<and> wg_actual_critical_path_ms p = y
      \<and> wg_expected_serial_ms p = serial_sum (expected_weights g)
      \<and> wg_actual_serial_ms p = serial_sum (actual_weights g)"
    using assms shape(1) x(1) y(1) by (simp add: project_work_graph_def Let_def)
  then show thesis using that shape x y by blast
qed

lemma sum_weight_values:
  "sm_wf W \<Longrightarrow> sum (weight W) (fst ` set W) = sum_list (sm_values W)"
proof (induction W)
  case (Cons p W)
  obtain k v where p: "p = (k, v)" by (cases p)
  have k: "k \<notin> fst ` set W" using Cons.prems by (auto simp: p sm_wf_Cons)
  have "sum (weight (p # W)) (fst ` set W) = sum (weight W) (fst ` set W)"
    using k by (intro sum.cong) (auto simp: weight_def sm_get_def p)
  then show ?case using Cons k
    by (simp add: p sm_wf_Cons sm_values_def weight_def sm_get_def option_default_def)
qed (simp add: sm_values_def)

lemma serial_sum_exact:
  assumes "sum_list (sm_values W) \<le> u64_max"
  shows "serial_sum W = sum_list (sm_values W)"
proof -
  have "fold (\<lambda>w acc. wrap64 (acc + w)) xs a = a + sum_list xs" if "a + sum_list xs \<le> u64_max" for xs a
    using that by (induction xs arbitrary: a) (auto simp: wrap64_id)
  then show ?thesis using assms by (simp add: serial_sum_def)
qed

lemma keys_of_list: "fst ` set (sm_of_list kvs) = fst ` set kvs"
proof -
  have "k \<in> fst ` set (sm_of_list kvs) \<longleftrightarrow> k \<in> fst ` set kvs" for k
  proof -
    have "k \<in> fst ` set (sm_of_list kvs) \<longleftrightarrow> map_of (rev kvs) k \<noteq> None"
      using sm_get_of_list [of kvs k] by (metis map_of_eq_None_iff sm_get_def)
    then show ?thesis by (simp add: map_of_eq_None_iff)
  qed
  then show ?thesis by blast
qed

lemma expected_total: "sum (weight (expected_weights g)) (set (work_ids g)) = sum_list (sm_values (expected_weights g))"
  using sum_weight_values [of "expected_weights g"]
  by (simp add: expected_weights_def keys_of_list work_ids_def image_image)

lemma actual_total: "sum (weight (actual_weights g)) (set (work_ids g)) = sum_list (sm_values (actual_weights g))"
  using sum_weight_values [of "actual_weights g"]
  by (simp add: actual_weights_def keys_of_list work_ids_def image_image)


lemma all_work_ids:
  assumes "\<forall>n\<in>set (g_nodes g). n_work n \<noteq> None"
  shows "work_nodes g = g_nodes g" "set (work_ids g) = node_ids g"
proof -
  show "work_nodes g = g_nodes g" using assms by (simp add: work_nodes_def)
  then show "set (work_ids g) = node_ids g" by (simp add: work_ids_def node_ids_def)
qed

lemma all_work_dependencies:
  assumes "\<forall>n\<in>set (g_nodes g). n_work n \<noteq> None" "graph_acceptable g"
  shows "work_dependencies g = dep_pairs g"
proof -
  have "is_dependency (e_kind e) \<Longrightarrow> e_from e \<in> node_ids g \<and> e_to e \<in> node_ids g"
    if "e \<in> set (g_edges g)" for e
    using assms(2) that by (force simp: graph_acceptable_def dep_pairs_def dependency_edges_def)
  then show ?thesis
    by (auto simp: work_dependencies_def dep_pairs_def dependency_edges_def all_work_ids [OF assms(1)]
        intro!: arg_cong [where f = "map _"] filter_cong)
qed

section \<open>Properties\<close>

text \<open>
  C31: The work projection returns on every graph, cyclic or not; it yields a projection exactly
  when some node carries a work contract, and neither critical path exceeds the total duration of
  the work nodes.
\<close>
theorem project_work_graph_returns:
  "if work_nodes g = [] then project_work_graph g = Some None
   else \<exists>p. project_work_graph g = Some (Some p)
     \<and> wg_expected_critical_path_ms p \<le> sum_list (sm_values (expected_weights g))
     \<and> wg_actual_critical_path_ms p \<le> sum_list (sm_values (actual_weights g))"
proof (cases "work_nodes g = []")
  case True
  then show ?thesis by (simp add: project_work_graph_def)
next
  case False
  obtain p where "project_work_graph g = Some (Some p)"
    "wg_expected_critical_path_ms p \<le> sum (weight (expected_weights g)) (set (work_ids g))"
    "wg_actual_critical_path_ms p \<le> sum (weight (actual_weights g)) (set (work_ids g))"
    using project_work_graph_returns_fields [OF False] by metis
  then show ?thesis using False by (simp add: expected_total actual_total)
qed



section \<open>Witnesses\<close>

definition sample_work :: "nat \<Rightarrow> execution_work_contract" where
  "sample_work ms = (work_new RoleTool) \<lparr> w_expected_duration_ms := ms \<rparr>"

definition sample_pipeline :: execution_graph where
  "sample_pipeline = (graph_new ''2'' ''answer'') \<lparr>
     g_nodes := [(sample_node ''b'' AgentTask) \<lparr> n_work := Some (sample_work 3) \<rparr>,
                 (sample_node ''a'' AgentTask) \<lparr> n_work := Some (sample_work 2) \<rparr>],
     g_edges := [sample_edge ''a'' ''b''] \<rparr>"

lemma validate_sample_pipeline: "validate_execution_graph sample_pipeline = Inr [[''a''], [''b'']]"
  by code_simp

lemma sample_pipeline_work:
  "\<forall>n\<in>set (g_nodes sample_pipeline). n_work n \<noteq> None" "g_nodes sample_pipeline \<noteq> []"
  by (simp_all add: sample_pipeline_def)

lemma sample_pipeline_evaluated:
  "work_ids sample_pipeline = [''a'', ''b'']" "required_ids sample_pipeline = [''a'', ''b'']"
  "work_dependencies sample_pipeline = [(''a'', ''b'')]"
  "work_policies sample_pipeline = [(''a'', All), (''b'', All)]"
  "work_nodes sample_pipeline \<noteq> []"
  by code_simp+



end
