(* ===== verification/Lifecycle.thy ===== *)
theory Lifecycle
  imports Contract
begin

text \<open>
  Node transitions, harness-contract/src/execution_graph/state.rs.  \<open>apply_node_transition\<close> is
  the only pure transition of the contract crate: it checks the revision, the node and
  \<open>legal_transition\<close> and returns a new graph with the next revision.  \<open>lifecycle_step\<close> is the
  relation between a graph and the graphs one accepted transition leads to.
\<close>

named_theorems lifecycle_simps "transition facts"

datatype execution_transition_error =
  StaleRevision nat nat
| NodeNotFound rstring
| Illegal rstring execution_node_status execution_node_status

definition legal_transition :: "execution_node_status \<Rightarrow> execution_node_status \<Rightarrow> bool" where
  "legal_transition from to =
    ((case from of
        Planned \<Rightarrow> to \<in> {Ready, Cancelled, Blocked}
      | Ready \<Rightarrow> to \<in> {Running, Paused, Cancelled, Blocked, Failed}
      | Running \<Rightarrow> to \<in> {WaitingInput, WaitingApproval, WaitingExternal, Completed, Failed,
                       Blocked, Cancelled, Paused}
      | WaitingInput \<Rightarrow> to \<in> {Ready, Running, Failed, Cancelled}
      | WaitingApproval \<Rightarrow> to \<in> {Ready, Running, Failed, Cancelled}
      | WaitingExternal \<Rightarrow> to \<in> {Ready, Running, Failed, Cancelled}
      | Paused \<Rightarrow> to \<in> {Ready, Running, Failed, Cancelled}
      | _ \<Rightarrow> False) \<or> from = to)"

definition apply_node_transition ::
  "execution_graph \<Rightarrow> nat \<Rightarrow> rstring \<Rightarrow> execution_node_status \<Rightarrow> execution_node_result option
   \<Rightarrow> (execution_transition_error, execution_graph) result" where
  "apply_node_transition g expected_revision node_id to result =
    (if g_revision g \<noteq> expected_revision
     then Err (StaleRevision expected_revision (g_revision g))
     else case sm_get (g_node_statuses g) node_id of
       None \<Rightarrow> Err (NodeNotFound node_id)
     | Some from \<Rightarrow>
         if \<not> legal_transition from to then Err (Illegal node_id from to)
         else Ok (g \<lparr>
           g_node_statuses := sm_insert node_id to (g_node_statuses g),
           g_node_results := (case result of
               Some r \<Rightarrow> sm_insert node_id r (g_node_results g)
             | None \<Rightarrow> g_node_results g),
           g_revision := sat_add64 (g_revision g) 1 \<rparr>))"

section \<open>Legal transitions\<close>

lemma legal_refl [simp]: "legal_transition s s"
  by (simp add: legal_transition_def)

lemma legal_from_terminal [lifecycle_simps]:
  "is_terminal s \<Longrightarrow> legal_transition s t \<longleftrightarrow> t = s"
  by (cases s) (auto simp: legal_transition_def is_terminal_def)

lemma legal_cancel_iff [lifecycle_simps]:
  "legal_transition s Cancelled \<longleftrightarrow> \<not> is_terminal s \<or> s = Cancelled"
  by (cases s) (auto simp: legal_transition_def is_terminal_def)

lemma legal_to_completed: "legal_transition s Completed \<longleftrightarrow> s = Running \<or> s = Completed"
  by (cases s) (auto simp: legal_transition_def)

lemma legal_to_planned: "legal_transition s Planned \<longleftrightarrow> s = Planned"
  by (cases s) (auto simp: legal_transition_def)

section \<open>The transition operation\<close>

lemma apply_node_transition_ok:
  "apply_node_transition g r0 node_id to result = Inr g' \<longleftrightarrow>
   (\<exists>from. g_revision g = r0 \<and> sm_get (g_node_statuses g) node_id = Some from
      \<and> legal_transition from to
      \<and> g' = g \<lparr> g_node_statuses := sm_insert node_id to (g_node_statuses g),
                 g_node_results := (case result of
                     Some r \<Rightarrow> sm_insert node_id r (g_node_results g)
                   | None \<Rightarrow> g_node_results g),
                 g_revision := sat_add64 (g_revision g) 1 \<rparr>)"
  by (auto simp: apply_node_transition_def split: option.splits if_splits)

lemma apply_node_transition_err:
  "apply_node_transition g r0 node_id to result = Inl e \<longleftrightarrow>
   (g_revision g \<noteq> r0 \<and> e = StaleRevision r0 (g_revision g)
    \<or> g_revision g = r0 \<and> sm_get (g_node_statuses g) node_id = None \<and> e = NodeNotFound node_id
    \<or> (\<exists>from. g_revision g = r0 \<and> sm_get (g_node_statuses g) node_id = Some from
          \<and> \<not> legal_transition from to \<and> e = Illegal node_id from to))"
  by (auto simp: apply_node_transition_def split: option.splits if_splits)

lemma apply_node_transition_wf:
  assumes "graph_wf g" "apply_node_transition g r0 node_id to result = Inr g'"
  shows "graph_wf g'"
  using assms by (auto simp: apply_node_transition_ok graph_wf_def split: option.splits)

lemma apply_node_transition_status:
  assumes "graph_wf g" "apply_node_transition g r0 node_id to result = Inr g'"
  shows "sm_get (g_node_statuses g') k =
    (if k = node_id then Some to else sm_get (g_node_statuses g) k)"
  using assms by (auto simp: apply_node_transition_ok graph_wf_def)

section \<open>Runs\<close>

inductive lifecycle_step :: "execution_graph \<Rightarrow> execution_graph \<Rightarrow> bool" where
  transition: "apply_node_transition g r0 node_id to result = Inr g' \<Longrightarrow> lifecycle_step g g'"

inductive_cases lifecycle_stepE: "lifecycle_step g g'"

abbreviation lifecycle_run :: "execution_graph \<Rightarrow> execution_graph \<Rightarrow> bool" where
  "lifecycle_run \<equiv> lifecycle_step\<^sup>*\<^sup>*"

lemma lifecycle_step_wf: "lifecycle_step g g' \<Longrightarrow> graph_wf g \<Longrightarrow> graph_wf g'"
  by (erule lifecycle_stepE) (rule apply_node_transition_wf)

lemma lifecycle_run_wf: "lifecycle_run g g' \<Longrightarrow> graph_wf g \<Longrightarrow> graph_wf g'"
  by (induction rule: rtranclp_induct) (blast intro: lifecycle_step_wf)+

lemma lifecycle_step_status:
  assumes "lifecycle_step g g'" "graph_wf g" "sm_get (g_node_statuses g) k = Some s"
  shows "\<exists>t. sm_get (g_node_statuses g') k = Some t \<and> legal_transition s t"
proof -
  from assms(1) obtain r0 n to res
    where t: "apply_node_transition g r0 n to res = Inr g'" by (blast elim: lifecycle_stepE)
  then have "k = n \<Longrightarrow> legal_transition s to"
    using assms(3) by (simp add: apply_node_transition_ok)
  then show ?thesis using apply_node_transition_status [OF assms(2) t, of k] assms(3) by auto
qed

lemma lifecycle_step_terminal:
  assumes "lifecycle_step g g'" "graph_wf g"
    and "sm_get (g_node_statuses g) k = Some s" "is_terminal s"
  shows "sm_get (g_node_statuses g') k = Some s"
  using lifecycle_step_status [OF assms(1-3)] legal_from_terminal [OF assms(4)] by auto

lemma lifecycle_step_revision:
  "lifecycle_step g g' \<Longrightarrow> g_revision g' = sat_add64 (g_revision g) 1"
  by (erule lifecycle_stepE) (simp add: apply_node_transition_ok, clarsimp)

lemma lifecycle_step_frame:
  assumes "lifecycle_step g g'"
  shows "g_id g' = g_id g \<and> g_nodes g' = g_nodes g \<and> g_edges g' = g_edges g"
  using assms by (elim lifecycle_stepE) (clarsimp simp: apply_node_transition_ok)

lemma lifecycle_run_terminal:
  assumes "lifecycle_run g g'" "graph_wf g"
    and "sm_get (g_node_statuses g) k = Some s" "is_terminal s"
  shows "sm_get (g_node_statuses g') k = Some s"
  using assms(1)
proof (induction rule: rtranclp_induct)
  case base
  then show ?case using assms(3) .
next
  case (step y z)
  then show ?case using lifecycle_step_terminal assms lifecycle_run_wf by blast
qed

lemma lifecycle_run_frame:
  assumes "lifecycle_run g g'"
  shows "g_id g' = g_id g \<and> g_nodes g' = g_nodes g \<and> g_edges g' = g_edges g"
  using assms by (induction rule: rtranclp_induct) (auto dest: lifecycle_step_frame)

lemma lifecycle_run_revision:
  assumes "lifecycle_run g g'" "graph_wf g"
  shows "g_revision g \<le> g_revision g'"
  using assms(1)
proof (induction rule: rtranclp_induct)
  case base
  then show ?case by simp
next
  case (step y z)
  have "g_revision y \<le> u64_max"
    using lifecycle_run_wf [OF step.hyps(1) assms(2)] by (simp add: graph_wf_def)
  then have "g_revision y \<le> g_revision z"
    using lifecycle_step_revision [OF step.hyps(2)] by (simp add: sat_add64_ge)
  then show ?case using step.IH by simp
qed

lemma lifecycle_steps_revision:
  assumes "(lifecycle_step ^^ n) g g'" "graph_wf g"
  shows "g_revision g' = min (g_revision g + n) u64_max"
  using assms
proof (induction n arbitrary: g')
  case 0
  then show ?case by (simp add: graph_wf_def)
next
  case (Suc n)
  then obtain h where h: "(lifecycle_step ^^ n) g h" "lifecycle_step h g'" by auto
  then show ?case using Suc.IH [OF h(1) Suc.prems(2)] lifecycle_step_revision [OF h(2)]
    by (simp add: sat_add64_def)
qed

section \<open>Properties\<close>

text \<open>
  C34: Terminal node states are absorbing: whatever sequence of transitions is accepted, a node that
  is completed, blocked, failed or cancelled keeps its status; the topology never changes and the
  revision never decreases.
\<close>
theorem terminal_status_absorbing:
  assumes "lifecycle_run g g'" "graph_wf g"
    and "sm_get (g_node_statuses g) k = Some s" "is_terminal s"
  shows "sm_get (g_node_statuses g') k = Some s \<and> g_nodes g' = g_nodes g \<and> g_edges g' = g_edges g
    \<and> g_revision g \<le> g_revision g'"
  using lifecycle_run_terminal [OF assms] lifecycle_run_frame [OF assms(1)]
    lifecycle_run_revision [OF assms(1,2)] by simp

text \<open>
  Optimistic concurrency: after one accepted transition any further transition that still
  expects the old revision is refused as stale, whatever node and status it asks for; and \<open>n\<close>
  accepted transitions advance the revision by exactly \<open>n\<close>, saturating at the largest 64 bit number.
\<close>
theorem transition_revision_discipline:
  assumes "graph_wf g" "apply_node_transition g r0 node_id to result = Inr g'" "r0 < u64_max"
    and "(lifecycle_step ^^ n) g' g''"
  shows "apply_node_transition g' r0 node_id' to' result' = Inl (StaleRevision r0 (r0 + 1))
    \<and> g_revision g'' = min (r0 + 1 + n) u64_max"
proof -
  have "g_revision g' = r0 + 1"
    using assms(2,3) by (auto simp: apply_node_transition_ok sat_add64_def)
  then show ?thesis
    using lifecycle_steps_revision [OF assms(4) apply_node_transition_wf [OF assms(1,2)]]
    by (simp add: apply_node_transition_def)
qed

text \<open>
  An accepted transition rewrites exactly the addressed node's status and, if a result is given,
  its result; it was legal: completion only from \<open>Running\<close>, and nothing but a no-op from a terminal
  status.
\<close>
theorem transition_effect:
  assumes "graph_wf g" "apply_node_transition g r0 node_id to result = Inr g'"
  shows "sm_get (g_node_statuses g') = (sm_get (g_node_statuses g))(node_id \<mapsto> to)
    \<and> sm_get (g_node_results g') = (case result of
        Some r \<Rightarrow> (sm_get (g_node_results g))(node_id \<mapsto> r) | None \<Rightarrow> sm_get (g_node_results g))
    \<and> (\<exists>from. sm_get (g_node_statuses g) node_id = Some from
        \<and> (to = Completed \<longrightarrow> from = Running \<or> from = Completed) \<and> (is_terminal from \<longrightarrow> to = from))"
proof -
  from assms(2) obtain "from" where f: "sm_get (g_node_statuses g) node_id = Some from"
    "legal_transition from to"
    and g': "g_node_statuses g' = sm_insert node_id to (g_node_statuses g)"
      "g_node_results g' = (case result of
         Some r \<Rightarrow> sm_insert node_id r (g_node_results g) | None \<Rightarrow> g_node_results g)"
    by (auto simp: apply_node_transition_ok)
  show ?thesis
    using f g' assms(1) legal_to_completed legal_from_terminal
    by (auto simp: graph_wf_def fun_eq_iff split: option.splits)
qed

section \<open>Witnesses\<close>

definition sample_running :: execution_graph where
  "sample_running = (graph_new ''3'' ''answer'') \<lparr>
     g_node_statuses := [(''a'', Running), (''b'', Failed)] \<rparr>"

lemma sample_running_wf: "graph_wf sample_running"
  by (simp add: sample_running_def graph_wf_def graph_new_def sm_wf_def less_char_def)

lemma sample_running_step:
  "apply_node_transition sample_running 0 ''a'' Completed None =
     Inr (sample_running \<lparr> g_node_statuses := [(''a'', Completed), (''b'', Failed)], g_revision := 1 \<rparr>)"
  by (simp add: apply_node_transition_def sample_running_def graph_new_def sm_get_def
      legal_transition_def sat_add64_def u64_max_def)

theorem terminal_status_absorbing_witness:
  "sm_get (g_node_statuses (sample_running
      \<lparr> g_node_statuses := [(''a'', Completed), (''b'', Failed)], g_revision := 1 \<rparr>)) ''b'' = Some Failed"
proof -
  have run: "lifecycle_run sample_running (sample_running
      \<lparr> g_node_statuses := [(''a'', Completed), (''b'', Failed)], g_revision := 1 \<rparr>)"
    by (rule r_into_rtranclp) (rule lifecycle_step.intros [OF sample_running_step])
  have "sm_get (g_node_statuses sample_running) ''b'' = Some Failed" "is_terminal Failed"
    by (simp_all add: sample_running_def sm_get_def is_terminal_def)
  from terminal_status_absorbing [OF run sample_running_wf this] show ?thesis by blast
qed

theorem transition_revision_discipline_witness:
  "apply_node_transition (sample_running
      \<lparr> g_node_statuses := [(''a'', Completed), (''b'', Failed)], g_revision := 1 \<rparr>)
     0 ''b'' Ready None = Inl (StaleRevision 0 1)"
  using transition_revision_discipline [OF sample_running_wf sample_running_step, of 0]
  by (simp add: u64_max_def)

theorem transition_effect_witness:
  "sm_get (g_node_statuses (sample_running
      \<lparr> g_node_statuses := [(''a'', Completed), (''b'', Failed)], g_revision := 1 \<rparr>)) =
   (sm_get (g_node_statuses sample_running))(''a'' \<mapsto> Completed)"
  using transition_effect [OF sample_running_wf sample_running_step] by blast

end
