(* ===== verification/Graph_Events.thy ===== *)
theory Graph_Events
  imports Lifecycle Validation
begin

text \<open>
  Graph events, runtime/src/execution_core/graph/events.rs: the delta between two graphs
  (\<open>between\<close>), its application (\<open>delta_apply\<close>) and the projection of one event onto a graph.
  The delta carries neither the graph id nor its lineage, and it re-appends changed nodes, so
  replay reproduces the next graph up to the order \<open>merge_order\<close> of nodes and edges.
\<close>

section \<open>Deltas\<close>

record execution_node_binding =
  nb_executor_kind :: rstring
  nb_ticket_idempotency_key :: rstring
  nb_attempt :: nat
  nb_resource_lease_refs :: "rstring list"
  nb_scope_lease_ref :: "rstring option"
  nb_worktree_lease_ref :: "rstring option"

record execution_graph_delta =
  d_revision :: nat
  d_objective :: "rstring option"
  d_service_class :: "execution_service_class option"
  d_parent_execution :: "execution_parent_binding option option"
  d_continuation_binding :: "collaboration_continuation_binding option option"
  d_delivery_envelope :: "delivery_envelope option option"
  d_terminal_presentation :: "terminal_presentation option option"
  d_added_nodes :: "execution_node_spec list"
  d_removed_node_ids :: "rstring list"
  d_added_edges :: "execution_edge list"
  d_removed_edges :: "execution_edge list"
  d_node_status_updates :: "(rstring, execution_node_status) smap"
  d_removed_node_statuses :: "rstring list"
  d_node_result_updates :: "(rstring, execution_node_result) smap"
  d_removed_node_results :: "rstring list"
  d_recovery_cursor :: execution_recovery_cursor

definition changed :: "'a \<Rightarrow> 'a \<Rightarrow> 'a option" where
  "changed old new = (if old \<noteq> new then Some new else None)"

definition map_updates :: "('k, 'v) smap \<Rightarrow> ('k, 'v) smap \<Rightarrow> ('k, 'v) smap" where
  "map_updates old new = filter (\<lambda>(k, v). sm_get old k \<noteq> Some v) new"

definition map_removals :: "('k, 'v) smap \<Rightarrow> ('k, 'v) smap \<Rightarrow> 'k list" where
  "map_removals old new = filter (\<lambda>k. \<not> sm_contains new k) (sm_keys old)"

definition between :: "execution_graph \<Rightarrow> execution_graph \<Rightarrow> execution_graph_delta" where
  "between p n =
    \<lparr> d_revision = g_revision n,
      d_objective = changed (g_objective p) (g_objective n),
      d_service_class = changed (g_service_class p) (g_service_class n),
      d_parent_execution = changed (g_parent_execution p) (g_parent_execution n),
      d_continuation_binding = changed (g_continuation_binding p) (g_continuation_binding n),
      d_delivery_envelope = changed (g_delivery_envelope p) (g_delivery_envelope n),
      d_terminal_presentation = changed (g_terminal_presentation p) (g_terminal_presentation n),
      d_added_nodes = filter (\<lambda>node. \<not> list_ex (\<lambda>old. n_id old = n_id node \<and> old = node) (g_nodes p))
        (g_nodes n),
      d_removed_node_ids = map n_id
        (filter (\<lambda>node. \<not> list_ex (\<lambda>new. n_id new = n_id node) (g_nodes n)) (g_nodes p)),
      d_added_edges = filter (\<lambda>e. e \<notin> set (g_edges p)) (g_edges n),
      d_removed_edges = filter (\<lambda>e. e \<notin> set (g_edges n)) (g_edges p),
      d_node_status_updates = map_updates (g_node_statuses p) (g_node_statuses n),
      d_removed_node_statuses = map_removals (g_node_statuses p) (g_node_statuses n),
      d_node_result_updates = map_updates (g_node_results p) (g_node_results n),
      d_removed_node_results = map_removals (g_node_results p) (g_node_results n),
      d_recovery_cursor = g_recovery_cursor n \<rparr>"

definition replace_if :: "'a option \<Rightarrow> 'a \<Rightarrow> 'a" where
  "replace_if new old = (case new of Some v \<Rightarrow> v | None \<Rightarrow> old)"

definition push_node :: "execution_node_spec \<Rightarrow> execution_node_spec list \<Rightarrow> execution_node_spec list" where
  "push_node node nodes = filter (\<lambda>cur. n_id cur \<noteq> n_id node) nodes @ [node]"

definition map_extend :: "('k::linorder, 'v) smap \<Rightarrow> ('k, 'v) smap \<Rightarrow> ('k, 'v) smap" where
  "map_extend updates m = fold (\<lambda>(k, v). sm_insert k v) updates m"

definition delta_apply :: "execution_graph_delta \<Rightarrow> execution_graph \<Rightarrow> (rstring, execution_graph) result" where
  "delta_apply d g =
    (if d_revision d \<noteq> sat_add64 (g_revision g) 1
     then Err (''delta revision '' @ nat_str (d_revision d) @ '' does not follow graph revision ''
               @ nat_str (g_revision g))
     else Ok (g \<lparr>
       g_objective := replace_if (d_objective d) (g_objective g),
       g_service_class := replace_if (d_service_class d) (g_service_class g),
       g_parent_execution := replace_if (d_parent_execution d) (g_parent_execution g),
       g_continuation_binding := replace_if (d_continuation_binding d) (g_continuation_binding g),
       g_delivery_envelope := replace_if (d_delivery_envelope d) (g_delivery_envelope g),
       g_terminal_presentation := replace_if (d_terminal_presentation d) (g_terminal_presentation g),
       g_nodes := fold push_node (d_added_nodes d)
         (fold (\<lambda>i. filter (\<lambda>node. n_id node \<noteq> i)) (d_removed_node_ids d) (g_nodes g)),
       g_edges := fold push_absent (d_added_edges d)
         (filter (\<lambda>e. e \<notin> set (d_removed_edges d)) (g_edges g)),
       g_node_statuses := map_extend (d_node_status_updates d)
         (fold sm_remove (d_removed_node_statuses d) (g_node_statuses g)),
       g_node_results := map_extend (d_node_result_updates d)
         (fold sm_remove (d_removed_node_results d) (g_node_results g)),
       g_recovery_cursor := d_recovery_cursor d,
       g_revision := d_revision d \<rparr>))"

section \<open>Events\<close>

datatype execution_graph_event =
  EvPlanned execution_graph
| EvCheckpoint rstring execution_graph
| EvNodeTransitioned rstring execution_node_status execution_node_status
    "execution_node_result option" "execution_node_binding option" execution_graph_delta
| EvNodesStarted "(rstring, execution_node_binding) smap" execution_graph_delta
| EvNodesTransitioned "rstring list" execution_graph_delta
| EvNodeTransitionedAndReplanned rstring execution_node_status execution_node_status
    execution_node_result rstring "rstring list" execution_graph_delta
| EvCommandApplied rstring "rstring option" execution_graph_delta
| EvReplanned rstring "rstring list" execution_graph_delta
| EvRecovered "rstring list" "rstring list" execution_graph_delta

fun event_kind :: "execution_graph_event \<Rightarrow> rstring" where
  "event_kind (EvPlanned _) = ''execution_graph.planned''"
| "event_kind (EvCheckpoint _ _) = ''execution_graph.checkpoint''"
| "event_kind (EvNodeTransitioned _ _ _ _ _ _) = ''execution_graph.node_transitioned''"
| "event_kind (EvNodesStarted _ _) = ''execution_graph.nodes_started''"
| "event_kind (EvNodesTransitioned _ _) = ''execution_graph.nodes_transitioned''"
| "event_kind (EvNodeTransitionedAndReplanned _ _ _ _ _ _ _) =
     ''execution_graph.node_transitioned_and_replanned''"
| "event_kind (EvCommandApplied _ _ _) = ''execution_graph.command_applied''"
| "event_kind (EvReplanned _ _ _) = ''execution_graph.replanned''"
| "event_kind (EvRecovered _ _ _) = ''execution_graph.recovered''"

fun event_delta :: "execution_graph_event \<Rightarrow> execution_graph_delta option" where
  "event_delta (EvPlanned _) = None"
| "event_delta (EvCheckpoint _ _) = None"
| "event_delta (EvNodeTransitioned _ _ _ _ _ d) = Some d"
| "event_delta (EvNodesStarted _ d) = Some d"
| "event_delta (EvNodesTransitioned _ d) = Some d"
| "event_delta (EvNodeTransitionedAndReplanned _ _ _ _ _ _ d) = Some d"
| "event_delta (EvCommandApplied _ _ d) = Some d"
| "event_delta (EvReplanned _ _ d) = Some d"
| "event_delta (EvRecovered _ _ d) = Some d"

definition project_delta ::
  "execution_graph_delta \<Rightarrow> execution_graph option \<Rightarrow> (rstring, execution_graph) result" where
  "project_delta d current = (case current of
     None \<Rightarrow> Err ''graph delta has no preceding snapshot''
   | Some g \<Rightarrow> delta_apply d g)"

fun event_project ::
  "execution_graph_event \<Rightarrow> execution_graph option \<Rightarrow> (rstring, execution_graph) result" where
  "event_project (EvPlanned g) _ = Ok g"
| "event_project (EvCheckpoint _ g) _ = Ok g"
| "event_project (EvNodeTransitioned _ _ _ _ _ d) cur = project_delta d cur"
| "event_project (EvNodesStarted _ d) cur = project_delta d cur"
| "event_project (EvNodesTransitioned _ d) cur = project_delta d cur"
| "event_project (EvNodeTransitionedAndReplanned _ _ _ _ _ _ d) cur = project_delta d cur"
| "event_project (EvCommandApplied _ _ d) cur = project_delta d cur"
| "event_project (EvReplanned _ _ d) cur = project_delta d cur"
| "event_project (EvRecovered _ _ d) cur = project_delta d cur"

lemma event_project_delta:
  "event_delta ev = Some d \<Longrightarrow> event_project ev cur = project_delta d cur"
  by (cases ev) simp_all

section \<open>Round trip\<close>

text \<open>The order replay gives to nodes and edges: survivors first, then the new ones.\<close>
definition merge_order :: "'a list \<Rightarrow> 'a list \<Rightarrow> 'a list" where
  "merge_order old new = filter (\<lambda>x. x \<in> set new) old @ filter (\<lambda>x. x \<notin> set old) new"

lemma set_merge_order: "set (merge_order old new) = set new"
  by (auto simp: merge_order_def)

lemma merge_order_append: "merge_order old (old @ new) = old @ filter (\<lambda>x. x \<notin> set old) new"
proof -
  have "filter (\<lambda>x. x \<notin> set old) old = []" by (simp add: filter_empty_conv)
  moreover have "filter (\<lambda>x. x \<in> set (old @ new)) old = old" by (simp add: filter_id_conv)
  ultimately show ?thesis by (simp add: merge_order_def)
qed

lemma merge_order_same [simp]: "merge_order xs xs = xs"
  using merge_order_append [of xs "[]"] by simp

lemma replace_if_changed [simp]: "replace_if (changed old new) old = new"
  by (simp add: replace_if_def changed_def)

lemma map_roundtrip:
  assumes "sm_wf old" "sm_wf new"
  shows "map_extend (map_updates old new) (fold sm_remove (map_removals old new) old) = new"
proof (rule sm_wf_ext)
  have wf: "sm_wf (fold sm_remove (map_removals old new) old)"
    using assms(1) by (rule sm.inv_fold_del)
  have wfu: "sm_wf (map_updates old new)"
    using assms(2) by (simp add: map_updates_def sm_wf_filter)
  show "sm_wf (map_extend (map_updates old new) (fold sm_remove (map_removals old new) old))"
    unfolding map_extend_def by (rule sm.inv_fold_ins [OF wf])
  show "sm_wf new" by (rule assms(2))
  fix k
  have rev: "map_of (rev (map_updates old new)) k = sm_get (map_updates old new) k"
    by (rule sm_get_rev [OF wfu])
  have removed: "k \<in> set (map_removals old new) \<longleftrightarrow> sm_get old k \<noteq> None \<and> sm_get new k = None"
    by (auto simp: map_removals_def sm_keys_def sm_contains_def sm_get_def map_of_eq_None_iff)
  show "sm_get (map_extend (map_updates old new) (fold sm_remove (map_removals old new) old)) k =
      sm_get new k"
    unfolding map_extend_def sm.look_fold_ins [OF wf] rev
    using assms removed
    by (auto simp: map_updates_def sm_get_filter sm.look_fold_del split: option.splits)
qed

lemma fold_filter_ids:
  "fold (\<lambda>i. filter (\<lambda>node. n_id node \<noteq> i)) ids nodes = filter (\<lambda>node. n_id node \<notin> set ids) nodes"
  by (induction ids arbitrary: nodes) (auto intro: filter_cong)

lemma fold_push_node:
  "distinct (map n_id added) \<Longrightarrow> fold push_node added nodes =
     filter (\<lambda>node. n_id node \<notin> n_id ` set added) nodes @ added"
proof (induction added arbitrary: nodes)
  case (Cons a added)
  then have "n_id a \<notin> n_id ` set added" "distinct (map n_id added)" by auto
  then show ?case using Cons.IH [of "push_node a nodes"]
    by (auto simp: push_node_def intro!: filter_cong)
qed simp

lemma fold_push_absent_fresh:
  "distinct xs \<Longrightarrow> set xs \<inter> set ys = {} \<Longrightarrow> fold push_absent xs ys = ys @ xs"
  by (induction xs arbitrary: ys) (auto simp: push_absent_def)

lemma nodes_roundtrip:
  assumes p: "distinct (map n_id P)" and n: "distinct (map n_id N)"
  defines "added \<equiv> filter (\<lambda>node. \<not> list_ex (\<lambda>old. n_id old = n_id node \<and> old = node) P) N"
    and "removed \<equiv> map n_id (filter (\<lambda>node. \<not> list_ex (\<lambda>new. n_id new = n_id node) N) P)"
  shows "fold push_node added (fold (\<lambda>i. filter (\<lambda>node. n_id node \<noteq> i)) removed P) = merge_order P N"
proof -
  have added: "added = filter (\<lambda>x. x \<notin> set P) N"
    unfolding added_def by (intro filter_cong) (auto simp: list_ex_iff)
  have inj: "x = y" if "x \<in> set L" "y \<in> set L" "n_id x = n_id y" "distinct (map n_id L)" for x y L
    using that by (metis distinct_map inj_onD)
  have keep: "n_id x \<notin> set removed \<and> n_id x \<notin> n_id ` set added \<longleftrightarrow> x \<in> set N" if x: "x \<in> set P" for x
  proof
    assume a: "n_id x \<notin> set removed \<and> n_id x \<notin> n_id ` set added"
    then obtain m where m: "m \<in> set N" "n_id m = n_id x"
      using x by (auto simp: removed_def list_ex_iff)
    have "m \<notin> set P \<Longrightarrow> m \<in> set added" using m(1) by (simp add: added)
    then have "m \<in> set P" using a m(2) by (metis imageI)
    then show "x \<in> set N" using inj [OF _ x m(2) p] m(1) by simp
  next
    assume a: "x \<in> set N"
    then have "n_id x \<notin> set removed"
      using inj [OF _ x _ p] by (auto simp: removed_def list_ex_iff)
    moreover have "n_id x \<notin> n_id ` set added"
      using inj [OF _ a _ n] x by (fastforce simp: added)
    ultimately show "n_id x \<notin> set removed \<and> n_id x \<notin> n_id ` set added" ..
  qed
  have "distinct (map n_id added)" using n by (simp add: added distinct_map_filter)
  then have "fold push_node added (fold (\<lambda>i. filter (\<lambda>node. n_id node \<noteq> i)) removed P) =
      filter (\<lambda>x. n_id x \<notin> set removed \<and> n_id x \<notin> n_id ` set added) P @ added"
    by (simp add: fold_filter_ids fold_push_node conj_commute)
  also have "\<dots> = filter (\<lambda>x. x \<in> set N) P @ added"
    using keep by (simp cong: filter_cong)
  finally show ?thesis by (simp add: merge_order_def added)
qed

lemma edges_roundtrip:
  assumes "distinct (filter (\<lambda>e. e \<notin> set P) N)"
  shows "fold push_absent (filter (\<lambda>e. e \<notin> set P) N)
      (filter (\<lambda>e. e \<notin> set (filter (\<lambda>e. e \<notin> set N) P)) P) = merge_order P N"
proof -
  have "filter (\<lambda>e. e \<notin> set (filter (\<lambda>e. e \<notin> set N) P)) P = filter (\<lambda>e. e \<in> set N) P"
    by (auto intro: filter_cong)
  then show ?thesis
    using fold_push_absent_fresh [OF assms, of "filter (\<lambda>e. e \<in> set N) P"]
    by (auto simp: merge_order_def)
qed

definition replay_ready :: "execution_graph \<Rightarrow> execution_graph \<Rightarrow> bool" where
  "replay_ready p n \<longleftrightarrow> graph_wf p \<and> graph_wf n
     \<and> distinct (map n_id (g_nodes p)) \<and> distinct (map n_id (g_nodes n))
     \<and> distinct (filter (\<lambda>e. e \<notin> set (g_edges p)) (g_edges n))
     \<and> g_revision n = sat_add64 (g_revision p) 1"

lemma delta_roundtrip:
  assumes "replay_ready p n"
  shows "delta_apply (between p n) p = Inr (n \<lparr> g_id := g_id p, g_lineage := g_lineage p,
      g_nodes := merge_order (g_nodes p) (g_nodes n),
      g_edges := merge_order (g_edges p) (g_edges n) \<rparr>)"
proof -
  have wf: "sm_wf (g_node_statuses p)" "sm_wf (g_node_statuses n)"
    "sm_wf (g_node_results p)" "sm_wf (g_node_results n)"
    using assms by (auto simp: replay_ready_def graph_wf_def)
  have ids: "distinct (map n_id (g_nodes p))" "distinct (map n_id (g_nodes n))"
    "distinct (filter (\<lambda>e. e \<notin> set (g_edges p)) (g_edges n))" "g_revision n = sat_add64 (g_revision p) 1"
    using assms by (auto simp: replay_ready_def)
  have nodes: "fold push_node (d_added_nodes (between p n))
      (fold (\<lambda>i. filter (\<lambda>node. n_id node \<noteq> i)) (d_removed_node_ids (between p n)) (g_nodes p)) =
      merge_order (g_nodes p) (g_nodes n)"
    using nodes_roundtrip [OF ids(1,2)] by (simp add: between_def)
  have edges: "fold push_absent (d_added_edges (between p n))
      (filter (\<lambda>e. e \<notin> set (d_removed_edges (between p n))) (g_edges p)) =
      merge_order (g_edges p) (g_edges n)"
    using edges_roundtrip [OF ids(3)] by (simp add: between_def)
  have maps: "map_extend (d_node_status_updates (between p n))
      (fold sm_remove (d_removed_node_statuses (between p n)) (g_node_statuses p)) = g_node_statuses n"
    "map_extend (d_node_result_updates (between p n))
      (fold sm_remove (d_removed_node_results (between p n)) (g_node_results p)) = g_node_results n"
    using wf by (simp_all add: between_def map_roundtrip)
  have rest: "d_revision (between p n) = sat_add64 (g_revision p) 1"
    "d_objective (between p n) = changed (g_objective p) (g_objective n)"
    "d_service_class (between p n) = changed (g_service_class p) (g_service_class n)"
    "d_parent_execution (between p n) = changed (g_parent_execution p) (g_parent_execution n)"
    "d_continuation_binding (between p n) = changed (g_continuation_binding p) (g_continuation_binding n)"
    "d_delivery_envelope (between p n) = changed (g_delivery_envelope p) (g_delivery_envelope n)"
    "d_terminal_presentation (between p n) =
       changed (g_terminal_presentation p) (g_terminal_presentation n)"
    "d_recovery_cursor (between p n) = g_recovery_cursor n"
    using ids(4) by (simp_all add: between_def)
  show ?thesis
    unfolding delta_apply_def nodes edges maps rest
    using ids(4) by (simp add: execution_graph.equality)
qed

text \<open>In-place order: nothing moves when replay keeps the order of the next graph.\<close>
definition replay_exact :: "execution_graph \<Rightarrow> execution_graph \<Rightarrow> bool" where
  "replay_exact p n \<longleftrightarrow> replay_ready p n \<and> g_id n = g_id p \<and> g_lineage n = g_lineage p
     \<and> merge_order (g_nodes p) (g_nodes n) = g_nodes n
     \<and> merge_order (g_edges p) (g_edges n) = g_edges n"

lemma delta_roundtrip_exact: "replay_exact p n \<Longrightarrow> delta_apply (between p n) p = Inr n"
  by (simp add: replay_exact_def delta_roundtrip)

lemma replay_exact_appended:
  assumes "graph_wf p" "graph_wf n" "g_revision n = sat_add64 (g_revision p) 1"
    and "g_id n = g_id p" "g_lineage n = g_lineage p"
    and "g_nodes n = g_nodes p @ new_nodes" "distinct (map n_id (g_nodes n))"
    and "g_edges n = g_edges p @ new_edges" "distinct new_edges" "set new_edges \<inter> set (g_edges p) = {}"
  shows "replay_exact p n"
proof -
  have fresh: "filter (\<lambda>x. x \<notin> set (g_nodes p)) new_nodes = new_nodes"
    using assms(6,7) by (auto simp: filter_id_conv)
  have fresh_e: "filter (\<lambda>e. e \<notin> set (g_edges p)) new_edges = new_edges"
    using assms(10) by (auto simp: filter_id_conv)
  show ?thesis
    unfolding replay_exact_def replay_ready_def
    using assms fresh fresh_e by (auto simp: merge_order_append filter_empty_conv)
qed

section \<open>Properties\<close>

text \<open>
  C16: replaying the delta between two successive graphs on the first one gives the second one:
  every field, status, result, binding and cursor, and the same nodes and edges, with the survivors
  in their old order before the new ones.  Only the identity and the lineage stay those of the first
  graph, because a delta does not carry them.
\<close>
theorem delta_replays_next_graph:
  assumes "replay_ready p n"
  shows "\<exists>g. delta_apply (between p n) p = Inr g
    \<and> g = n \<lparr> g_id := g_id p, g_lineage := g_lineage p, g_nodes := g_nodes g, g_edges := g_edges g \<rparr>
    \<and> set (g_nodes g) = set (g_nodes n) \<and> set (g_edges g) = set (g_edges n)
    \<and> (replay_exact p n \<longrightarrow> g = n)"
proof -
  let ?g = "n \<lparr> g_id := g_id p, g_lineage := g_lineage p,
      g_nodes := merge_order (g_nodes p) (g_nodes n), g_edges := merge_order (g_edges p) (g_edges n) \<rparr>"
  have "replay_exact p n \<longrightarrow> ?g = n" by (simp add: replay_exact_def)
  then show ?thesis using delta_roundtrip [OF assms]
    by (intro exI [of _ ?g]) (simp add: set_merge_order)
qed

definition sample_before :: execution_graph where
  "sample_before = (graph_new ''g'' ''o'') \<lparr> g_nodes := [sample_node ''a'' AgentTask],
     g_node_statuses := [(''a'', Running)], g_revision := 1 \<rparr>"

definition sample_after :: execution_graph where
  "sample_after = sample_before \<lparr> g_nodes := [sample_node ''a'' AgentTask, sample_node ''b'' Verify],
     g_edges := [sample_edge ''a'' ''b''],
     g_node_statuses := [(''a'', Completed), (''b'', Planned)], g_revision := 2 \<rparr>"

theorem delta_replays_next_graph_witness:
  "delta_apply (between sample_before sample_after) sample_before = Inr sample_after"
proof -
  have "replay_exact sample_before sample_after"
    by (rule replay_exact_appended [where new_nodes = "[sample_node ''b'' Verify]"
          and new_edges = "[sample_edge ''a'' ''b'']"])
      (simp_all add: sample_before_def sample_after_def graph_new_def graph_wf_def sm_wf_def
        u64_max_def sat_add64_def sample_node_def)
  then show ?thesis using delta_replays_next_graph [of sample_before sample_after]
    by (auto simp: replay_exact_def)
qed

text \<open>
  A delta does not see a change of lineage: whatever lineage the next graph has, replay keeps
  the lineage of the previous snapshot.
\<close>
lemma delta_drops_lineage:
  "between p (n \<lparr> g_lineage := l \<rparr>) = between p n
    \<and> (\<forall>g. delta_apply (between p n) p = Inr g \<longrightarrow> g_lineage g = g_lineage p)"
  by (simp add: between_def delta_apply_def)

end
