(* ===== verification/Graph_Size.thy ===== *)
theory Graph_Size
  imports Graph_Events
begin

text \<open>
  The size estimates that decide whether a commit stores a delta or a checkpoint:
  \<open>estimate_graph_bytes\<close> of runtime/src/execution_core/hot_state/graph.rs and the estimates of
  events.rs.  The layout sizes that the compiler gives the structures (\<open>size_of\<close>) are the fields of
  \<open>layout\<close>; a \<open>usize\<close> has 64 bits.
\<close>

record layout =
  sz_graph :: nat
  sz_node :: nat
  sz_edge :: nat
  sz_result :: nat
  sz_delta :: nat
  sz_event :: nat
  sz_branch :: nat

definition lens :: "rstring list \<Rightarrow> nat" where
  "lens xs = sum_list (map length xs)"

definition opt_len :: "rstring option \<Rightarrow> nat" where
  "opt_len x = (case x of Some s \<Rightarrow> length s | None \<Rightarrow> 0)"

text \<open>A chain of \<open>saturating_add\<close> calls\<close>
definition sat_sum :: "nat \<Rightarrow> nat list \<Rightarrow> nat" where
  "sat_sum start xs = foldl sat_add64 start xs"

lemma sat_sum_le: "start \<le> u64_max \<Longrightarrow> sat_sum start xs \<le> u64_max"
  unfolding sat_sum_def by (induction xs arbitrary: start) simp_all

lemma sat_sum_min: "start \<le> u64_max \<Longrightarrow> sat_sum start xs = min (start + sum_list xs) u64_max"
  unfolding sat_sum_def by (induction xs arbitrary: start) (auto simp: sat_add64_def min_def)

section \<open>Graphs\<close>

definition work_bytes :: "execution_work_contract \<Rightarrow> nat list" where
  "work_bytes w = [lens (w_required_evidence_refs w), opt_len (w_cancellation_group w),
     opt_len (w_context_view_ref w), opt_len (w_model_profile w), opt_len (w_reasoning_effort w)]"

definition node_bytes :: "layout \<Rightarrow> execution_node_spec \<Rightarrow> nat list" where
  "node_bytes lay n = [sz_node lay, length (n_id n), length (n_payload_ref n),
       length (n_executor_kind n), length (n_idempotency_key n), lens (n_resource_scopes n),
       lens (a_criteria (n_acceptance n)), lens (a_required_evidence (n_acceptance n)),
       lens (rp_retryable_failure_kinds (n_retry_policy n))]
     @ (case n_work n of Some w \<Rightarrow> work_bytes w | None \<Rightarrow> [])"

fun target_bytes :: "evidence_target_identity \<Rightarrow> nat" where
  "target_bytes (TargetWorkspace scope) =
     sat_sum (length (wp_workspace_id (ws_path scope))) [length (wp_repository_id (ws_path scope)),
       length (wp_workspace_relative_path (ws_path scope)),
       length (wp_repository_relative_path (ws_path scope)),
       opt_len (wp_observed_revision_or_digest (ws_path scope))]"
| "target_bytes (TargetNetwork endpoint) = length endpoint"
| "target_bytes (AmbiguousWorkspace alias candidates) = sat_add64 (length alias) (lens candidates)"
| "target_bytes (UnavailableWorkspace alias reason) = sat_add64 (length alias) (length reason)"

definition evidence_bytes :: "observed_evidence \<Rightarrow> nat list" where
  "evidence_bytes e = [length (oe_obligation_id e), length (oe_tool_name e), target_bytes (oe_target e)]
     @ (case oe_evidence_ref e of
          Some r \<Rightarrow> [length (er_ref_type (ea_evidence_ref r)), length (er_id (ea_evidence_ref r)),
            length (ea_sha256 r), length (ea_media_type r), length (ea_retrieval_selector r),
            length (ea_visibility_scope r)]
        | None \<Rightarrow> [])"

definition observed_acceptance_heap_bytes :: "observed_acceptance \<Rightarrow> nat" where
  "observed_acceptance_heap_bytes a =
     sat_sum (lens (oa_satisfied_criteria a @ oa_unresolved_obligation_ids a))
       (concat (map evidence_bytes (oa_observed_evidence a)))"

definition failure_bytes :: "execution_failure option \<Rightarrow> nat list" where
  "failure_bytes f = (case f of Some f \<Rightarrow> [length (f_kind f), length (f_message f)] | None \<Rightarrow> [])"

definition result_bytes :: "layout \<Rightarrow> rstring \<times> execution_node_result \<Rightarrow> nat list" where
  "result_bytes lay = (\<lambda>(node_id, r).
     [length node_id, sz_result lay, opt_len (r_result_ref r), opt_len (r_summary r),
      lens (u_runtime_write_attempt_paths (r_usage r)),
      observed_acceptance_heap_bytes (u_observed_acceptance (r_usage r))]
     @ (if oa_is_empty (u_observed_acceptance (r_usage r))
        then [lens (u_runtime_observed_resource_scopes (r_usage r))] else [])
     @ failure_bytes (r_failure r))"

definition edge_bytes :: "layout \<Rightarrow> execution_edge \<Rightarrow> nat list" where
  "edge_bytes lay e = [sz_edge lay, length (e_from e), length (e_to e)]"

definition estimate_graph_bytes :: "layout \<Rightarrow> execution_graph \<Rightarrow> nat" where
  "estimate_graph_bytes lay g =
     sat_sum (sz_graph lay)
       ([length (g_id g), length (g_objective g)]
        @ (case g_parent_execution g of
             Some p \<Rightarrow> [length (pb_execution_id p), length (pb_node_id p)] | None \<Rightarrow> [])
        @ concat (map (node_bytes lay) (g_nodes g))
        @ concat (map (edge_bytes lay) (g_edges g))
        @ [lens (sm_keys (g_node_statuses g))]
        @ concat (map (result_bytes lay) (g_node_results g))
        @ [lens (sm_keys (rc_node_attempts (g_recovery_cursor g)))])"

section \<open>Deltas and events\<close>

definition continuation_bytes :: "collaboration_continuation_binding option option \<Rightarrow> nat" where
  "continuation_bytes b = (case b of Some (Some b) \<Rightarrow>
       length (cb_source_session_id b) + length (cb_source_turn_id b) + length (cb_source_root_id b)
       + length (cb_team_set_ref b) + length (cb_binding_digest b) + length (cb_current_ingress b)
       + lens (cb_result_refs b)
     | _ \<Rightarrow> 0)"

definition envelope_bytes :: "layout \<Rightarrow> delivery_envelope option option \<Rightarrow> nat" where
  "envelope_bytes lay e = (case e of Some (Some e) \<Rightarrow>
       length (de_envelope_id e) + length (de_objective_id e)
       + length (de_branch_terminals e) * sz_branch lay + lens (map du_summary (de_unresolved e))
     | _ \<Rightarrow> 0)"

definition added_node_bytes :: "layout \<Rightarrow> execution_node_spec \<Rightarrow> nat list" where
  "added_node_bytes lay n = [sz_node lay, length (n_id n), length (n_payload_ref n),
     length (n_executor_kind n), length (n_idempotency_key n), lens (n_resource_scopes n)]"

definition updated_result_bytes :: "layout \<Rightarrow> rstring \<times> execution_node_result \<Rightarrow> nat list" where
  "updated_result_bytes lay = (\<lambda>(node_id, r).
     [length node_id, sz_result lay, opt_len (r_result_ref r), opt_len (r_summary r)]
     @ failure_bytes (r_failure r))"

definition estimated_bytes :: "layout \<Rightarrow> execution_graph_delta \<Rightarrow> nat" where
  "estimated_bytes lay d =
     sat_sum (sz_delta lay)
       ([opt_len (d_objective d), continuation_bytes (d_continuation_binding d),
         envelope_bytes lay (d_delivery_envelope d), lens (d_removed_node_ids d),
         lens (d_removed_node_statuses d), lens (d_removed_node_results d)]
        @ concat (map (added_node_bytes lay) (d_added_nodes d))
        @ [sum_list (map (\<lambda>e. sat_sum (sz_edge lay) [length (e_from e), length (e_to e)])
             (d_added_edges d @ d_removed_edges d))]
        @ [lens (sm_keys (d_node_status_updates d))]
        @ concat (map (updated_result_bytes lay) (d_node_result_updates d)))"

definition bindings_bytes :: "(rstring, execution_node_binding) smap \<Rightarrow> nat" where
  "bindings_bytes m = sum_list (map (\<lambda>(node_id, b). length node_id + length (nb_executor_kind b)
     + length (nb_ticket_idempotency_key b) + lens (nb_resource_lease_refs b)) m)"

fun estimated_delta_bytes :: "layout \<Rightarrow> execution_graph_event \<Rightarrow> nat" where
  "estimated_delta_bytes lay (EvPlanned g) = estimate_graph_bytes lay g"
| "estimated_delta_bytes lay (EvCheckpoint _ g) = estimate_graph_bytes lay g"
| "estimated_delta_bytes lay (EvNodeTransitioned node_id _ _ result binding d) =
     sat_sum (sz_event lay) [length node_id,
       (case result of Some r \<Rightarrow> sat_add64 (opt_len (r_summary r)) (opt_len (r_result_ref r)) | None \<Rightarrow> 0),
       (case binding of Some b \<Rightarrow>
          sat_add64 (length (nb_executor_kind b)) (length (nb_ticket_idempotency_key b)) | None \<Rightarrow> 0),
       estimated_bytes lay d]"
| "estimated_delta_bytes lay (EvNodesStarted bindings d) =
     sat_sum (sz_event lay) [bindings_bytes bindings, estimated_bytes lay d]"
| "estimated_delta_bytes lay (EvNodesTransitioned ids d) =
     sat_sum (sz_event lay) [lens ids, estimated_bytes lay d]"
| "estimated_delta_bytes lay (EvNodeTransitionedAndReplanned node_id _ _ _ reason added d) =
     sat_sum (sz_event lay) [length node_id, length reason, lens added, estimated_bytes lay d]"
| "estimated_delta_bytes lay (EvCommandApplied command reason d) =
     sat_sum (sz_event lay) [length command, opt_len reason, estimated_bytes lay d]"
| "estimated_delta_bytes lay (EvReplanned reason added d) =
     sat_sum (sz_event lay) [length reason, lens added, estimated_bytes lay d]"
| "estimated_delta_bytes lay (EvRecovered recovered blocked d) =
     sat_sum (sz_event lay) [lens recovered, lens blocked, estimated_bytes lay d]"

section \<open>Checkpoint admission\<close>

text \<open>
  \<open>maybe_checkpoint\<close> of commit_pipeline.rs: a commit stores the whole graph when its delta is at
  least three quarters of the graph, and at every multiple of an interval that shrinks as the graph
  grows.
\<close>
definition topology_interval :: "execution_graph \<Rightarrow> nat" where
  "topology_interval g = min (max (256 div max (length (g_nodes g)) 1) 8) 64"

definition is_full_snapshot :: "execution_graph_event \<Rightarrow> bool" where
  "is_full_snapshot ev = (event_delta ev = None)"

definition maybe_checkpoint :: "layout \<Rightarrow> execution_graph \<Rightarrow> execution_graph_event \<Rightarrow> execution_graph_event" where
  "maybe_checkpoint lay g ev =
    (if is_full_snapshot ev then ev
     else let delta_bytes = estimated_delta_bytes lay ev;
              snapshot_bytes = max (estimate_graph_bytes lay g) 1
          in if sat_mul64 delta_bytes 4 \<ge> sat_mul64 snapshot_bytes 3
                \<or> g_revision g mod topology_interval g = 0
             then EvCheckpoint (event_kind ev) g else ev)"

lemma topology_interval_bounds: "8 \<le> topology_interval g" "topology_interval g \<le> 64"
  by (auto simp: topology_interval_def)

lemma maybe_checkpoint_cases:
  "maybe_checkpoint lay g ev = ev
   \<or> maybe_checkpoint lay g ev = EvCheckpoint (event_kind ev) g \<and> event_delta ev \<noteq> None"
  by (simp add: maybe_checkpoint_def Let_def is_full_snapshot_def)

text \<open>
  A checkpoint projects to the graph itself, so the admission never changes what a replay of the
  event gives when the delta replays to that graph.
\<close>
lemma maybe_checkpoint_project:
  assumes "event_project ev cur = Inr g"
  shows "event_project (maybe_checkpoint lay g ev) cur = Inr g"
  using maybe_checkpoint_cases [of lay g ev] assms by auto

text \<open>
  Between two stored snapshots there are at most 63 deltas while revisions grow by one: some
  revision within the next 64 is a multiple of the interval.
\<close>
lemma checkpoint_within_interval:
  fixes g :: execution_graph
  assumes "event_delta ev \<noteq> None"
  shows "\<exists>k<64. \<forall>n. g_nodes n = g_nodes g \<and> g_revision n = g_revision g + k
    \<longrightarrow> maybe_checkpoint lay n ev = EvCheckpoint (event_kind ev) n"
proof -
  let ?i = "topology_interval g"
  have i: "0 < ?i" "?i \<le> 64" using topology_interval_bounds [of g] by auto
  define k where "k = (?i - g_revision g mod ?i) mod ?i"
  have "(g_revision g + (?i - g_revision g mod ?i)) mod ?i = (g_revision g mod ?i + (?i - g_revision g mod ?i)) mod ?i"
    by (simp only: mod_add_left_eq)
  also have "\<dots> = 0" using mod_less_divisor [OF i(1), of "g_revision g"] by simp
  finally have "(g_revision g + k) mod ?i = 0" by (simp add: k_def mod_add_right_eq)
  moreover have "k < 64" using i mod_less_divisor [OF i(1), of "?i - g_revision g mod ?i"] by (simp add: k_def)
  ultimately show ?thesis using assms
    by (intro exI [of _ k]) (auto simp: maybe_checkpoint_def is_full_snapshot_def Let_def topology_interval_def)
qed

end
