(* ===== verification/Event_Types.thy ===== *)
theory Event_Types
  imports Contract
begin

text \<open>
  The vocabulary of the runtime event store, runtime/src/recovery/event_store/ports.rs and the
  activity binding of harness-contract/src/projection/activity.rs: scopes, events, transaction
  requests and receipts, the session outbox and projection checkpoints, with the validation of
  domain.rs.  A \<open>serde_json::Value\<close> is a \<open>json\<close> term whose numbers keep their text.  An object
  lists its members in the order the code writes them (the code's own map sorts them by key); they
  are only ever read by key.  What
  serde_json and SHA-256 compute is a parameter: the record \<open>store_env\<close>.
\<close>

section \<open>JSON values\<close>

datatype json =
  JNull
| JBool bool
| JNumber rstring
| JString rstring
| JArray "json list"
| JObject "(rstring \<times> json) list"

fun json_get :: "json \<Rightarrow> rstring \<Rightarrow> json option" where
  "json_get (JObject m) k = map_of m k"
| "json_get _ _ = None"

fun json_as_str :: "json \<Rightarrow> rstring option" where
  "json_as_str (JString s) = Some s"
| "json_as_str _ = None"

section \<open>Scopes\<close>

datatype runtime_event_scope =
  ScExecutionGraph | ScExecutionNode | ScExecutionLive | ScProgram | ScGoal | ScMission | ScSession
| ScSessionInput | ScSessionCommand | ScTeam | ScAgent | ScAgentDefinition | ScApproval
| ScEvolution | ScKnowledge | ScRelation | ScSteward | ScTask | ScWorker | ScSchedule
| ScManagedAgent | ScSkill | ScTool | ScRecovery | ScCrossPlane

datatype event_store_error =
  UnknownScope rstring
| Corrupt rstring
| TransactionConflict rstring
| StoreStaleRevision rstring nat nat
| InvalidTransaction rstring
| DecisionLeaseAlreadyConsumed rstring
| Serialization rstring
| Io rstring
| Storage rstring

fun scope_as_str :: "runtime_event_scope \<Rightarrow> rstring" where
  "scope_as_str ScExecutionGraph = ''execution_graph''"
| "scope_as_str ScExecutionNode = ''execution_node''"
| "scope_as_str ScExecutionLive = ''execution_live''"
| "scope_as_str ScProgram = ''program''"
| "scope_as_str ScGoal = ''goal''"
| "scope_as_str ScMission = ''mission''"
| "scope_as_str ScSession = ''session''"
| "scope_as_str ScSessionInput = ''session_input''"
| "scope_as_str ScSessionCommand = ''session_command''"
| "scope_as_str ScTeam = ''team''"
| "scope_as_str ScAgent = ''agent''"
| "scope_as_str ScAgentDefinition = ''agent_definition''"
| "scope_as_str ScApproval = ''approval''"
| "scope_as_str ScEvolution = ''evolution''"
| "scope_as_str ScKnowledge = ''knowledge''"
| "scope_as_str ScRelation = ''relation''"
| "scope_as_str ScSteward = ''steward''"
| "scope_as_str ScTask = ''task''"
| "scope_as_str ScWorker = ''worker''"
| "scope_as_str ScSchedule = ''schedule''"
| "scope_as_str ScManagedAgent = ''managed_agent''"
| "scope_as_str ScSkill = ''skill''"
| "scope_as_str ScTool = ''tool''"
| "scope_as_str ScRecovery = ''recovery''"
| "scope_as_str ScCrossPlane = ''cross_plane''"

definition scope_parse :: "rstring \<Rightarrow> (event_store_error, runtime_event_scope) result" where
  "scope_parse v =
    (if v = ''execution_graph'' then Ok ScExecutionGraph
     else if v = ''execution_node'' then Ok ScExecutionNode
     else if v = ''execution_live'' then Ok ScExecutionLive
     else if v = ''program'' then Ok ScProgram
     else if v = ''goal'' then Ok ScGoal
     else if v = ''mission'' then Ok ScMission
     else if v = ''session'' then Ok ScSession
     else if v = ''session_input'' then Ok ScSessionInput
     else if v = ''session_command'' then Ok ScSessionCommand
     else if v = ''team'' then Ok ScTeam
     else if v = ''agent'' then Ok ScAgent
     else if v = ''agent_definition'' then Ok ScAgentDefinition
     else if v = ''approval'' then Ok ScApproval
     else if v = ''evolution'' then Ok ScEvolution
     else if v = ''knowledge'' then Ok ScKnowledge
     else if v = ''relation'' then Ok ScRelation
     else if v = ''steward'' then Ok ScSteward
     else if v = ''task'' then Ok ScTask
     else if v = ''worker'' then Ok ScWorker
     else if v = ''schedule'' then Ok ScSchedule
     else if v = ''managed_agent'' then Ok ScManagedAgent
     else if v = ''skill'' then Ok ScSkill
     else if v = ''tool'' then Ok ScTool
     else if v = ''recovery'' then Ok ScRecovery
     else if v = ''cross_plane'' then Ok ScCrossPlane
     else Err (UnknownScope v))"

section \<open>Activity bindings\<close>

record runtime_activity_binding =
  ab_root_execution_id :: rstring
  ab_session_id :: rstring
  ab_turn_id :: rstring
  ab_root_task_id :: rstring
  ab_task_id :: rstring
  ab_activity_id :: rstring
  ab_node_id :: "rstring option"
  ab_parent_activity_id :: "rstring option"
  ab_initiator_activity_id :: "rstring option"
  ab_team_run_id :: "rstring option"
  ab_agent_instance_id :: "rstring option"
  ab_agent_run_id :: "rstring option"
  ab_skill_id :: "rstring option"
  ab_skill_revision :: "rstring option"
  ab_skill_activation_id :: "rstring option"
  ab_tool_contract_id :: "rstring option"
  ab_tool_call_id :: "rstring option"
  ab_approval_id :: "rstring option"
  ab_parallel_group_id :: "rstring option"
  ab_revision :: nat
  ab_fence :: nat
  ab_generation :: nat

definition ab_validate :: "runtime_activity_binding \<Rightarrow> (rstring, unit) result" where
  "ab_validate b =
    (if is_blank (ab_root_execution_id b) then Err ''root_execution_id must not be empty''
     else if is_blank (ab_activity_id b) then Err ''activity_id must not be empty''
     else if is_blank (ab_session_id b) then Err ''session_id must not be empty''
     else if is_blank (ab_turn_id b) then Err ''turn_id must not be empty''
     else if is_blank (ab_root_task_id b) then Err ''root_task_id must not be empty''
     else if is_blank (ab_task_id b) then Err ''task_id must not be empty''
     else if ab_revision b = 0 then Err ''revision must be positive''
     else if ab_fence b = 0 then Err ''fence must be positive''
     else if ab_generation b = 0 then Err ''generation must be positive''
     else Ok ())"

section \<open>Events and transactions\<close>

record runtime_event_ref =
  ref_kind :: rstring
  ref_id :: rstring

record durable_runtime_event =
  ev_event_id :: rstring
  ev_stream_id :: rstring
  ev_sequence :: nat
  ev_scope :: runtime_event_scope
  ev_kind :: rstring
  ev_status :: "rstring option"
  ev_actor :: "rstring option"
  ev_refs :: "runtime_event_ref list"
  ev_payload :: json
  ev_created_at_ms :: nat
  ev_commit_cursor :: nat
  ev_transaction_id :: rstring
  ev_transaction_index :: nat
  ev_schema_version :: nat
  ev_idempotency_key :: "rstring option"

record runtime_event_input =
  in_stream_id :: rstring
  in_scope :: runtime_event_scope
  in_kind :: rstring
  in_status :: "rstring option"
  in_actor :: "rstring option"
  in_refs :: "runtime_event_ref list"
  in_payload :: json

record runtime_transaction_event_input =
  ti_event :: runtime_event_input
  ti_idempotency_key :: "rstring option"
  ti_schema_version :: nat

definition event_schema_version :: nat where "event_schema_version = 1"
definition max_transaction_events :: nat where "max_transaction_events = 10000"
definition max_transaction_bytes :: nat where "max_transaction_bytes = 32 * 1024 * 1024"

definition ti_from :: "runtime_event_input \<Rightarrow> runtime_transaction_event_input" where
  "ti_from e = \<lparr> ti_event = e, ti_idempotency_key = None, ti_schema_version = event_schema_version \<rparr>"

record expected_stream_revision =
  es_stream_id :: rstring
  es_expected_revision :: nat

record append_transaction_request =
  rq_transaction_id :: rstring
  rq_expected_streams :: "expected_stream_revision list"
  rq_events :: "runtime_transaction_event_input list"

record session_terminal_input =
  st_terminal_id :: rstring
  st_message_id :: rstring
  st_session_id :: rstring
  st_execution_id :: "rstring option"
  st_turn_id :: "rstring option"
  st_request_id :: "rstring option"
  st_session_generation :: "nat option"
  st_input_sequence :: "nat option"
  st_input_claim_owner :: "rstring option"
  st_input_claim_token :: "rstring option"
  st_input_claim_revision :: "nat option"
  st_controlled_recovery_claim_fingerprints :: "rstring list"
  st_payload_ref :: rstring

record committed_stream_revision =
  cs_stream_id :: rstring
  cs_expected_revision :: nat
  cs_committed_revision :: nat

record append_transaction_receipt =
  rcp_commit_cursor :: nat
  rcp_transaction_id :: rstring
  rcp_request_hash :: rstring
  rcp_stream_revisions :: "committed_stream_revision list"
  rcp_event_ids :: "rstring list"
  rcp_duplicate :: bool

record committed_event_batch =
  ceb_commit_cursor :: nat
  ceb_transaction_id :: rstring
  ceb_events :: "durable_runtime_event list"

section \<open>Outbox records and checkpoints\<close>

datatype outbox_failure_class =
  FcRetryable | FcPermanent | FcAuthorizationBlocked | FcCorruptPayload

fun failure_class_as_str :: "outbox_failure_class \<Rightarrow> rstring" where
  "failure_class_as_str FcRetryable = ''retryable''"
| "failure_class_as_str FcPermanent = ''permanent''"
| "failure_class_as_str FcAuthorizationBlocked = ''authorization_blocked''"
| "failure_class_as_str FcCorruptPayload = ''corrupt_payload''"

record session_outbox_record =
  ob_terminal_id :: rstring
  ob_message_id :: rstring
  ob_session_id :: rstring
  ob_commit_cursor :: nat
  ob_payload_ref :: rstring
  ob_execution_id :: "rstring option"
  ob_turn_id :: "rstring option"
  ob_request_id :: "rstring option"
  ob_session_generation :: "nat option"
  ob_input_sequence :: "nat option"
  ob_input_claim_owner :: "rstring option"
  ob_input_claim_token :: "rstring option"
  ob_input_claim_revision :: "nat option"
  ob_status :: rstring
  ob_attempts :: nat
  ob_next_attempt_at_ms :: "nat option"
  ob_claim_owner :: "rstring option"
  ob_claim_expires_at_ms :: "nat option"
  ob_failure_class :: "rstring option"
  ob_last_error :: "rstring option"
  ob_materialized_at_ms :: "nat option"
  ob_revision :: nat

record session_outbox_health =
  oh_pending :: nat
  oh_claimed :: nat
  oh_retry_scheduled :: nat
  oh_materialized :: nat
  oh_blocked :: nat
  oh_suppressed :: nat

record terminal_fence_adoption =
  fa_terminal_id :: rstring
  fa_expected_terminal_revision :: nat
  fa_request_id :: rstring
  fa_session_id :: rstring
  fa_turn_id :: rstring
  fa_session_generation :: nat
  fa_input_sequence :: nat
  fa_claim_owner :: rstring
  fa_claim_token :: rstring
  fa_claim_revision :: nat
  fa_claim_expires_at_ms :: nat
  fa_adopted_at_ms :: nat

record projection_checkpoint =
  pc_projection_id :: rstring
  pc_source_cursor :: nat
  pc_revision :: nat
  pc_payload :: json
  pc_updated_at_ms :: nat

section \<open>Parameters\<close>

record store_env =
  env_request_bytes :: "append_transaction_request \<Rightarrow> nat"
  env_request_hash :: "append_transaction_request \<Rightarrow> session_terminal_input option \<Rightarrow> rstring"
  env_decode_binding :: "json \<Rightarrow> runtime_activity_binding option"

definition activity_binding_from_payload ::
  "store_env \<Rightarrow> json \<Rightarrow> runtime_activity_binding option" where
  "activity_binding_from_payload env payload =
    (case json_get payload ''_runtime_activity_binding'' of
       None \<Rightarrow> None
     | Some v \<Rightarrow> (case env_decode_binding env v of
         None \<Rightarrow> None
       | Some b \<Rightarrow> if is_ok (ab_validate b) then Some b else None))"

section \<open>Validation\<close>

definition validate_decision_lease_claims ::
  "rstring \<Rightarrow> rstring \<Rightarrow> rstring \<Rightarrow> rstring \<Rightarrow> rstring \<Rightarrow> rstring \<Rightarrow> (event_store_error, unit) result" where
  "validate_decision_lease_claims lease_id principal_id review_id action scope evidence_digest =
    (if is_blank lease_id \<or> is_blank principal_id \<or> is_blank review_id \<or> is_blank action
        \<or> is_blank scope \<or> is_blank evidence_digest
     then Err (InvalidTransaction ''decision lease consumption requires non-empty bound claims'')
     else Ok ())"

definition str_or_empty :: "rstring option \<Rightarrow> rstring" where
  "str_or_empty s = (case s of Some v \<Rightarrow> v | None \<Rightarrow> [])"

definition zero_or_none :: "nat option \<Rightarrow> bool" where
  "zero_or_none n = (case n of Some v \<Rightarrow> v = 0 | None \<Rightarrow> True)"

definition validate_fenced_terminal :: "session_terminal_input \<Rightarrow> (event_store_error, unit) result" where
  "validate_fenced_terminal t =
    (if list_ex is_blank [st_terminal_id t, st_message_id t, st_session_id t, st_payload_ref t,
          str_or_empty (st_execution_id t), str_or_empty (st_turn_id t),
          str_or_empty (st_request_id t), str_or_empty (st_input_claim_owner t),
          str_or_empty (st_input_claim_token t)]
        \<or> zero_or_none (st_session_generation t) \<or> st_input_sequence t = None
        \<or> zero_or_none (st_input_claim_revision t)
     then Err (InvalidTransaction
       ''terminal transaction requires complete execution, turn and Session claim fences'')
     else Ok ())"

definition is_agent_activity_event :: "rstring \<Rightarrow> bool" where
  "is_agent_activity_event kind = (kind \<in> set [''agent.prepared'', ''agent.running'',
     ''agent.terminal'', ''agent.cancelled'', ''agent.blocked'', ''agent.blocked_recovery'',
     ''agent.command'', ''agent.command_rejected'', ''agent.recovered'',
     ''agent.execution.started'', ''agent.provider.first_output'', ''agent.acceptance.evaluated''])"

definition requires_activity_binding :: "runtime_event_input \<Rightarrow> bool" where
  "requires_activity_binding e = (case in_scope e of
     ScTool \<Rightarrow> starts_with ''tool.invocation.'' (in_kind e)
   | ScSkill \<Rightarrow> in_kind e = ''skill.activation.selected''
   | ScAgent \<Rightarrow> is_agent_activity_event (in_kind e)
   | ScTeam \<Rightarrow> starts_with ''team.lifecycle.'' (in_kind e)
               \<or> starts_with ''team.execution.'' (in_kind e)
   | ScSession \<Rightarrow> in_kind e = ''model.item_completed''
       \<and> (case json_get (in_payload e) ''kind'' of
            Some v \<Rightarrow> json_as_str v = Some ''public_reasoning'' | None \<Rightarrow> False)
   | _ \<Rightarrow> False)"

definition missing_if :: "rstring \<Rightarrow> rstring option \<Rightarrow> rstring list" where
  "missing_if name v = (case v of Some s \<Rightarrow> if s = [] then [name] else [] | None \<Rightarrow> [name])"

definition missing_identity ::
  "runtime_event_scope \<Rightarrow> runtime_activity_binding \<Rightarrow> rstring list" where
  "missing_identity scope b = (case scope of
     ScTeam \<Rightarrow> missing_if ''node_id'' (ab_node_id b)
       @ missing_if ''parent_activity_id'' (ab_parent_activity_id b)
       @ missing_if ''team_run_id'' (ab_team_run_id b)
   | ScAgent \<Rightarrow> missing_if ''node_id'' (ab_node_id b)
       @ missing_if ''parent_activity_id'' (ab_parent_activity_id b)
       @ missing_if ''agent_instance_id'' (ab_agent_instance_id b)
       @ missing_if ''agent_run_id'' (ab_agent_run_id b)
   | ScSkill \<Rightarrow> missing_if ''parent_activity_id'' (ab_parent_activity_id b)
       @ missing_if ''skill_id'' (ab_skill_id b)
       @ missing_if ''skill_activation_id'' (ab_skill_activation_id b)
   | ScTool \<Rightarrow> missing_if ''parent_activity_id'' (ab_parent_activity_id b)
       @ missing_if ''tool_contract_id'' (ab_tool_contract_id b)
       @ missing_if ''tool_call_id'' (ab_tool_call_id b)
   | _ \<Rightarrow> [])"

definition validate_required_activity_identity ::
  "runtime_event_scope \<Rightarrow> rstring \<Rightarrow> runtime_activity_binding \<Rightarrow> (event_store_error, unit) result" where
  "validate_required_activity_identity scope kind b =
    (let missing = missing_identity scope b in
     if missing = [] then Ok ()
     else Err (InvalidTransaction (''business lifecycle event `'' @ kind
       @ ''` has incomplete RuntimeActivityBinding; missing '' @ join_with '', '' missing)))"

definition validate_event :: "store_env \<Rightarrow> runtime_event_input \<Rightarrow> (event_store_error, unit) result" where
  "validate_event env e =
    (if is_blank (in_stream_id e) then Err (InvalidTransaction ''event stream_id must not be empty'')
     else if is_blank (in_kind e) then Err (InvalidTransaction ''event kind must not be empty'')
     else if requires_activity_binding e
     then (case activity_binding_from_payload env (in_payload e) of
         None \<Rightarrow> Err (InvalidTransaction (''business lifecycle event `'' @ in_kind e
             @ ''` requires RuntimeActivityBinding''))
       | Some b \<Rightarrow> validate_required_activity_identity (in_scope e) (in_kind e) b)
     else Ok ())"

definition check_expected ::
  "rstring sset \<Rightarrow> expected_stream_revision \<Rightarrow> (event_store_error, rstring sset) result" where
  "check_expected seen es =
    (if is_blank (es_stream_id es) \<or> es_stream_id es \<in> set seen
     then Err (InvalidTransaction ''expected streams must be non-empty and unique'')
     else Ok (ss_insert (es_stream_id es) seen))"

definition check_transaction_event ::
  "store_env \<Rightarrow> rstring sset \<Rightarrow> runtime_transaction_event_input \<Rightarrow> (event_store_error, unit) result" where
  "check_transaction_event env expected ti =
    and_then (validate_event env (ti_event ti)) (\<lambda>_.
      if ti_schema_version ti = 0
      then Err (InvalidTransaction ''event schema_version must be positive'')
      else if in_stream_id (ti_event ti) \<notin> set expected
      then Err (InvalidTransaction (''event stream `'' @ in_stream_id (ti_event ti)
        @ ''` has no expected revision''))
      else Ok ())"

definition validate_transaction ::
  "store_env \<Rightarrow> append_transaction_request \<Rightarrow> (event_store_error, unit) result" where
  "validate_transaction env rq =
    (if is_blank (rq_transaction_id rq)
     then Err (InvalidTransaction ''transaction_id must not be empty'')
     else if rq_events rq = [] then Err (InvalidTransaction ''events must not be empty'')
     else if length (rq_events rq) > max_transaction_events
     then Err (InvalidTransaction (''event count exceeds hard limit ''
       @ nat_str max_transaction_events))
     else if env_request_bytes env rq > max_transaction_bytes
     then Err (InvalidTransaction (''serialized transaction exceeds hard limit ''
       @ nat_str max_transaction_bytes @ '' bytes''))
     else and_then (try_fold check_expected [] (rq_expected_streams rq)) (\<lambda>expected.
       try_fold (\<lambda>_. check_transaction_event env expected) () (rq_events rq)))"

section \<open>Facts\<close>

lemma scope_parse_as_str: "scope_parse (scope_as_str s) = Inr s"
  by (cases s) (simp_all add: scope_parse_def)

lemma scope_parse_ok: "scope_parse v = Inr s \<Longrightarrow> v = scope_as_str s"
  unfolding scope_parse_def by (simp split: if_splits)

lemma check_expected_ok:
  "check_expected seen es = Inr seen' \<longleftrightarrow>
     \<not> is_blank (es_stream_id es) \<and> es_stream_id es \<notin> set seen \<and> seen' = ss_insert (es_stream_id es) seen"
  by (auto simp: check_expected_def)

lemma check_expected_fold:
  "try_fold check_expected seen ess = Inr seen' \<Longrightarrow>
     set seen' = set seen \<union> es_stream_id ` set ess \<and> distinct (map es_stream_id ess)
     \<and> (\<forall>es\<in>set ess. es_stream_id es \<notin> set seen)"
proof (induction ess arbitrary: seen)
  case (Cons es ess)
  then have e: "es_stream_id es \<notin> set seen"
    "try_fold check_expected (ss_insert (es_stream_id es) seen) ess = Inr seen'"
    by (auto simp: result_simps check_expected_ok)
  from Cons.IH [OF e(2)] e(1) show ?case by auto
qed simp

text \<open>What a valid transaction has: distinct expected streams, and only events on those.\<close>
lemma validate_transaction_ok:
  assumes "validate_transaction env rq = Inr ()"
  shows "rq_events rq \<noteq> []" "distinct (map es_stream_id (rq_expected_streams rq))"
    "\<forall>ti\<in>set (rq_events rq). in_stream_id (ti_event ti) \<in> es_stream_id ` set (rq_expected_streams rq)"
proof -
  from assms obtain expected where e: "try_fold check_expected [] (rq_expected_streams rq) = Inr expected"
    "try_fold (\<lambda>_. check_transaction_event env expected) () (rq_events rq) = Inr ()"
    "rq_events rq \<noteq> []"
    by (auto simp: validate_transaction_def result_simps split: if_splits)
  note ex = check_expected_fold [OF e(1)]
  show "rq_events rq \<noteq> []" "distinct (map es_stream_id (rq_expected_streams rq))" using e(3) ex by auto
  have "\<forall>ti\<in>set (rq_events rq). check_transaction_event env expected ti = Inr ()"
    using e(2) by (simp add: try_fold_unit)
  then show "\<forall>ti\<in>set (rq_events rq). in_stream_id (ti_event ti) \<in> es_stream_id ` set (rq_expected_streams rq)"
    using ex by (force simp: check_transaction_event_def result_simps split: if_splits)
qed

end
