(* ===== verification/Event_Store.thy ===== *)
theory Event_Store
  imports Event_Types "HOL-Library.Sublist"
begin

text \<open>
  The in-memory event store, runtime/src/recovery/event_store/ephemeral.rs: the transactional
  append with optimistic stream revisions, its idempotent replay, decision leases and the queries
  that the graph components use.  Every operation runs under the store's mutex, so an operation is
  one function on the state.  The random event ids and the wall clock are the arguments \<open>uuids\<close> and
  \<open>now\<close> (indexed by the event's position in the transaction).  An operation that fails returns
  \<open>Err\<close> and leaves the state as it was; where the source mutates before it fails the operation
  returns the state explicitly.
\<close>

record ephemeral_state =
  s_events :: "durable_runtime_event list"
  s_transactions :: "(rstring, append_transaction_receipt) smap"
  s_transaction_hashes :: "(rstring, rstring) smap"
  s_checkpoints :: "(rstring, projection_checkpoint) smap"
  s_consumed_leases :: "rstring sset"
  s_terminals :: "(rstring, session_outbox_record) smap"
  s_next_cursor :: nat

definition empty_store :: ephemeral_state where
  "empty_store = \<lparr> s_events = [], s_transactions = [], s_transaction_hashes = [],
     s_checkpoints = [], s_consumed_leases = [], s_terminals = [], s_next_cursor = 0 \<rparr>"

section \<open>Queries\<close>

definition matching :: "(durable_runtime_event \<Rightarrow> bool) \<Rightarrow> ephemeral_state \<Rightarrow> durable_runtime_event list" where
  "matching predicate st = filter predicate (s_events st)"

definition list_stream :: "ephemeral_state \<Rightarrow> rstring \<Rightarrow> durable_runtime_event list" where
  "list_stream st stream = matching (\<lambda>e. ev_stream_id e = stream) st"

definition stream_revision :: "ephemeral_state \<Rightarrow> rstring \<Rightarrow> nat" where
  "stream_revision st stream = fold max (map ev_sequence (list_stream st stream)) 0"

definition latest_for_stream :: "ephemeral_state \<Rightarrow> rstring \<Rightarrow> durable_runtime_event option" where
  "latest_for_stream st stream = (let v = list_stream st stream in if v = [] then None else Some (last v))"

definition event_by_idempotency_key ::
  "ephemeral_state \<Rightarrow> rstring \<Rightarrow> rstring \<Rightarrow> durable_runtime_event option" where
  "event_by_idempotency_key st stream key =
     find (\<lambda>e. ev_stream_id e = stream \<and> ev_idempotency_key e = Some key) (s_events st)"

definition stream_ids_for_scope_kind_at_sequence ::
  "ephemeral_state \<Rightarrow> runtime_event_scope \<Rightarrow> rstring \<Rightarrow> nat \<Rightarrow> rstring list" where
  "stream_ids_for_scope_kind_at_sequence st scope kind sequence =
     map ev_stream_id (matching (\<lambda>e. ev_scope e = scope \<and> ev_kind e = kind \<and> ev_sequence e = sequence) st)"

definition latest_stream_statuses_for_scope_kind_at_sequence ::
  "ephemeral_state \<Rightarrow> runtime_event_scope \<Rightarrow> rstring \<Rightarrow> nat \<Rightarrow> (rstring \<times> rstring option) list" where
  "latest_stream_statuses_for_scope_kind_at_sequence st scope kind sequence =
     map (\<lambda>i. (i, case latest_for_stream st i of Some e \<Rightarrow> ev_status e | None \<Rightarrow> None))
       (stream_ids_for_scope_kind_at_sequence st scope kind sequence)"

definition group_push ::
  "durable_runtime_event \<Rightarrow> (nat, durable_runtime_event list) smap \<Rightarrow> (nat, durable_runtime_event list) smap" where
  "group_push e m = sm_insert (ev_commit_cursor e)
     ((case sm_get m (ev_commit_cursor e) of Some l \<Rightarrow> l | None \<Rightarrow> []) @ [e]) m"

definition events_after_cursor :: "ephemeral_state \<Rightarrow> nat \<Rightarrow> nat \<Rightarrow> committed_event_batch list" where
  "events_after_cursor st cursor max_commits =
     map (\<lambda>(c, events). \<lparr> ceb_commit_cursor = c, ceb_transaction_id = ev_transaction_id (hd events),
             ceb_events = events \<rparr>)
       (take max_commits (fold group_push (matching (\<lambda>e. ev_commit_cursor e > cursor) st) []))"

section \<open>Appending\<close>

fun append_events ::
  "(nat \<Rightarrow> rstring) \<Rightarrow> (nat \<Rightarrow> nat) \<Rightarrow> nat \<Rightarrow> rstring \<Rightarrow> nat \<Rightarrow> (rstring, nat) smap
   \<Rightarrow> runtime_transaction_event_input list \<Rightarrow> durable_runtime_event list \<times> (rstring, nat) smap" where
  "append_events uuids now cursor tx idx revisions [] = ([], revisions)"
| "append_events uuids now cursor tx idx revisions (input # inputs) =
    (let stream = in_stream_id (ti_event input);
         sequence = (case sm_get revisions stream of Some r \<Rightarrow> r | None \<Rightarrow> 0) + 1;
         event = \<lparr> ev_event_id = ''runtime-event-'' @ uuids idx, ev_stream_id = stream,
           ev_sequence = sequence, ev_scope = in_scope (ti_event input),
           ev_kind = in_kind (ti_event input), ev_status = in_status (ti_event input),
           ev_actor = in_actor (ti_event input), ev_refs = in_refs (ti_event input),
           ev_payload = in_payload (ti_event input), ev_created_at_ms = now idx,
           ev_commit_cursor = cursor, ev_transaction_id = tx, ev_transaction_index = idx,
           ev_schema_version = ti_schema_version input,
           ev_idempotency_key = ti_idempotency_key input \<rparr>;
         (events, revisions') =
           append_events uuids now cursor tx (idx + 1) (sm_insert stream sequence revisions) inputs
     in (event # events, revisions'))"

definition check_stream_revision ::
  "ephemeral_state \<Rightarrow> expected_stream_revision \<Rightarrow> (event_store_error, unit) result" where
  "check_stream_revision st es =
    (let actual = stream_revision st (es_stream_id es) in
     if actual \<noteq> es_expected_revision es
     then Err (StoreStaleRevision (es_stream_id es) (es_expected_revision es) actual) else Ok ())"

definition terminal_record :: "session_terminal_input \<Rightarrow> nat \<Rightarrow> session_outbox_record" where
  "terminal_record t cursor =
    \<lparr> ob_terminal_id = st_terminal_id t, ob_message_id = st_message_id t,
      ob_session_id = st_session_id t, ob_commit_cursor = cursor, ob_payload_ref = st_payload_ref t,
      ob_execution_id = st_execution_id t, ob_turn_id = st_turn_id t,
      ob_request_id = st_request_id t, ob_session_generation = st_session_generation t,
      ob_input_sequence = st_input_sequence t, ob_input_claim_owner = st_input_claim_owner t,
      ob_input_claim_token = st_input_claim_token t,
      ob_input_claim_revision = st_input_claim_revision t, ob_status = ''pending'',
      ob_attempts = 0, ob_next_attempt_at_ms = None, ob_claim_owner = None,
      ob_claim_expires_at_ms = None, ob_failure_class = None, ob_last_error = None,
      ob_materialized_at_ms = None, ob_revision = 1 \<rparr>"

definition commit_request ::
  "store_env \<Rightarrow> (nat \<Rightarrow> rstring) \<Rightarrow> (nat \<Rightarrow> nat) \<Rightarrow> append_transaction_request
   \<Rightarrow> session_terminal_input option \<Rightarrow> ephemeral_state \<Rightarrow> ephemeral_state \<times> append_transaction_receipt" where
  "commit_request env uuids now rq terminal st =
    (let cursor = s_next_cursor st + 1;
         tx = rq_transaction_id rq;
         hash = env_request_hash env rq terminal;
         revisions0 = sm_of_list (map (\<lambda>es. (es_stream_id es, es_expected_revision es))
           (rq_expected_streams rq));
         (events, revisions) = append_events uuids now cursor tx 0 revisions0 (rq_events rq);
         receipt = \<lparr> rcp_commit_cursor = cursor, rcp_transaction_id = tx, rcp_request_hash = hash,
           rcp_stream_revisions = map (\<lambda>es. \<lparr> cs_stream_id = es_stream_id es,
               cs_expected_revision = es_expected_revision es,
               cs_committed_revision = (case sm_get revisions (es_stream_id es) of
                  Some r \<Rightarrow> r | None \<Rightarrow> es_expected_revision es) \<rparr>) (rq_expected_streams rq),
           rcp_event_ids = map ev_event_id events, rcp_duplicate = False \<rparr>
     in (st \<lparr> s_events := s_events st @ events,
              s_terminals := (case terminal of
                 Some t \<Rightarrow> sm_insert (st_terminal_id t) (terminal_record t cursor) (s_terminals st)
               | None \<Rightarrow> s_terminals st),
              s_transactions := sm_insert tx receipt (s_transactions st),
              s_transaction_hashes := sm_insert tx hash (s_transaction_hashes st),
              s_next_cursor := cursor \<rparr>, receipt))"

definition append_inner ::
  "store_env \<Rightarrow> (nat \<Rightarrow> rstring) \<Rightarrow> (nat \<Rightarrow> nat) \<Rightarrow> append_transaction_request
   \<Rightarrow> session_terminal_input option \<Rightarrow> ephemeral_state
   \<Rightarrow> (event_store_error, ephemeral_state \<times> append_transaction_receipt) result" where
  "append_inner env uuids now rq terminal st =
    and_then (validate_transaction env rq) (\<lambda>_.
    and_then (case terminal of Some t \<Rightarrow> validate_fenced_terminal t | None \<Rightarrow> Ok ()) (\<lambda>_.
      (case sm_get (s_transactions st) (rq_transaction_id rq) of
         Some receipt \<Rightarrow>
           if sm_get (s_transaction_hashes st) (rq_transaction_id rq)
              \<noteq> Some (env_request_hash env rq terminal)
           then Err (TransactionConflict (rq_transaction_id rq))
           else Ok (st, receipt \<lparr> rcp_duplicate := True \<rparr>)
       | None \<Rightarrow>
           and_then (try_fold (\<lambda>_. check_stream_revision st) () (rq_expected_streams rq))
             (\<lambda>_. Ok (commit_request env uuids now rq terminal st)))))"

definition append_transaction where
  "append_transaction env uuids now rq st = append_inner env uuids now rq None st"

definition append_transaction_with_terminal where
  "append_transaction_with_terminal env uuids now rq terminal st =
     append_inner env uuids now rq (Some terminal) st"

definition append_batch_if_revision ::
  "store_env \<Rightarrow> (nat \<Rightarrow> rstring) \<Rightarrow> (nat \<Rightarrow> nat) \<Rightarrow> rstring \<Rightarrow> nat \<Rightarrow> rstring
   \<Rightarrow> runtime_transaction_event_input list \<Rightarrow> ephemeral_state
   \<Rightarrow> (event_store_error, ephemeral_state \<times> append_transaction_receipt) result" where
  "append_batch_if_revision env uuids now stream_id expected_revision tx events st =
    append_inner env uuids now \<lparr> rq_transaction_id = tx,
      rq_expected_streams = [\<lparr> es_stream_id = stream_id, es_expected_revision = expected_revision \<rparr>],
      rq_events = events \<rparr> None st"

section \<open>Decision leases\<close>

definition consume_verified_decision_lease ::
  "rstring \<Rightarrow> rstring \<Rightarrow> rstring \<Rightarrow> rstring \<Rightarrow> rstring \<Rightarrow> rstring \<Rightarrow> ephemeral_state
   \<Rightarrow> (event_store_error, ephemeral_state) result" where
  "consume_verified_decision_lease lease_id principal_id review_id action scope evidence_digest st =
    and_then (validate_decision_lease_claims lease_id principal_id review_id action scope evidence_digest)
      (\<lambda>_. if lease_id \<in> set (s_consumed_leases st) then Err (DecisionLeaseAlreadyConsumed lease_id)
           else Ok (st \<lparr> s_consumed_leases := ss_insert lease_id (s_consumed_leases st) \<rparr>))"

text \<open>
  The append is committed before the lease is consumed: the result is the state after the call
  together with what the call returns.
\<close>
definition append_transaction_with_verified_decision_lease ::
  "store_env \<Rightarrow> (nat \<Rightarrow> rstring) \<Rightarrow> (nat \<Rightarrow> nat) \<Rightarrow> append_transaction_request \<Rightarrow> rstring
   \<Rightarrow> ephemeral_state
   \<Rightarrow> ephemeral_state \<times> (event_store_error, append_transaction_receipt) result" where
  "append_transaction_with_verified_decision_lease env uuids now rq lease_id st =
    (case append_inner env uuids now rq None st of
       Inl e \<Rightarrow> (st, Err e)
     | Inr (st', receipt) \<Rightarrow>
         if lease_id \<in> set (s_consumed_leases st')
         then (st', if rcp_duplicate receipt then Ok receipt
                    else Err (DecisionLeaseAlreadyConsumed lease_id))
         else (st' \<lparr> s_consumed_leases := ss_insert lease_id (s_consumed_leases st') \<rparr>, Ok receipt))"

section \<open>The store invariant\<close>

definition event_before :: "durable_runtime_event \<Rightarrow> durable_runtime_event \<Rightarrow> bool" where
  "event_before a b \<longleftrightarrow> ev_commit_cursor a < ev_commit_cursor b
     \<or> ev_commit_cursor a = ev_commit_cursor b \<and> ev_transaction_index a < ev_transaction_index b"

text \<open>
  Streams are gapless, the journal is ordered by commit cursor and position, cursors are issued
  cursors, and the transaction table has the receipt and the hash of each committed transaction.
\<close>
definition store_inv :: "ephemeral_state \<Rightarrow> bool" where
  "store_inv st \<longleftrightarrow>
     (\<forall>s. map ev_sequence (list_stream st s) = [1..<Suc (length (list_stream st s))])
     \<and> sorted_wrt event_before (s_events st)
     \<and> (\<forall>e\<in>set (s_events st). 1 \<le> ev_commit_cursor e \<and> ev_commit_cursor e \<le> s_next_cursor st)
     \<and> sm_wf (s_transactions st) \<and> sm_wf (s_transaction_hashes st)
     \<and> (\<forall>tx. sm_contains (s_transactions st) tx = sm_contains (s_transaction_hashes st) tx)
     \<and> (\<forall>tx r. sm_get (s_transactions st) tx = Some r \<longrightarrow> \<not> rcp_duplicate r
          \<and> rcp_commit_cursor r \<le> s_next_cursor st)
     \<and> sm_wf (s_terminals st) \<and> sm_wf (s_checkpoints st)"

lemma empty_store_inv: "store_inv empty_store"
  by (simp add: store_inv_def empty_store_def list_stream_def matching_def sm_contains_def)

lemma fold_max_upt: "fold max [Suc 0..<Suc n] 0 = n"
  by (induction n) auto

lemma stream_revision_length:
  "store_inv st \<Longrightarrow> stream_revision st s = length (list_stream st s)"
  by (simp add: store_inv_def stream_revision_def fold_max_upt del: upt_Suc)

subsection \<open>The events of one transaction\<close>

definition of_stream :: "rstring \<Rightarrow> runtime_transaction_event_input list \<Rightarrow> runtime_transaction_event_input list" where
  "of_stream s inputs = filter (\<lambda>ti. in_stream_id (ti_event ti) = s) inputs"

definition rev_of :: "(rstring, nat) smap \<Rightarrow> rstring \<Rightarrow> nat" where
  "rev_of m s = (case sm_get m s of Some r \<Rightarrow> r | None \<Rightarrow> 0)"

lemma append_events_props:
  assumes "append_events uuids now cursor tx idx revs inputs = (events, revs')" "sm_wf revs"
  shows "map ev_sequence (filter (\<lambda>e. ev_stream_id e = s) events) =
      [Suc (rev_of revs s)..<Suc (rev_of revs s + length (of_stream s inputs))]
    \<and> rev_of revs' s = rev_of revs s + length (of_stream s inputs)
    \<and> (sm_get revs s \<noteq> None \<longrightarrow> sm_get revs' s \<noteq> None)
    \<and> length events = length inputs \<and> sorted_wrt event_before events
    \<and> (\<forall>e\<in>set events. ev_commit_cursor e = cursor \<and> ev_transaction_id e = tx
          \<and> idx \<le> ev_transaction_index e)"
  using assms
proof (induction inputs arbitrary: idx revs events)
  case Nil
  then show ?case by (simp add: of_stream_def)
next
  case (Cons input inputs)
  let ?s = "in_stream_id (ti_event input)"
  obtain es where es: "append_events uuids now cursor tx (idx + 1)
      (sm_insert ?s (rev_of revs ?s + 1) revs) inputs = (es, revs')"
    and ev: "\<exists>e. events = e # es \<and> ev_sequence e = rev_of revs ?s + 1 \<and> ev_stream_id e = ?s
      \<and> ev_commit_cursor e = cursor \<and> ev_transaction_id e = tx \<and> ev_transaction_index e = idx"
    using Cons.prems(1) by (auto simp: Let_def rev_of_def split: prod.splits)
  then obtain e where e: "events = e # es" "ev_sequence e = rev_of revs ?s + 1" "ev_stream_id e = ?s"
    "ev_commit_cursor e = cursor" "ev_transaction_id e = tx" "ev_transaction_index e = idx" by blast
  have ins: "rev_of (sm_insert ?s (rev_of revs ?s + 1) revs) s =
      (if s = ?s then rev_of revs s + 1 else rev_of revs s)"
    using Cons.prems(2) by (simp add: rev_of_def)
  note IH = Cons.IH [OF es] Cons.prems(2)
  have upt: "[Suc (Suc r)..<Suc (Suc r + n)] = tl [Suc r..<Suc (r + Suc n)]" for r n
    by (simp add: upt_conv_Cons del: upt_Suc)
  show ?case
  proof (cases "s = ?s")
    case True
    then show ?thesis using IH e ins
      by (auto simp: of_stream_def event_before_def upt_conv_Cons Cons.prems(2) simp del: upt_Suc)
  next
    case False
    then show ?thesis using IH e ins
      by (auto simp: of_stream_def event_before_def Cons.prems(2) simp del: upt_Suc)
  qed
qed

subsection \<open>Commits\<close>

lemma check_revisions_ok:
  "try_fold (\<lambda>_. check_stream_revision st) () ess = Inr u \<longleftrightarrow>
     (\<forall>es\<in>set ess. stream_revision st (es_stream_id es) = es_expected_revision es)"
  by (auto simp: try_fold_unit check_stream_revision_def Let_def)

lemma expected_rev:
  assumes "distinct (map es_stream_id ess)" "es \<in> set ess"
  shows "sm_get (sm_of_list (map (\<lambda>es. (es_stream_id es, es_expected_revision es)) ess)) (es_stream_id es)
    = Some (es_expected_revision es)"
proof -
  let ?kvs = "map (\<lambda>es. (es_stream_id es, es_expected_revision es)) ess"
  have d: "distinct (map fst ?kvs)" using assms(1) by (simp add: comp_def)
  have "map_of ?kvs (es_stream_id es) = Some (es_expected_revision es)"
    using assms(2) d by (force intro!: map_of_is_SomeI)
  then show ?thesis by (simp add: sm_get_of_list map_of_rev_distinct_keys [OF d])
qed

text \<open>The three outcomes of an append that does not fail\<close>
lemma append_inner_ok:
  assumes "append_inner env uuids now rq t st = Inr (st', rc)"
  shows "validate_transaction env rq = Inr ()"
    and "(\<exists>r. sm_get (s_transactions st) (rq_transaction_id rq) = Some r
        \<and> sm_get (s_transaction_hashes st) (rq_transaction_id rq) = Some (env_request_hash env rq t)
        \<and> st' = st \<and> rc = r \<lparr> rcp_duplicate := True \<rparr>)
      \<or> (sm_get (s_transactions st) (rq_transaction_id rq) = None
        \<and> (\<forall>es\<in>set (rq_expected_streams rq).
             stream_revision st (es_stream_id es) = es_expected_revision es)
        \<and> (st', rc) = commit_request env uuids now rq t st)"
  using assms
  by (auto simp: append_inner_def result_simps check_revisions_ok split: option.splits if_splits)

definition new_events ::
  "store_env \<Rightarrow> (nat \<Rightarrow> rstring) \<Rightarrow> (nat \<Rightarrow> nat) \<Rightarrow> append_transaction_request \<Rightarrow> ephemeral_state
   \<Rightarrow> durable_runtime_event list" where
  "new_events env uuids now rq st =
     fst (append_events uuids now (s_next_cursor st + 1) (rq_transaction_id rq) 0
       (sm_of_list (map (\<lambda>es. (es_stream_id es, es_expected_revision es)) (rq_expected_streams rq)))
       (rq_events rq))"

lemma commit_request_fields:
  assumes "(st', rc) = commit_request env uuids now rq t st"
  shows "s_events st' = s_events st @ new_events env uuids now rq st"
    "s_next_cursor st' = s_next_cursor st + 1"
    "s_transactions st' = sm_insert (rq_transaction_id rq) rc (s_transactions st)"
    "s_transaction_hashes st' =
       sm_insert (rq_transaction_id rq) (env_request_hash env rq t) (s_transaction_hashes st)"
    "\<not> rcp_duplicate rc" "rcp_commit_cursor rc = s_next_cursor st + 1"
    "rcp_event_ids rc = map ev_event_id (new_events env uuids now rq st)"
    "s_checkpoints st' = s_checkpoints st" "s_consumed_leases st' = s_consumed_leases st"
    "s_terminals st' = (case t of
       Some t \<Rightarrow> sm_insert (st_terminal_id t) (terminal_record t (Suc (s_next_cursor st))) (s_terminals st)
     | None \<Rightarrow> s_terminals st)"
  using assms by (auto simp: commit_request_def Let_def new_events_def split: prod.splits option.splits)

lemma new_events_props:
  assumes "validate_transaction env rq = Inr ()"
    and "\<forall>es\<in>set (rq_expected_streams rq). stream_revision st (es_stream_id es) = es_expected_revision es"
    and "store_inv st"
  shows "map ev_sequence (filter (\<lambda>e. ev_stream_id e = s) (new_events env uuids now rq st)) =
      [Suc (stream_revision st s)..<Suc (stream_revision st s + length (of_stream s (rq_events rq)))]"
    "sorted_wrt event_before (new_events env uuids now rq st)"
    "\<forall>e\<in>set (new_events env uuids now rq st). ev_commit_cursor e = s_next_cursor st + 1
        \<and> ev_transaction_id e = rq_transaction_id rq"
    "length (new_events env uuids now rq st) = length (rq_events rq)"
proof -
  let ?r0 = "sm_of_list (map (\<lambda>es. (es_stream_id es, es_expected_revision es)) (rq_expected_streams rq))"
  define revs' where "revs' = snd (append_events uuids now (s_next_cursor st + 1)
      (rq_transaction_id rq) 0 ?r0 (rq_events rq))"
  have ae: "append_events uuids now (s_next_cursor st + 1) (rq_transaction_id rq) 0 ?r0
      (rq_events rq) = (new_events env uuids now rq st, revs')"
    by (simp add: new_events_def revs'_def)
  note P = append_events_props [OF ae sm_wf_of_list]
  note v = validate_transaction_ok [OF assms(1)]
  show "sorted_wrt event_before (new_events env uuids now rq st)"
    "\<forall>e\<in>set (new_events env uuids now rq st). ev_commit_cursor e = s_next_cursor st + 1
        \<and> ev_transaction_id e = rq_transaction_id rq"
    "length (new_events env uuids now rq st) = length (rq_events rq)" using P by blast+
  show "map ev_sequence (filter (\<lambda>e. ev_stream_id e = s) (new_events env uuids now rq st)) =
      [Suc (stream_revision st s)..<Suc (stream_revision st s + length (of_stream s (rq_events rq)))]"
  proof (cases "s \<in> es_stream_id ` set (rq_expected_streams rq)")
    case True
    then have "rev_of ?r0 s = stream_revision st s"
      using expected_rev [OF v(2)] assms(2) by (auto simp: rev_of_def)
    then show ?thesis using P [of s] by simp
  next
    case False
    then have "of_stream s (rq_events rq) = []" using v(3) by (auto simp: of_stream_def filter_empty_conv)
    then show ?thesis using P [of s] by simp
  qed
qed

lemma list_stream_append:
  "s_events st' = s_events st @ es \<Longrightarrow>
   list_stream st' s = list_stream st s @ filter (\<lambda>e. ev_stream_id e = s) es"
  by (simp add: list_stream_def matching_def)

lemma commit_request_inv:
  assumes "store_inv st" "validate_transaction env rq = Inr ()"
    and "\<forall>es\<in>set (rq_expected_streams rq). stream_revision st (es_stream_id es) = es_expected_revision es"
    and "(st', rc) = commit_request env uuids now rq t st"
  shows "store_inv st'"
proof -
  note C = commit_request_fields [OF assms(4)]
  note N = new_events_props [OF assms(2,3,1), where uuids = uuids and now = now]
  let ?new = "new_events env uuids now rq st"
  have seqs: "map ev_sequence (list_stream st' s) = [1..<Suc (length (list_stream st' s))]" for s
  proof -
    let ?n = "length (list_stream st s)" and ?k = "length (filter (\<lambda>e. ev_stream_id e = s) ?new)"
    have k: "?k = length (of_stream s (rq_events rq))"
      using arg_cong [OF N(1) [of s], of length] by (simp del: upt_Suc)
    have "map ev_sequence (list_stream st' s) = [1..<Suc ?n] @ [Suc ?n..<Suc (?n + ?k)]"
      using assms(1) N(1) [of s] stream_revision_length [OF assms(1), of s] k
      by (simp add: list_stream_append [OF C(1)] store_inv_def del: upt_Suc)
    also have "\<dots> = [1..<Suc (?n + ?k)]"
      by (metis One_nat_def Suc_le_mono add_Suc le_add1 upt_add_eq_append zero_le)
    finally show ?thesis by (simp add: list_stream_append [OF C(1)] del: upt_Suc)
  qed
  have "sorted_wrt event_before (s_events st')"
    using assms(1) N(2,3) by (auto simp: C(1) sorted_wrt_append store_inv_def event_before_def)
  moreover have "\<forall>e\<in>set (s_events st'). 1 \<le> ev_commit_cursor e \<and> ev_commit_cursor e \<le> s_next_cursor st'"
    using assms(1) N(3) by (auto simp: C(1,2) store_inv_def)
  moreover have "\<forall>tx r. sm_get (s_transactions st') tx = Some r \<longrightarrow> \<not> rcp_duplicate r
      \<and> rcp_commit_cursor r \<le> s_next_cursor st'"
    using assms(1) C(5,6) by (auto simp: C(2,3) store_inv_def le_Suc_eq)
  ultimately show ?thesis
    using assms(1) seqs unfolding store_inv_def C(3,4,8,10)
    by (auto simp: sm_contains_get split: option.splits)
qed

lemma append_inner_inv:
  assumes "store_inv st" "append_inner env uuids now rq t st = Inr (st', rc)"
  shows "store_inv st'"
  using append_inner_ok [OF assms(2)] commit_request_inv [OF assms(1)] assms(1) by blast

lemma new_events_of_stream:
  assumes "validate_transaction env rq = Inr ()" "store_inv st"
    and "\<forall>es\<in>set (rq_expected_streams rq). stream_revision st (es_stream_id es) = es_expected_revision es"
  shows "length (filter (\<lambda>e. ev_stream_id e = s) (new_events env uuids now rq st)) =
    length (of_stream s (rq_events rq))"
  using arg_cong [OF new_events_props(1) [OF assms(1,3,2), of s], of length] by (simp del: upt_Suc)

text \<open>The receipt reports the revision each expected stream has after the commit.\<close>
lemma commit_request_revisions:
  assumes "store_inv st" "validate_transaction env rq = Inr ()"
    and "\<forall>es\<in>set (rq_expected_streams rq). stream_revision st (es_stream_id es) = es_expected_revision es"
    and "(st', rc) = commit_request env uuids now rq t st"
  shows "map (\<lambda>cs. (cs_stream_id cs, cs_committed_revision cs)) (rcp_stream_revisions rc) =
    map (\<lambda>es. (es_stream_id es, stream_revision st' (es_stream_id es))) (rq_expected_streams rq)"
proof -
  let ?r0 = "sm_of_list (map (\<lambda>es. (es_stream_id es, es_expected_revision es)) (rq_expected_streams rq))"
  obtain events revs where ae: "append_events uuids now (s_next_cursor st + 1) (rq_transaction_id rq) 0
      ?r0 (rq_events rq) = (events, revs)" by (meson surj_pair)
  have rc: "rcp_stream_revisions rc = map (\<lambda>es. \<lparr> cs_stream_id = es_stream_id es,
      cs_expected_revision = es_expected_revision es,
      cs_committed_revision = (case sm_get revs (es_stream_id es) of
        Some r \<Rightarrow> r | None \<Rightarrow> es_expected_revision es) \<rparr>) (rq_expected_streams rq)"
    using assms(4) ae by (simp add: commit_request_def Let_def)
  have "(case sm_get revs (es_stream_id es) of Some r \<Rightarrow> r | None \<Rightarrow> es_expected_revision es) =
      stream_revision st' (es_stream_id es)" if "es \<in> set (rq_expected_streams rq)" for es
  proof -
    let ?s = "es_stream_id es"
    have r0: "sm_get ?r0 ?s = Some (stream_revision st ?s)"
      using expected_rev [OF validate_transaction_ok(2) [OF assms(2)] that] assms(3) that by simp
    then have "rev_of revs ?s = stream_revision st ?s + length (of_stream ?s (rq_events rq))"
      "sm_get revs ?s \<noteq> None"
      using append_events_props [OF ae sm_wf_of_list, of ?s] by (auto simp: rev_of_def)
    moreover have "stream_revision st' ?s = stream_revision st ?s + length (of_stream ?s (rq_events rq))"
      using stream_revision_length [OF commit_request_inv [OF assms]] stream_revision_length [OF assms(1)]
        new_events_of_stream [OF assms(2,1,3)]
      by (simp add: list_stream_append [OF commit_request_fields(1) [OF assms(4)]])
    ultimately show ?thesis by (auto simp: rev_of_def)
  qed
  then show ?thesis by (simp add: rc)
qed

lemma append_inner_stream:
  assumes "store_inv st" "append_inner env uuids now rq t st = Inr (st', rc)" "\<not> rcp_duplicate rc"
  shows "list_stream st' s = list_stream st s @
      filter (\<lambda>e. ev_stream_id e = s) (new_events env uuids now rq st)"
    "stream_revision st' s = stream_revision st s + length (of_stream s (rq_events rq))"
    "(st', rc) = commit_request env uuids now rq t st"
proof -
  have c: "(st', rc) = commit_request env uuids now rq t st"
    and e: "\<forall>es\<in>set (rq_expected_streams rq). stream_revision st (es_stream_id es) = es_expected_revision es"
    using append_inner_ok(2) [OF assms(2)] assms(3) by auto
  then show "(st', rc) = commit_request env uuids now rq t st" by simp
  show l: "list_stream st' s = list_stream st s @
      filter (\<lambda>e. ev_stream_id e = s) (new_events env uuids now rq st)"
    by (rule list_stream_append [OF commit_request_fields(1) [OF c]])
  show "stream_revision st' s = stream_revision st s + length (of_stream s (rq_events rq))"
    using new_events_of_stream [OF append_inner_ok(1) [OF assms(2)] assms(1) e]
      stream_revision_length [OF assms(1)] stream_revision_length [OF append_inner_inv [OF assms(1,2)]]
    by (simp add: l)
qed

section \<open>Reading the journal by cursor\<close>

lemma group_push_fold:
  assumes "sm_wf m"
  shows "sm_wf (fold group_push es m)"
    "sm_get (fold group_push es m) c =
      (let l = (case sm_get m c of Some l \<Rightarrow> l | None \<Rightarrow> []) @ filter (\<lambda>e. ev_commit_cursor e = c) es
       in if sm_get m c = None \<and> l = [] then None else Some l)"
  using assms
  by (induction es arbitrary: m) (auto simp: group_push_def Let_def split: option.splits)

lemma group_push_fold_eq:
  "fold group_push es [] =
     map (\<lambda>c. (c, filter (\<lambda>e. ev_commit_cursor e = c) es)) (ss_of_list (map ev_commit_cursor es))"
proof (rule sm_wf_ext)
  let ?ks = "ss_of_list (map ev_commit_cursor es)" and ?f = "\<lambda>c. filter (\<lambda>e. ev_commit_cursor e = c) es"
  show "sm_wf (map (\<lambda>c. (c, ?f c)) ?ks)"
    using ss_wf_of_list [of "map ev_commit_cursor es"] by (simp add: sm_wf_def ss_wf_def comp_def)
  show "sm_get (fold group_push es []) c = sm_get (map (\<lambda>c. (c, ?f c)) ?ks) c" for c
  proof -
    have "sm_get (map (\<lambda>c. (c, ?f c)) ?ks) c = (if c \<in> set ?ks then Some (?f c) else None)"
      by (simp add: sm_get_def map_of_map_restrict restrict_map_def)
    moreover have "c \<in> set ?ks \<longleftrightarrow> ?f c \<noteq> []" by (auto simp: filter_empty_conv)
    ultimately show ?thesis by (auto simp: group_push_fold(2) Let_def)
  qed
qed (simp add: group_push_fold)

text \<open>The groups of a sorted journal, in key order, are the journal.\<close>
lemma concat_groups:
  assumes "sorted (map f es)" "sorted_wrt (<) (ks :: nat list)"
  shows "concat (map (\<lambda>c. filter (\<lambda>e. f e = c) es) ks) = filter (\<lambda>e. f e \<in> set ks) es"
  using assms(2)
proof (induction ks)
  case (Cons k ks)
  have s: "filter (\<lambda>e. f e = k) es @ filter (\<lambda>e. f e \<in> set ks) es = filter (\<lambda>e. f e = k \<or> f e \<in> set ks) es"
    if "sorted (map f es)" "\<forall>k'\<in>set ks. k < k'" for es
    using that
  proof (induction es)
    case (Cons e es)
    show ?case
    proof (cases "f e = k")
      case False
      then have "f e \<in> set ks \<Longrightarrow> filter (\<lambda>x. f x = k) es = []"
        using Cons.prems by (fastforce simp: filter_empty_conv)
      then show ?thesis using Cons False by auto
    qed (use Cons in auto)
  qed simp
  show ?case using Cons s [OF assms(1)] by simp
qed simp

lemma store_inv_sorted_cursors: "store_inv st \<Longrightarrow> sorted (map ev_commit_cursor (s_events st))"
  unfolding store_inv_def sorted_map by (auto simp: event_before_def elim!: sorted_wrt_mono_rel [rotated])

lemma events_after_cursor_groups:
  fixes st :: ephemeral_state and cursor n :: nat
  assumes "store_inv st"
  defines "es \<equiv> filter (\<lambda>e. cursor < ev_commit_cursor e) (s_events st)"
  defines "ks \<equiv> take n (ss_of_list (map ev_commit_cursor es))"
  shows "map ceb_commit_cursor (events_after_cursor st cursor n) = ks"
    "map ceb_events (events_after_cursor st cursor n) = map (\<lambda>c. filter (\<lambda>e. ev_commit_cursor e = c) es) ks"
    "concat (map ceb_events (events_after_cursor st cursor n)) = filter (\<lambda>e. ev_commit_cursor e \<in> set ks) es"
proof -
  have e: "events_after_cursor st cursor n = map (\<lambda>(c, events). \<lparr> ceb_commit_cursor = c,
      ceb_transaction_id = ev_transaction_id (hd events), ceb_events = events \<rparr>)
      (map (\<lambda>c. (c, filter (\<lambda>e. ev_commit_cursor e = c) es)) ks)"
    by (simp add: events_after_cursor_def matching_def es_def [symmetric] group_push_fold_eq ks_def take_map)
  show "map ceb_commit_cursor (events_after_cursor st cursor n) = ks"
    by (simp add: e comp_def)
  show g: "map ceb_events (events_after_cursor st cursor n) =
      map (\<lambda>c. filter (\<lambda>e. ev_commit_cursor e = c) es) ks" by (simp add: e comp_def)
  have "sorted (map ev_commit_cursor es)"
    using store_inv_sorted_cursors [OF assms(1)] unfolding es_def by (rule sorted_filter)
  moreover have "sorted_wrt (<) ks"
    using ss_wf_of_list [of "map ev_commit_cursor es"] by (simp add: ks_def ss_wf_def sorted_wrt_take)
  ultimately show "concat (map ceb_events (events_after_cursor st cursor n)) =
      filter (\<lambda>e. ev_commit_cursor e \<in> set ks) es" unfolding g by (rule concat_groups)
qed

lemma filter_sorted_split:
  assumes "sorted (map f xs)"
  shows "filter (\<lambda>e. f e \<le> (c :: nat)) xs @ filter (\<lambda>e. \<not> f e \<le> c) xs = xs"
  using assms
proof (induction xs)
  case (Cons a xs)
  show ?case
  proof (cases "f a \<le> c")
    case False
    then have "\<forall>x\<in>set xs. \<not> f x \<le> c" using Cons.prems by auto
    then show ?thesis using False by simp
  qed (use Cons in simp)
qed simp

lemma sorted_last_max: "sorted ys \<Longrightarrow> x \<in> set ys \<Longrightarrow> (x :: nat) \<le> last ys"
  by (induction ys) auto

lemma take_sorted_mem:
  assumes "sorted_wrt (<) xs" "take n xs \<noteq> []" "x \<in> set xs"
  shows "x \<in> set (take n xs) \<longleftrightarrow> x \<le> last (take n (xs :: nat list))"
proof
  assume "x \<in> set (take n xs)"
  moreover have "sorted (take n xs)"
    using assms(1) by (simp add: strict_sorted_imp_sorted sorted_wrt_take)
  ultimately show "x \<le> last (take n xs)" by (rule sorted_last_max [rotated])
next
  assume le: "x \<le> last (take n xs)"
  show "x \<in> set (take n xs)"
  proof (rule ccontr)
    assume "x \<notin> set (take n xs)"
    then have "x \<in> set (drop n xs)" using assms(3) set_append [of "take n xs" "drop n xs"] by simp
    moreover have "\<forall>a\<in>set (take n xs). \<forall>b\<in>set (drop n xs). a < b"
      using assms(1) sorted_wrt_append [of "(<)" "take n xs" "drop n xs"] by simp
    ultimately show False using le last_in_set [OF assms(2)] by fastforce
  qed
qed

lemma events_after_cursor_upto:
  assumes "store_inv st" "events_after_cursor st cursor n = page" "page \<noteq> []"
  shows "concat (map ceb_events page) = filter (\<lambda>e. cursor < ev_commit_cursor e
      \<and> ev_commit_cursor e \<le> ceb_commit_cursor (last page)) (s_events st)"
    "cursor < ceb_commit_cursor (last page)"
proof -
  let ?es = "filter (\<lambda>e. cursor < ev_commit_cursor e) (s_events st)"
  let ?all = "ss_of_list (map ev_commit_cursor ?es)"
  note G = events_after_cursor_groups [OF assms(1), of cursor n, unfolded assms(2)]
  have ne: "take n ?all \<noteq> []" using G(1) assms(3) by (metis map_is_Nil_conv)
  have lst: "ceb_commit_cursor (last page) = last (take n ?all)"
    using G(1) assms(3) by (metis last_map)
  have mem: "ev_commit_cursor e \<in> set (take n ?all) \<longleftrightarrow> ev_commit_cursor e \<le> last (take n ?all)"
    if "e \<in> set ?es" for e
    using take_sorted_mem [OF _ ne, of "ev_commit_cursor e"] ss_wf_of_list [of "map ev_commit_cursor ?es"] that
    by (auto simp: ss_wf_def)
  show "concat (map ceb_events page) = filter (\<lambda>e. cursor < ev_commit_cursor e
      \<and> ev_commit_cursor e \<le> ceb_commit_cursor (last page)) (s_events st)"
    unfolding G(3) lst filter_filter using mem by (intro filter_cong) auto
  show "cursor < ceb_commit_cursor (last page)"
    unfolding lst using last_in_set [OF ne] in_set_takeD by fastforce
qed

text \<open>
  A reader that asks for the commits after its cursor and moves its cursor to the last commit it
  got has read a prefix of what was left, and what is left is what follows.
\<close>
lemma events_after_cursor_page:
  assumes "store_inv st" "events_after_cursor st cursor n = page" "page \<noteq> []"
  shows "filter (\<lambda>e. cursor < ev_commit_cursor e) (s_events st) =
    concat (map ceb_events page) @
      filter (\<lambda>e. ceb_commit_cursor (last page) < ev_commit_cursor e) (s_events st)"
proof -
  let ?es = "filter (\<lambda>e. cursor < ev_commit_cursor e) (s_events st)" and ?c = "ceb_commit_cursor (last page)"
  note u = events_after_cursor_upto [OF assms]
  have p: "concat (map ceb_events page) = filter (\<lambda>e. ev_commit_cursor e \<le> ?c) ?es"
    unfolding u(1) filter_filter by (intro filter_cong) auto
  have r: "filter (\<lambda>e. ?c < ev_commit_cursor e) (s_events st) = filter (\<lambda>e. \<not> ev_commit_cursor e \<le> ?c) ?es"
    unfolding filter_filter using u(2) by (intro filter_cong) auto
  have "sorted (map ev_commit_cursor ?es)"
    by (rule sorted_filter [OF store_inv_sorted_cursors [OF assms(1)]])
  from filter_sorted_split [OF this, of ?c] show ?thesis unfolding p r by (rule sym)
qed

lemma events_after_cursor_eq_Nil:
  assumes "store_inv st" "0 < n"
  shows "events_after_cursor st cursor n = [] \<longleftrightarrow> (\<forall>e\<in>set (s_events st). ev_commit_cursor e \<le> cursor)"
proof -
  let ?es = "filter (\<lambda>e. cursor < ev_commit_cursor e) (s_events st)"
  have "events_after_cursor st cursor n = [] \<longleftrightarrow> ss_of_list (map ev_commit_cursor ?es) = []"
    using arg_cong [OF events_after_cursor_groups(1) [OF assms(1), of cursor n], of "\<lambda>l. l = []"] assms(2)
    by simp
  also have "\<dots> \<longleftrightarrow> set (ss_of_list (map ev_commit_cursor ?es)) = {}" by (simp only: set_empty)
  also have "\<dots> \<longleftrightarrow> ?es = []" by (simp only: set_ss_of_list) (auto simp: filter_empty_conv)
  finally show ?thesis by (auto simp: filter_empty_conv not_less)
qed

lemma take_events_after_cursor:
  "take k (events_after_cursor st cursor n) = events_after_cursor st cursor (min k n)"
  by (simp add: events_after_cursor_def take_map)

section \<open>Properties\<close>

text \<open>Sample requests: one event on one stream, with the transaction id as the request hash\<close>
definition sample_env :: store_env where
  "sample_env = \<lparr> env_request_bytes = (\<lambda>_. 0), env_request_hash = (\<lambda>rq _. rq_transaction_id rq),
     env_decode_binding = (\<lambda>_. None) \<rparr>"

definition sample_input :: "rstring \<Rightarrow> runtime_transaction_event_input" where
  "sample_input s = ti_from \<lparr> in_stream_id = s, in_scope = ScExecutionGraph, in_kind = ''k'',
     in_status = None, in_actor = None, in_refs = [], in_payload = JNull \<rparr>"

definition sample_request :: "rstring \<Rightarrow> nat \<Rightarrow> append_transaction_request" where
  "sample_request tx r = \<lparr> rq_transaction_id = tx, rq_expected_streams =
     [\<lparr> es_stream_id = ''s'', es_expected_revision = r \<rparr>], rq_events = [sample_input ''s''] \<rparr>"

lemma sample_not_blank: "\<not> is_blank ''s''" "\<not> is_blank ''a''" "\<not> is_blank ''b''" "\<not> is_blank ''k''"
  by code_simp+

lemmas sample_simps = append_inner_def validate_transaction_def sample_request_def sample_env_def
  sample_input_def max_transaction_events_def max_transaction_bytes_def check_expected_def
  check_transaction_event_def validate_event_def ti_from_def requires_activity_binding_def
  sample_not_blank check_stream_revision_def event_schema_version_def stream_revision_def
  list_stream_def matching_def empty_store_def

abbreviation sample_append where
  "sample_append tx r st \<equiv> append_inner sample_env (\<lambda>_. ''u'') (\<lambda>_. 0) (sample_request tx r) None st"

definition sample_store :: ephemeral_state where
  "sample_store = fst (commit_request sample_env (\<lambda>_. ''u'') (\<lambda>_. 0) (sample_request ''a'' 0) None empty_store)"

definition sample_receipt :: append_transaction_receipt where
  "sample_receipt = snd (commit_request sample_env (\<lambda>_. ''u'') (\<lambda>_. 0) (sample_request ''a'' 0) None empty_store)"

lemma sample_append_ok: "sample_append ''a'' 0 empty_store = Inr (sample_store, sample_receipt)"
  "\<not> rcp_duplicate sample_receipt" "store_inv sample_store"
proof -
  show a: "sample_append ''a'' 0 empty_store = Inr (sample_store, sample_receipt)"
    by (simp add: sample_store_def sample_receipt_def) (simp add: sample_simps)
  have c: "(sample_store, sample_receipt) =
      commit_request sample_env (\<lambda>_. ''u'') (\<lambda>_. 0) (sample_request ''a'' 0) None empty_store"
    by (simp add: sample_store_def sample_receipt_def)
  show "\<not> rcp_duplicate sample_receipt" by (rule commit_request_fields(5) [OF c])
  show "store_inv sample_store" by (rule append_inner_inv [OF empty_store_inv a])
qed





text \<open>
  An append under a decision lease that was already consumed is refused after the append has
  been committed: the caller gets \<open>DecisionLeaseAlreadyConsumed\<close> and the store has the events.
\<close>
theorem lease_append_refused_but_committed:
  assumes "append_inner env uuids now rq None st = Inr (st', rc)" "\<not> rcp_duplicate rc"
    and "lease_id \<in> set (s_consumed_leases st)"
  shows "append_transaction_with_verified_decision_lease env uuids now rq lease_id st =
      (st', Inl (DecisionLeaseAlreadyConsumed lease_id))
    \<and> s_events st' = s_events st @ new_events env uuids now rq st"
proof -
  have c: "(st', rc) = commit_request env uuids now rq None st"
    using append_inner_ok(2) [OF assms(1)] assms(2) by auto
  show ?thesis using commit_request_fields(1,9) [OF c] assms
    by (simp add: append_transaction_with_verified_decision_lease_def)
qed

theorem lease_append_refused_but_committed_witness:
  "\<exists>st'. append_transaction_with_verified_decision_lease sample_env (\<lambda>_. ''u'') (\<lambda>_. 0)
      (sample_request ''a'' 0) ''lease'' (empty_store \<lparr> s_consumed_leases := [''lease''] \<rparr>) =
      (st', Inl (DecisionLeaseAlreadyConsumed ''lease'')) \<and> length (s_events st') = 1"
proof -
  let ?st = "empty_store \<lparr> s_consumed_leases := [''lease''] \<rparr>"
  let ?c = "commit_request sample_env (\<lambda>_. ''u'') (\<lambda>_. 0) (sample_request ''a'' 0) None ?st"
  have a: "sample_append ''a'' 0 ?st = Inr (fst ?c, snd ?c)" by (simp add: sample_simps)
  have d: "\<not> rcp_duplicate (snd ?c)" by (rule commit_request_fields(5) [of "fst ?c"]) simp
  have n: "length (new_events sample_env (\<lambda>_. ''u'') (\<lambda>_. 0) (sample_request ''a'' 0) ?st) = 1"
    by (simp add: new_events_def sample_request_def Let_def)
  show ?thesis using lease_append_refused_but_committed [OF a d, of "''lease''"] n
    by (simp add: empty_store_def)
qed

end
