(* ===== verification/Versioned_Log.thy ===== *)
theory Versioned_Log
  imports Prelude "HOL-Library.Sublist"
begin

text \<open>
  What the graph components rely on when they use the event store: streams that only grow, and
  commits that succeed only at the revision the writer has read.  The laws are the assumptions of
  the locale \<open>cas_log\<close>; the consequences for a reader that replays a stream and for two writers
  that race are proved here once, and Event_Store interprets the locale on the store's operations.
\<close>

locale cas_log =
  fixes inv :: "'st \<Rightarrow> bool"
    and stream :: "'st \<Rightarrow> 'k \<Rightarrow> 'ev list"
    and revision :: "'st \<Rightarrow> 'k \<Rightarrow> nat"
    and step :: "'st \<Rightarrow> 'st \<Rightarrow> bool"
    and commits :: "'st \<Rightarrow> ('k \<times> nat) list \<Rightarrow> ('k \<Rightarrow> 'ev list) \<Rightarrow> 'st \<Rightarrow> bool"
  assumes inv_step: "inv st \<Longrightarrow> step st st' \<Longrightarrow> inv st'"
    and step_prefix: "inv st \<Longrightarrow> step st st' \<Longrightarrow> prefix (stream st k) (stream st' k)"
    and revision_length: "inv st \<Longrightarrow> revision st k = length (stream st k)"
    and commits_step: "commits st ex new st' \<Longrightarrow> step st st'"
    and commits_expected: "inv st \<Longrightarrow> commits st ex new st' \<Longrightarrow> (k, r) \<in> set ex \<Longrightarrow> revision st k = r"
    and commits_stream: "inv st \<Longrightarrow> commits st ex new st' \<Longrightarrow> stream st' k = stream st k @ new k"
begin

lemma evolves_inv_prefix:
  assumes "step\<^sup>*\<^sup>* st st'" "inv st"
  shows "inv st'" "prefix (stream st k) (stream st' k)"
proof -
  have "inv st' \<and> prefix (stream st k) (stream st' k)"
    using assms(1)
  proof (induction rule: rtranclp_induct)
    case (step y z)
    then show ?case using inv_step [of y z] step_prefix [of y z k] by auto
  qed (use assms(2) in simp)
  then show "inv st'" "prefix (stream st k) (stream st' k)" by auto
qed

lemma evolves_revision_mono:
  assumes "step\<^sup>*\<^sup>* st st'" "inv st"
  shows "revision st k \<le> revision st' k"
  using evolves_inv_prefix [OF assms] assms(2) by (simp add: revision_length prefix_length_le)

text \<open>Two writers that read the same revision of a stream: at most one of them commits.\<close>
lemma second_writer_refused:
  assumes "inv st" "commits st ex new st1" "step\<^sup>*\<^sup>* st1 st2" "(k, r) \<in> set ex" "new k \<noteq> []"
    and "(k, r) \<in> set ex'"
  shows "\<not> commits st2 ex' new' st3"
proof
  assume c: "commits st2 ex' new' st3"
  have i: "inv st1" "inv st2" using inv_step [OF assms(1) commits_step [OF assms(2)]] evolves_inv_prefix assms(3) by blast+
  have "revision st k < revision st1 k"
    using assms(1,5) i(1) commits_stream [OF assms(1,2)] by (simp add: revision_length)
  also have "\<dots> \<le> revision st2 k" by (rule evolves_revision_mono [OF assms(3) i(1)])
  finally show False
    using commits_expected [OF assms(1,2,4)] commits_expected [OF i(2) c assms(6)] by simp
qed

text \<open>A replay can resume from what it has read: the rest of the stream is applied to its state.\<close>
lemma replay_resumes:
  assumes "step\<^sup>*\<^sup>* st st'" "inv st"
  shows "foldl f a (stream st' k) = foldl f (foldl f a (stream st k)) (drop (revision st k) (stream st' k))"
proof -
  obtain zs where "stream st' k = stream st k @ zs" using evolves_inv_prefix [OF assms] by (meson prefixE)
  then show ?thesis by (simp add: revision_length assms(2))
qed

end

end
