(* ===== verification/Event_Outbox.thy ===== *)
theory Event_Outbox
  imports Event_Store Versioned_Log
begin

text \<open>
  The rest of the in-memory event store, runtime/src/recovery/event_store/ephemeral.rs: projection
  checkpoints with compare-and-put, the session terminal outbox with its claims and fences, and the
  step relation of the whole store, one step per call that changes state.  The store is shown to be
  a \<open>cas_log\<close> under those steps.
\<close>

section \<open>Projection checkpoints\<close>

definition checkpoint_revision :: "ephemeral_state \<Rightarrow> rstring \<Rightarrow> nat" where
  "checkpoint_revision st i =
    (case sm_get (s_checkpoints st) i of Some v \<Rightarrow> pc_revision v | None \<Rightarrow> 0)"

definition projection_checkpoint_of :: "ephemeral_state \<Rightarrow> rstring \<Rightarrow> projection_checkpoint option" where
  "projection_checkpoint_of st i = sm_get (s_checkpoints st) i"

definition projection_checkpoints_with_prefix :: "ephemeral_state \<Rightarrow> rstring \<Rightarrow> projection_checkpoint list" where
  "projection_checkpoints_with_prefix st p =
     filter (\<lambda>v. starts_with p (pc_projection_id v)) (sm_values (s_checkpoints st))"

definition compare_and_put_projection_checkpoint ::
  "rstring \<Rightarrow> nat \<Rightarrow> nat \<Rightarrow> json \<Rightarrow> nat \<Rightarrow> ephemeral_state
   \<Rightarrow> (event_store_error, ephemeral_state \<times> projection_checkpoint) result" where
  "compare_and_put_projection_checkpoint i cursor expected payload at st =
    (let actual = checkpoint_revision st i;
         val = \<lparr> pc_projection_id = i, pc_source_cursor = cursor, pc_revision = actual + 1,
           pc_payload = payload, pc_updated_at_ms = at \<rparr>;
         put = (st \<lparr> s_checkpoints := sm_insert i val (s_checkpoints st) \<rparr>, val) in
     if actual \<noteq> expected then Err (StoreStaleRevision i expected actual)
     else (case sm_get (s_checkpoints st) i of
         Some current \<Rightarrow>
           if cursor < pc_source_cursor current
           then Err (StoreStaleRevision (''projection-source:'' @ i) cursor (pc_source_cursor current))
           else if cursor = pc_source_cursor current \<and> pc_payload current = payload
           then Ok (st, current)
           else Ok put
       | None \<Rightarrow> Ok put))"

definition put_projection_checkpoint ::
  "rstring \<Rightarrow> nat \<Rightarrow> json \<Rightarrow> nat \<Rightarrow> ephemeral_state
   \<Rightarrow> (event_store_error, ephemeral_state \<times> projection_checkpoint) result" where
  "put_projection_checkpoint i cursor payload at st =
     compare_and_put_projection_checkpoint i cursor (checkpoint_revision st i) payload at st"

definition compare_and_repair_projection_checkpoint ::
  "rstring \<Rightarrow> nat \<Rightarrow> nat \<Rightarrow> json \<Rightarrow> nat \<Rightarrow> ephemeral_state
   \<Rightarrow> (event_store_error, ephemeral_state \<times> projection_checkpoint) result" where
  "compare_and_repair_projection_checkpoint i cursor expected payload at st =
    (let actual = checkpoint_revision st i;
         val = \<lparr> pc_projection_id = i, pc_source_cursor = cursor, pc_revision = actual + 1,
           pc_payload = payload, pc_updated_at_ms = at \<rparr> in
     if actual = 0 \<or> actual \<noteq> expected then Err (StoreStaleRevision i expected actual)
     else Ok (st \<lparr> s_checkpoints := sm_insert i val (s_checkpoints st) \<rparr>, val))"

definition delete_projection_checkpoint :: "rstring \<Rightarrow> ephemeral_state \<Rightarrow> ephemeral_state \<times> bool" where
  "delete_projection_checkpoint i st =
     (st \<lparr> s_checkpoints := sm_remove i (s_checkpoints st) \<rparr>, sm_contains (s_checkpoints st) i)"

section \<open>The session terminal outbox\<close>

definition enqueue_session_terminal ::
  "rstring \<Rightarrow> rstring \<Rightarrow> rstring \<Rightarrow> nat \<Rightarrow> rstring \<Rightarrow> ephemeral_state
   \<Rightarrow> ephemeral_state \<times> session_outbox_record" where
  "enqueue_session_terminal i message session cursor payload st =
    (case sm_get (s_terminals st) i of
       Some v \<Rightarrow> (st, v)
     | None \<Rightarrow>
       let v = \<lparr> ob_terminal_id = i, ob_message_id = message, ob_session_id = session,
         ob_commit_cursor = cursor, ob_payload_ref = payload, ob_execution_id = None,
         ob_turn_id = None, ob_request_id = None, ob_session_generation = None,
         ob_input_sequence = None, ob_input_claim_owner = None, ob_input_claim_token = None,
         ob_input_claim_revision = None, ob_status = ''pending'', ob_attempts = 0,
         ob_next_attempt_at_ms = None, ob_claim_owner = None, ob_claim_expires_at_ms = None,
         ob_failure_class = None, ob_last_error = None, ob_materialized_at_ms = None,
         ob_revision = 1 \<rparr>
       in (st \<lparr> s_terminals := sm_insert i v (s_terminals st) \<rparr>, v))"

definition claimable :: "session_outbox_record \<Rightarrow> bool" where
  "claimable v \<longleftrightarrow> ob_status v = ''pending'' \<or> ob_status v = ''retry_scheduled''"

definition claim_record :: "rstring \<Rightarrow> nat \<Rightarrow> session_outbox_record \<Rightarrow> session_outbox_record" where
  "claim_record worker expires v = v \<lparr> ob_status := ''claimed'', ob_claim_owner := Some worker,
     ob_claim_expires_at_ms := Some expires, ob_attempts := ob_attempts v + 1,
     ob_revision := ob_revision v + 1 \<rparr>"

text \<open>The loop over \<open>values_mut().filter(..).take(limit)\<close>\<close>
fun claim_loop ::
  "rstring \<Rightarrow> nat \<Rightarrow> nat \<Rightarrow> (rstring, session_outbox_record) smap
   \<Rightarrow> (rstring, session_outbox_record) smap \<times> session_outbox_record list" where
  "claim_loop worker expires limit [] = ([], [])"
| "claim_loop worker expires limit ((k, v) # m) =
    (if 0 < limit \<and> claimable v
     then let v' = claim_record worker expires v; (m', out) = claim_loop worker expires (limit - 1) m
          in ((k, v') # m', v' # out)
     else let (m', out) = claim_loop worker expires limit m in ((k, v) # m', out))"

definition claim_session_terminals ::
  "rstring \<Rightarrow> nat \<Rightarrow> nat \<Rightarrow> nat \<Rightarrow> ephemeral_state \<Rightarrow> ephemeral_state \<times> session_outbox_record list" where
  "claim_session_terminals worker now lease limit st =
    (let (m, out) = claim_loop worker (now + lease) limit (s_terminals st)
     in (st \<lparr> s_terminals := m \<rparr>, out))"

definition has_unsettled_session_terminals :: "ephemeral_state \<Rightarrow> rstring \<Rightarrow> bool" where
  "has_unsettled_session_terminals st session =
     list_ex (\<lambda>v. ob_session_id v = session \<and> ob_status v \<notin> set [''materialized'', ''suppressed''])
       (sm_values (s_terminals st))"

definition materialized_session_terminals_after ::
  "ephemeral_state \<Rightarrow> rstring \<Rightarrow> nat \<Rightarrow> nat \<Rightarrow> session_outbox_record list" where
  "materialized_session_terminals_after st session cursor limit =
     take limit (filter (\<lambda>v. ob_session_id v = session \<and> ob_status v = ''materialized''
       \<and> cursor < ob_commit_cursor v) (sm_values (s_terminals st)))"

definition health_step :: "session_outbox_health \<Rightarrow> session_outbox_record \<Rightarrow> session_outbox_health" where
  "health_step h v =
    (if ob_status v = ''pending'' then h \<lparr> oh_pending := oh_pending h + 1 \<rparr>
     else if ob_status v = ''claimed'' then h \<lparr> oh_claimed := oh_claimed h + 1 \<rparr>
     else if ob_status v = ''retry_scheduled'' then h \<lparr> oh_retry_scheduled := oh_retry_scheduled h + 1 \<rparr>
     else if ob_status v = ''materialized'' then h \<lparr> oh_materialized := oh_materialized h + 1 \<rparr>
     else if ob_status v = ''suppressed'' then h \<lparr> oh_suppressed := oh_suppressed h + 1 \<rparr>
     else h \<lparr> oh_blocked := oh_blocked h + 1 \<rparr>)"

definition session_terminal_health :: "ephemeral_state \<Rightarrow> session_outbox_health" where
  "session_terminal_health st = foldl health_step \<lparr> oh_pending = 0, oh_claimed = 0,
     oh_retry_scheduled = 0, oh_materialized = 0, oh_blocked = 0, oh_suppressed = 0 \<rparr>
     (sm_values (s_terminals st))"

definition blocked_session_terminals :: "ephemeral_state \<Rightarrow> nat \<Rightarrow> session_outbox_record list" where
  "blocked_session_terminals st limit =
     take limit (filter (\<lambda>v. ob_status v \<in> set [''blocked'', ''authorization_blocked'', ''corrupt_payload''])
       (sm_values (s_terminals st)))"

definition mutate_terminal ::
  "rstring \<Rightarrow> rstring option \<Rightarrow> nat option \<Rightarrow> (session_outbox_record \<Rightarrow> session_outbox_record)
   \<Rightarrow> ephemeral_state \<Rightarrow> (event_store_error, ephemeral_state \<times> session_outbox_record) result" where
  "mutate_terminal i worker revision change st =
    (case sm_get (s_terminals st) i of
       None \<Rightarrow> Err (Corrupt (''terminal `'' @ i @ ''` not found''))
     | Some v \<Rightarrow>
         if (case revision of Some r \<Rightarrow> r \<noteq> ob_revision v | None \<Rightarrow> False)
            \<or> (case worker of Some w \<Rightarrow> ob_claim_owner v \<noteq> Some w | None \<Rightarrow> False)
         then Err (StoreStaleRevision i (case revision of Some r \<Rightarrow> r | None \<Rightarrow> ob_revision v) (ob_revision v))
         else let v' = change v; v'' = v' \<lparr> ob_revision := ob_revision v' + 1 \<rparr>
              in Ok (st \<lparr> s_terminals := sm_insert i v'' (s_terminals st) \<rparr>, v''))"

definition retry_session_terminal where
  "retry_session_terminal i (actor :: rstring) reason now st =
     mutate_terminal i None None (\<lambda>v. v \<lparr> ob_status := ''retry_scheduled'',
       ob_next_attempt_at_ms := Some now, ob_last_error := Some reason \<rparr>) st"

definition adopt_session_terminal_fence where
  "adopt_session_terminal_fence r st =
     mutate_terminal (fa_terminal_id r) None (Some (fa_expected_terminal_revision r))
       (\<lambda>v. v \<lparr> ob_request_id := Some (fa_request_id r), ob_turn_id := Some (fa_turn_id r),
          ob_session_generation := Some (fa_session_generation r),
          ob_input_sequence := Some (fa_input_sequence r),
          ob_input_claim_owner := Some (fa_claim_owner r),
          ob_input_claim_token := Some (fa_claim_token r),
          ob_input_claim_revision := Some (fa_claim_revision r) \<rparr>) st"

definition ack_session_terminal where
  "ack_session_terminal i worker revision now st =
     mutate_terminal i (Some worker) (Some revision) (\<lambda>v. v \<lparr> ob_status := ''materialized'',
       ob_materialized_at_ms := Some now, ob_claim_owner := None, ob_claim_expires_at_ms := None \<rparr>) st"

definition suppress_session_terminal where
  "suppress_session_terminal i worker revision reason (now :: nat) st =
     mutate_terminal i (Some worker) (Some revision)
       (\<lambda>v. v \<lparr> ob_status := ''suppressed'', ob_last_error := Some reason \<rparr>) st"

definition fail_change where
  "fail_change cls err retry mx v =
    (let v1 = v \<lparr> ob_failure_class := Some (failure_class_as_str cls), ob_last_error := Some err \<rparr> in
     if cls = FcRetryable \<and> ob_attempts v1 < mx
     then v1 \<lparr> ob_status := ''retry_scheduled'', ob_next_attempt_at_ms := Some retry \<rparr>
     else v1 \<lparr> ob_status := ''blocked'' \<rparr>)"

definition fail_session_terminal where
  "fail_session_terminal i worker revision cls err retry mx (now :: nat) st =
     mutate_terminal i (Some worker) (Some revision) (fail_change cls err retry mx) st"

section \<open>Steps of the store\<close>

text \<open>One constructor per call of the backend that can change the state\<close>
inductive store_step :: "store_env \<Rightarrow> ephemeral_state \<Rightarrow> ephemeral_state \<Rightarrow> bool" for env where
  append: "append_inner env uuids now rq t st = Inr (st', rc) \<Longrightarrow> store_step env st st'"
| lease_append: "append_transaction_with_verified_decision_lease env uuids now rq lease st = (st', r)
    \<Longrightarrow> store_step env st st'"
| lease: "consume_verified_decision_lease a b c d e f st = Inr st' \<Longrightarrow> store_step env st st'"
| checkpoint: "compare_and_put_projection_checkpoint i cursor expected payload at st = Inr (st', v)
    \<Longrightarrow> store_step env st st'"
| repair: "compare_and_repair_projection_checkpoint i cursor expected payload at st = Inr (st', v)
    \<Longrightarrow> store_step env st st'"
| delete: "delete_projection_checkpoint i st = (st', b) \<Longrightarrow> store_step env st st'"
| enqueue: "enqueue_session_terminal i message session cursor pref st = (st', v) \<Longrightarrow> store_step env st st'"
| claim: "claim_session_terminals worker now lease limit st = (st', out) \<Longrightarrow> store_step env st st'"
| mutate: "mutate_terminal i w r change st = Inr (st', v) \<Longrightarrow> store_step env st st'"

inductive_cases store_stepE: "store_step env st st'"

lemma claim_loop_keys: "map fst (fst (claim_loop w x n m)) = map fst m"
  by (induction w x n m rule: claim_loop.induct) (auto simp: Let_def split: prod.splits)

text \<open>What every call leaves of the journal: it is untouched, or one transaction is appended.\<close>
definition journal_kept :: "ephemeral_state \<Rightarrow> ephemeral_state \<Rightarrow> bool" where
  "journal_kept st st' \<longleftrightarrow> s_events st' = s_events st \<and> s_transactions st' = s_transactions st
     \<and> s_transaction_hashes st' = s_transaction_hashes st \<and> s_next_cursor st' = s_next_cursor st
     \<and> (sm_wf (s_terminals st) \<longrightarrow> sm_wf (s_terminals st'))
     \<and> (sm_wf (s_checkpoints st) \<longrightarrow> sm_wf (s_checkpoints st'))"

lemma journal_kept_inv: "journal_kept st st' \<Longrightarrow> store_inv st \<Longrightarrow> store_inv st'"
  by (simp add: journal_kept_def store_inv_def list_stream_def matching_def)

lemma journal_kept_stream: "journal_kept st st' \<Longrightarrow> list_stream st' k = list_stream st k"
  by (simp add: journal_kept_def list_stream_def matching_def)

lemma journal_kept_lease:
  "consume_verified_decision_lease a b c d e f st = Inr st' \<Longrightarrow> journal_kept st st'"
  by (auto simp: consume_verified_decision_lease_def result_simps journal_kept_def split: if_splits)

lemma journal_kept_checkpoint:
  "compare_and_put_projection_checkpoint i cursor expected payload at st = Inr (st', v) \<Longrightarrow> journal_kept st st'"
  "compare_and_repair_projection_checkpoint i cursor expected payload at st = Inr (st', v) \<Longrightarrow> journal_kept st st'"
  "delete_projection_checkpoint i st = (st', b) \<Longrightarrow> journal_kept st st'"
  by (auto simp: compare_and_put_projection_checkpoint_def compare_and_repair_projection_checkpoint_def
      delete_projection_checkpoint_def Let_def journal_kept_def split: if_splits option.splits)

lemma journal_kept_outbox:
  "enqueue_session_terminal i message session cursor pref st = (st', v) \<Longrightarrow> journal_kept st st'"
  "claim_session_terminals worker now lease limit st = (st', out) \<Longrightarrow> journal_kept st st'"
  "mutate_terminal i w r change st = Inr (st', v) \<Longrightarrow> journal_kept st st'"
proof -
  show "claim_session_terminals worker now lease limit st = (st', out) \<Longrightarrow> journal_kept st st'"
    using claim_loop_keys [of worker "now + lease" limit "s_terminals st"]
    by (auto simp: claim_session_terminals_def Let_def journal_kept_def sm_wf_def split: prod.splits)
qed (auto simp: enqueue_session_terminal_def mutate_terminal_def Let_def journal_kept_def
    split: if_splits option.splits)

text \<open>Each step keeps the journal or is one successful append followed by a step that keeps it.\<close>
lemma store_step_cases:
  assumes "store_step env st st'"
  obtains (kept) "journal_kept st st'"
  | (appended) uuids now rq t st1 rc where
      "append_inner env uuids now rq t st = Inr (st1, rc)" "journal_kept st1 st'"
  using assms
proof (cases rule: store_step.cases)
  case (append uuids now rq t rc)
  then show ?thesis using appended by (simp add: journal_kept_def)
next
  case (lease_append uuids now rq lease r)
  show ?thesis
  proof (cases "append_inner env uuids now rq None st")
    case (Inr p)
    obtain st1 rc where p: "p = (st1, rc)" by fastforce
    then have "journal_kept st1 st'" using lease_append Inr
      by (auto simp: append_transaction_with_verified_decision_lease_def journal_kept_def split: if_splits)
    then show ?thesis using appended Inr p by blast
  qed (use lease_append kept in \<open>simp add: append_transaction_with_verified_decision_lease_def journal_kept_def\<close>)
qed (rule kept, erule journal_kept_lease journal_kept_checkpoint journal_kept_outbox)+

lemma store_step_inv:
  assumes "store_step env st st'" "store_inv st"
  shows "store_inv st'"
  using assms(1)
  by (cases rule: store_step_cases) (use assms(2) append_inner_inv journal_kept_inv in blast)+

lemma append_inner_prefix:
  assumes "append_inner env uuids now rq t st = Inr (st', rc)" "store_inv st"
  shows "prefix (list_stream st k) (list_stream st' k)"
  using append_inner_ok(2) [OF assms(1)] list_stream_append [OF commit_request_fields(1)] by auto

lemma store_step_prefix:
  assumes "store_step env st st'" "store_inv st"
  shows "prefix (list_stream st k) (list_stream st' k)"
  using assms(1)
  by (cases rule: store_step_cases)
    (use assms(2) append_inner_prefix journal_kept_stream in \<open>metis prefix_order.order_refl\<close>)+

text \<open>A call of \<open>append_inner\<close> that commits a new transaction\<close>
definition store_commits ::
  "store_env \<Rightarrow> ephemeral_state \<Rightarrow> (rstring \<times> nat) list
   \<Rightarrow> (rstring \<Rightarrow> durable_runtime_event list) \<Rightarrow> ephemeral_state \<Rightarrow> bool" where
  "store_commits env st ex new st' \<longleftrightarrow>
    (\<exists>uuids now rq t rc. append_inner env uuids now rq t st = Inr (st', rc) \<and> \<not> rcp_duplicate rc
      \<and> ex = map (\<lambda>es. (es_stream_id es, es_expected_revision es)) (rq_expected_streams rq)
      \<and> new = (\<lambda>s. filter (\<lambda>e. ev_stream_id e = s) (new_events env uuids now rq st)))"


lemma store_commitsI:
  assumes "append_inner env uuids now rq t st = Inr (st', rc)" "\<not> rcp_duplicate rc"
  shows "store_commits env st (map (\<lambda>es. (es_stream_id es, es_expected_revision es)) (rq_expected_streams rq))
    (\<lambda>s. filter (\<lambda>e. ev_stream_id e = s) (new_events env uuids now rq st)) st'"
  unfolding store_commits_def using assms by blast

interpretation store_log: cas_log store_inv list_stream stream_revision "store_step env" "store_commits env" for env
proof
  fix st st' k r ex and new :: "rstring \<Rightarrow> durable_runtime_event list"
  {
    assume i: "store_inv st"
    show "stream_revision st k = length (list_stream st k)" by (rule stream_revision_length [OF i])
    show "store_step env st st' \<Longrightarrow> store_inv st'" by (rule store_step_inv [OF _ i])
    show "store_step env st st' \<Longrightarrow> prefix (list_stream st k) (list_stream st' k)"
      by (rule store_step_prefix [OF _ i])
    assume "store_commits env st ex new st'"
    then obtain uuids now rq t rc where a: "append_inner env uuids now rq t st = Inr (st', rc)"
        "\<not> rcp_duplicate rc"
      and e: "ex = map (\<lambda>es. (es_stream_id es, es_expected_revision es)) (rq_expected_streams rq)"
        "new = (\<lambda>s. filter (\<lambda>e. ev_stream_id e = s) (new_events env uuids now rq st))"
      by (auto simp: store_commits_def)
    show "list_stream st' k = list_stream st k @ new k" unfolding e by (rule append_inner_stream [OF i a])
    show "(k, r) \<in> set ex \<Longrightarrow> stream_revision st k = r"
      using append_inner_ok(2) [OF a(1)] a(2) by (auto simp: e)
  }
  show "store_commits env st ex new st' \<Longrightarrow> store_step env st st'"
    by (auto simp: store_commits_def intro: store_step.append)
qed

section \<open>Properties\<close>

text \<open>
  C12: no lost update.  A writer commits events to a stream at the revision it has read; whatever
  is committed afterwards, another transaction that expects that same revision is refused.
\<close>
theorem append_stale_writer_refused:
  assumes "store_inv st" "append_inner env uuids now rq t st = Inr (st1, rc)" "\<not> rcp_duplicate rc"
    and "(store_step env)\<^sup>*\<^sup>* st1 st2"
    and "es \<in> set (rq_expected_streams rq)" "of_stream (es_stream_id es) (rq_events rq) \<noteq> []"
    and "es \<in> set (rq_expected_streams rq')" "sm_get (s_transactions st2) (rq_transaction_id rq') = None"
  shows "\<exists>e. append_inner env uuids' now' rq' t' st2 = Inl e"
proof (cases "append_inner env uuids' now' rq' t' st2")
  case (Inr r)
  then obtain st3 rc' where a: "append_inner env uuids' now' rq' t' st2 = Inr (st3, rc')"
    by (metis surj_pair)
  let ?k = "es_stream_id es" and ?r = "es_expected_revision es"
  have "\<not> rcp_duplicate rc'" using append_inner_ok(2) [OF a] assms(8) commit_request_fields(5) by auto
  note c' = store_commitsI [OF a this]
  note c = store_commitsI [OF assms(2,3)]
  have "length (list_stream st1 ?k) = length (list_stream st ?k) + length (of_stream ?k (rq_events rq))"
    using append_inner_stream(2) [OF assms(1,2,3), of ?k] append_inner_inv [OF assms(1,2)] assms(1)
    by (simp add: stream_revision_length)
  then have new: "filter (\<lambda>e. ev_stream_id e = ?k) (new_events env uuids now rq st) \<noteq> []"
    using append_inner_stream(1) [OF assms(1,2,3), of ?k] assms(6) by auto
  show ?thesis
    using store_log.second_writer_refused [OF assms(1) c assms(4) _ new, of ?r] c' assms(5,7) by force
qed simp

theorem append_stale_writer_refused_witness:
  "\<exists>e. sample_append ''b'' 0 sample_store = Inl e"
proof -
  have "sm_get (s_transactions sample_store) ''b'' = None"
    by (simp add: sample_store_def commit_request_def Let_def sample_request_def empty_store_def
      sample_input_def ti_from_def sm_get_def)
  then show ?thesis
    by (intro append_stale_writer_refused [OF empty_store_inv sample_append_ok(1,2) rtranclp.rtrancl_refl])
      (simp_all add: sample_request_def of_stream_def sample_input_def ti_from_def)
qed

subsection \<open>Replays of a transaction\<close>

lemma append_inner_keeps_transaction:
  assumes "append_inner env uuids now rq t st = Inr (st', rc)" "store_inv st"
    and "sm_get (s_transactions st) tx = Some r"
  shows "sm_get (s_transactions st') tx = Some r
    \<and> sm_get (s_transaction_hashes st') tx = sm_get (s_transaction_hashes st) tx"
  using append_inner_ok(2) [OF assms(1)] assms(2,3) commit_request_fields(3,4)
  by (auto simp: store_inv_def)

lemma store_step_keeps_transaction:
  assumes "store_step env st st'" "store_inv st" "sm_get (s_transactions st) tx = Some r"
  shows "sm_get (s_transactions st') tx = Some r
    \<and> sm_get (s_transaction_hashes st') tx = sm_get (s_transaction_hashes st) tx"
  using assms(1)
  by (cases rule: store_step_cases)
    (use append_inner_keeps_transaction assms(2,3) in \<open>fastforce simp: journal_kept_def\<close>)+

lemma store_run_keeps_transaction:
  assumes "(store_step env)\<^sup>*\<^sup>* st st'" "store_inv st" "sm_get (s_transactions st) tx = Some r"
  shows "sm_get (s_transactions st') tx = Some r
    \<and> sm_get (s_transaction_hashes st') tx = sm_get (s_transaction_hashes st) tx"
  using assms(1)
proof (induction rule: rtranclp_induct)
  case (step y z)
  have "store_inv y" by (rule store_log.evolves_inv_prefix(1) [OF step.hyps(1) assms(2)])
  then show ?case using store_step_keeps_transaction [OF step.hyps(2), of tx r] step.IH by simp
qed (use assms(3) in simp)

text \<open>
  C15: a committed transaction can be submitted again at any later time: the call succeeds, changes
  nothing and returns the first receipt marked as a duplicate; the same transaction id with another
  request is refused as a conflict.
\<close>
theorem append_retry_idempotent:
  assumes "store_inv st" "append_inner env uuids now rq t st = Inr (st1, rc)" "\<not> rcp_duplicate rc"
    and "(store_step env)\<^sup>*\<^sup>* st1 st2"
  shows "append_inner env uuids' now' rq t st2 = Inr (st2, rc \<lparr> rcp_duplicate := True \<rparr>)
    \<and> (rq_transaction_id rq' = rq_transaction_id rq \<and> validate_transaction env rq' = Inr ()
        \<and> env_request_hash env rq' None \<noteq> env_request_hash env rq t
      \<longrightarrow> append_inner env uuids' now' rq' None st2 = Inl (TransactionConflict (rq_transaction_id rq)))"
proof -
  note c = append_inner_stream(3) [OF assms(1-3)]
  have wf: "sm_wf (s_transactions st)" "sm_wf (s_transaction_hashes st)"
    using assms(1) by (auto simp: store_inv_def)
  have "sm_get (s_transactions st1) (rq_transaction_id rq) = Some rc"
    "sm_get (s_transaction_hashes st1) (rq_transaction_id rq) = Some (env_request_hash env rq t)"
    using commit_request_fields(3,4) [OF c] wf by auto
  then have g: "sm_get (s_transactions st2) (rq_transaction_id rq) = Some rc"
    "sm_get (s_transaction_hashes st2) (rq_transaction_id rq) = Some (env_request_hash env rq t)"
    using store_run_keeps_transaction [OF assms(4) append_inner_inv [OF assms(1,2)]] by auto
  have "\<exists>u. (case t of Some t \<Rightarrow> validate_fenced_terminal t | None \<Rightarrow> Ok ()) = Inr u"
    using assms(2) by (auto simp: append_inner_def result_simps)
  then show ?thesis using g append_inner_ok(1) [OF assms(2)] by (auto simp: append_inner_def)
qed

theorem append_retry_idempotent_witness:
  "sample_append ''a'' 0 sample_store = Inr (sample_store, sample_receipt \<lparr> rcp_duplicate := True \<rparr>)"
  using append_retry_idempotent [OF empty_store_inv sample_append_ok(1,2) rtranclp.rtrancl_refl,
      of "\<lambda>_. ''u''" "\<lambda>_. 0" "sample_request ''a'' 0"] by blast

text \<open>
  C24: whatever calls reach the store, every stream is gapless from 1, the journal is ordered by
  commit cursor and position, and no event of a stream is ever rewritten or removed.
\<close>
theorem store_reachable_inv:
  assumes "(store_step env)\<^sup>*\<^sup>* empty_store st" "(store_step env)\<^sup>*\<^sup>* st st'"
  shows "store_inv st' \<and> prefix (list_stream st k) (list_stream st' k)
    \<and> stream_revision st' k = length (list_stream st' k)"
proof -
  have i: "store_inv st" by (rule store_log.evolves_inv_prefix(1) [OF assms(1) empty_store_inv])
  show ?thesis using store_log.evolves_inv_prefix [OF assms(2) i] stream_revision_length by blast
qed

theorem store_reachable_inv_witness:
  "store_inv sample_store \<and> prefix (list_stream empty_store ''s'') (list_stream sample_store ''s'')
    \<and> stream_revision sample_store ''s'' = length (list_stream sample_store ''s'')"
proof -
  have "store_step sample_env empty_store sample_store" by (rule store_step.append [OF sample_append_ok(1)])
  then have "(store_step sample_env)\<^sup>*\<^sup>* empty_store sample_store" by (rule r_into_rtranclp)
  then show ?thesis by (rule store_reachable_inv [OF rtranclp.rtrancl_refl])
qed

subsection \<open>Checkpoints\<close>

text \<open>
  C29: a projection checkpoint is a compare-and-swap register with a monotone source cursor.  The
  put succeeds exactly when the caller has the current revision and does not move the source cursor
  back; then the stored checkpoint has the caller's cursor and payload, and its revision grows
  unless nothing changes.
\<close>
theorem checkpoint_put_compare_and_swap:
  assumes "sm_wf (s_checkpoints st)"
  shows "case compare_and_put_projection_checkpoint i cursor expected payload at st of
      Inr (st', v) \<Rightarrow> expected = checkpoint_revision st i \<and> sm_get (s_checkpoints st') i = Some v
        \<and> pc_source_cursor v = cursor \<and> pc_payload v = payload
        \<and> (case sm_get (s_checkpoints st) i of None \<Rightarrow> pc_revision v = 1
           | Some old \<Rightarrow> pc_source_cursor old \<le> cursor
               \<and> (v = old \<or> pc_revision v = Suc (pc_revision old)))
        \<and> (\<forall>j. j \<noteq> i \<longrightarrow> sm_get (s_checkpoints st') j = sm_get (s_checkpoints st) j)
    | Inl e \<Rightarrow> expected \<noteq> checkpoint_revision st i
        \<or> (\<exists>old. sm_get (s_checkpoints st) i = Some old \<and> cursor < pc_source_cursor old)"
  using assms
  by (auto simp: compare_and_put_projection_checkpoint_def checkpoint_revision_def Let_def
      split: option.splits)

definition sample_checkpoint :: projection_checkpoint where
  "sample_checkpoint = \<lparr> pc_projection_id = ''p'', pc_source_cursor = 4, pc_revision = 1,
     pc_payload = JNull, pc_updated_at_ms = 0 \<rparr>"

theorem checkpoint_put_compare_and_swap_witness:
  "\<exists>st' v. compare_and_put_projection_checkpoint ''p'' 7 1 (JBool True) 9
      (empty_store \<lparr> s_checkpoints := [(''p'', sample_checkpoint)] \<rparr>) = Inr (st', v)
    \<and> pc_source_cursor v = 7 \<and> pc_revision v = 2"
proof -
  let ?st = "empty_store \<lparr> s_checkpoints := [(''p'', sample_checkpoint)] \<rparr>"
  have "\<exists>p. compare_and_put_projection_checkpoint ''p'' 7 1 (JBool True) 9 ?st = Inr p"
    by (simp add: compare_and_put_projection_checkpoint_def checkpoint_revision_def sm_get_def
      sample_checkpoint_def Let_def)
  then obtain st' v where p: "compare_and_put_projection_checkpoint ''p'' 7 1 (JBool True) 9 ?st = Inr (st', v)"
    by (metis surj_pair)
  have "sm_wf (s_checkpoints ?st)" by (simp add: sm_wf_def)
  from checkpoint_put_compare_and_swap [OF this, where i = "''p''" and cursor = 7
      and expected = 1 and payload = "JBool True" and at = 9] p show ?thesis
    by (auto simp: sm_get_def sample_checkpoint_def)
qed

subsection \<open>Claims and fences of the outbox\<close>

lemma claim_record_not_claimable [simp]: "\<not> claimable (claim_record w x v)"
  by (simp add: claimable_def claim_record_def)

lemma claim_loop_spec:
  "claim_loop w x n m = (m', out) \<Longrightarrow>
     out = map (claim_record w x) (take n (filter claimable (map snd m)))
     \<and> filter claimable (map snd m') = drop n (filter claimable (map snd m))"
  by (induction w x n m arbitrary: m' out rule: claim_loop.induct)
    (auto simp: Let_def take_Cons' drop_Cons' split: prod.splits if_splits)

text \<open>
  C27: a worker's claim takes the first claimable terminals, as many as it asked for, and no two
  workers hold the same terminal: what a second worker claims afterwards is the next claimable
  terminals, disjoint from the first worker's.
\<close>
theorem claims_are_exclusive:
  assumes "sm_wf (s_terminals st)" "\<forall>(k, v)\<in>set (s_terminals st). ob_terminal_id v = k"
    and "claim_session_terminals w1 now1 lease1 n1 st = (st1, out1)"
    and "claim_session_terminals w2 now2 lease2 n2 st1 = (st2, out2)"
  shows "out1 = map (claim_record w1 (now1 + lease1)) (take n1 (filter claimable (sm_values (s_terminals st))))
    \<and> out2 = map (claim_record w2 (now2 + lease2))
        (take n2 (drop n1 (filter claimable (sm_values (s_terminals st)))))
    \<and> ob_terminal_id ` set out1 \<inter> ob_terminal_id ` set out2 = {}"
proof -
  let ?c = "filter claimable (sm_values (s_terminals st))"
  obtain m1 where m1: "claim_loop w1 (now1 + lease1) n1 (s_terminals st) = (m1, out1)" "s_terminals st1 = m1"
    using assms(3) by (auto simp: claim_session_terminals_def Let_def split: prod.splits)
  obtain m2 where m2: "claim_loop w2 (now2 + lease2) n2 m1 = (m2, out2)"
    using assms(4) m1(2) by (auto simp: claim_session_terminals_def Let_def split: prod.splits)
  have o: "out1 = map (claim_record w1 (now1 + lease1)) (take n1 ?c)"
    "out2 = map (claim_record w2 (now2 + lease2)) (take n2 (drop n1 ?c))"
    using claim_loop_spec [OF m1(1)] claim_loop_spec [OF m2] by (auto simp: sm_values_def)
  have "map ob_terminal_id (sm_values (s_terminals st)) = map fst (s_terminals st)"
    using assms(2) by (auto simp: sm_values_def)
  then have "distinct (map ob_terminal_id ?c)"
    using sm_distinct [OF assms(1)] by (metis distinct_map_filter)
  then have "ob_terminal_id ` set (take n1 ?c) \<inter> ob_terminal_id ` set (drop n1 ?c) = {}"
    using set_take_disj_set_drop_if_distinct [of "map ob_terminal_id ?c" n1 n1]
    by (simp add: take_map drop_map)
  then have "ob_terminal_id ` set (take n1 ?c) \<inter> ob_terminal_id ` set (take n2 (drop n1 ?c)) = {}"
    using set_take_subset [of n2 "drop n1 ?c"] by blast
  then show ?thesis using o by (auto simp: claim_record_def image_image)
qed

text \<open>
  C28: an acknowledgement is fenced by the claim: it succeeds exactly for the worker that holds the
  terminal at the revision it was given; the terminal is then materialized, and no worker can
  acknowledge, suppress or fail it again with any revision.
\<close>
theorem ack_fenced:
  assumes "sm_wf (s_terminals st)"
  shows "case ack_session_terminal i w r now st of
      Inl _ \<Rightarrow> \<not> (\<exists>v. sm_get (s_terminals st) i = Some v \<and> ob_claim_owner v = Some w \<and> ob_revision v = r)
    | Inr (st', v') \<Rightarrow> (\<exists>v. sm_get (s_terminals st) i = Some v \<and> ob_claim_owner v = Some w \<and> ob_revision v = r)
        \<and> sm_get (s_terminals st') i = Some v' \<and> ob_status v' = ''materialized'' \<and> ob_revision v' = Suc r
        \<and> \<not> is_ok (ack_session_terminal i w2 r2 now2 st')
        \<and> \<not> is_ok (suppress_session_terminal i w2 r2 reason now2 st')
        \<and> \<not> is_ok (fail_session_terminal i w2 r2 cls err retry mx now2 st')"
  using assms
  by (auto simp: ack_session_terminal_def suppress_session_terminal_def fail_session_terminal_def
      mutate_terminal_def Let_def split: option.splits if_splits)

definition sample_terminal :: "rstring \<Rightarrow> session_outbox_record" where
  "sample_terminal i = snd (enqueue_session_terminal i ''m'' ''s'' 1 ''p'' empty_store)"

lemma sample_terminal_simps:
  "ob_terminal_id (sample_terminal i) = i" "ob_status (sample_terminal i) = ''pending''"
  "ob_revision (sample_terminal i) = 1" "claimable (sample_terminal i)"
  by (simp_all add: sample_terminal_def enqueue_session_terminal_def empty_store_def Let_def claimable_def)

definition sample_outbox :: ephemeral_state where
  "sample_outbox = empty_store \<lparr> s_terminals :=
     [(''a'', sample_terminal ''a''), (''b'', sample_terminal ''b'')] \<rparr>"

theorem claims_are_exclusive_witness:
  "\<exists>st1 st2 out1 out2. claim_session_terminals ''w'' 0 5 1 sample_outbox = (st1, out1)
    \<and> claim_session_terminals ''x'' 1 5 7 st1 = (st2, out2)
    \<and> map ob_terminal_id out1 = [''a''] \<and> map ob_terminal_id out2 = [''b'']"
proof -
  obtain st1 out1 where c1: "claim_session_terminals ''w'' 0 5 1 sample_outbox = (st1, out1)"
    by (metis surj_pair)
  obtain st2 out2 where c2: "claim_session_terminals ''x'' 1 5 7 st1 = (st2, out2)" by (metis surj_pair)
  have v: "sm_wf (s_terminals sample_outbox)"
    "\<forall>(k, v)\<in>set (s_terminals sample_outbox). ob_terminal_id v = k"
    by (simp_all add: sample_outbox_def sm_wf_def sample_terminal_simps)
  show ?thesis using claims_are_exclusive [OF v c1 c2] c1 c2
    by (auto simp: sample_outbox_def sm_values_def sample_terminal_simps claim_record_def)
qed

theorem ack_fenced_witness:
  "\<exists>st' v'. ack_session_terminal ''a'' ''w'' 2 9 (fst (claim_session_terminals ''w'' 0 5 1 sample_outbox))
      = Inr (st', v') \<and> ob_status v' = ''materialized'' \<and> ob_revision v' = 3
    \<and> \<not> is_ok (ack_session_terminal ''a'' ''w'' 3 9 st')"
proof -
  define st where "st = fst (claim_session_terminals ''w'' 0 5 1 sample_outbox)"
  have t: "s_terminals st = [(''a'', claim_record ''w'' 5 (sample_terminal ''a'')), (''b'', sample_terminal ''b'')]"
    by (simp add: st_def claim_session_terminals_def sample_outbox_def sample_terminal_simps Let_def)
  have w: "sm_wf (s_terminals st)" by (simp add: t sm_wf_def)
  have g: "\<exists>v. sm_get (s_terminals st) ''a'' = Some v \<and> ob_claim_owner v = Some ''w'' \<and> ob_revision v = 2"
    by (simp add: t sm_get_def claim_record_def sample_terminal_simps)
  show ?thesis
    using ack_fenced [OF w, where i = "''a''" and w = "''w''" and r = 2 and now = 9
      and ?w2.0 = "''w''" and ?r2.0 = 3 and ?now2.0 = 9 and reason = "[]" and cls = FcRetryable
      and err = "[]" and retry = 0 and mx = 0] g
    unfolding st_def [symmetric] by (auto split: sum.splits)
qed

lemma health_fold_total:
  "(let h' = foldl health_step h vs in oh_pending h' + oh_claimed h' + oh_retry_scheduled h'
      + oh_materialized h' + oh_blocked h' + oh_suppressed h') =
   oh_pending h + oh_claimed h + oh_retry_scheduled h + oh_materialized h + oh_blocked h
      + oh_suppressed h + length vs"
  by (induction vs arbitrary: h) (auto simp: Let_def health_step_def)

text \<open>
  An operator's retry takes any terminal back to the queue, also one that was already
  delivered: after the retry of a materialized terminal the next claim hands it out again.
\<close>
lemma retry_reopens_materialized:
  assumes "s_terminals st = [(i, v)]" "ob_status v = ''materialized''" "0 < limit"
  shows "\<exists>st' v' st'' v''. retry_session_terminal i actor reason now st = Inr (st', v')
    \<and> claim_session_terminals worker now lease limit st' = (st'', [v''])
    \<and> ob_terminal_id v'' = ob_terminal_id v \<and> ob_status v'' = ''claimed''"
  using assms
  by (simp add: retry_session_terminal_def mutate_terminal_def sm_get_def Let_def
      claim_session_terminals_def claimable_def claim_record_def)

end
