(* ===== verification/Event_Queries.thy ===== *)
theory Event_Queries
  imports Event_Outbox
begin

text \<open>
  The remaining reads of the event store: the filtered queries of ephemeral.rs, the default
  methods \<open>projection_scan_page\<close> and \<open>list_stream_after\<close> of ports.rs with their budgets, and the
  single-event \<open>append\<close>.  The length of an event's JSON text is the argument \<open>bytes\<close>.
\<close>

section \<open>Filtered queries\<close>

definition after :: "durable_runtime_event \<Rightarrow> (nat \<times> nat) option \<Rightarrow> bool" where
  "after e position = (case position of None \<Rightarrow> True
     | Some (c, i) \<Rightarrow> c < ev_commit_cursor e \<or> c = ev_commit_cursor e \<and> i < ev_transaction_index e)"

definition list_stream_page_desc where
  "list_stream_page_desc st stream limit offset = take limit (drop offset (rev (list_stream st stream)))"

definition stream_event_count where
  "stream_event_count st stream = length (list_stream st stream)"

definition event_activity_binding :: "store_env \<Rightarrow> durable_runtime_event \<Rightarrow> runtime_activity_binding option" where
  "event_activity_binding env e = activity_binding_from_payload env (ev_payload e)"

definition execution_events_for_session where
  "execution_events_for_session st i pos limit = take limit (matching (\<lambda>e. after e pos
     \<and> list_ex (\<lambda>r. ref_kind r = ''session'' \<and> ref_id r = i) (ev_refs e)) st)"

definition events_for_root_execution where
  "events_for_root_execution env st i pos limit = take limit (matching (\<lambda>e. after e pos
     \<and> (case event_activity_binding env e of Some b \<Rightarrow> ab_root_execution_id b = i | None \<Rightarrow> False)) st)"

definition events_for_root_execution_kind where
  "events_for_root_execution_kind env st i kind pos limit =
     take limit (matching (\<lambda>e. ev_kind e = kind \<and> after e pos
       \<and> (case event_activity_binding env e of Some b \<Rightarrow> ab_root_execution_id b = i | None \<Rightarrow> False)) st)"

definition events_for_activity where
  "events_for_activity env st i pos limit = take limit (matching (\<lambda>e. after e pos
     \<and> (case event_activity_binding env e of Some b \<Rightarrow> ab_activity_id b = i | None \<Rightarrow> False)) st)"

definition list_scope where
  "list_scope st scope limit = take limit (rev (matching (\<lambda>e. ev_scope e = scope) st))"

definition list_scope_page_asc where
  "list_scope_page_asc st scope pos limit =
     take limit (matching (\<lambda>e. ev_scope e = scope \<and> after e pos) st)"

definition list_scope_stream_prefix_page_asc where
  "list_scope_stream_prefix_page_asc st scope p pos limit = take limit (matching (\<lambda>e.
     ev_scope e = scope \<and> starts_with p (ev_stream_id e) \<and> after e pos) st)"

definition list_scope_kind_page_asc where
  "list_scope_kind_page_asc st scope kind pos limit = take limit (matching (\<lambda>e.
     ev_scope e = scope \<and> ev_kind e = kind \<and> after e pos) st)"

definition stream_ids_for_scope where
  "stream_ids_for_scope st scope = ss_of_list (map ev_stream_id (matching (\<lambda>e. ev_scope e = scope) st))"

text \<open>\<open>sort_by_key (cursor, id)\<close> is two stable sorts.\<close>
definition stream_ids_for_scope_kind_at_sequence_page ::
  "ephemeral_state \<Rightarrow> runtime_event_scope \<Rightarrow> rstring \<Rightarrow> nat \<Rightarrow> (nat \<times> rstring) option \<Rightarrow> nat
   \<Rightarrow> (rstring \<times> nat) list" where
  "stream_ids_for_scope_kind_at_sequence_page st scope kind sequence after_key limit =
    (let v = map (\<lambda>e. (ev_stream_id e, ev_commit_cursor e)) (matching (\<lambda>e. ev_scope e = scope
           \<and> ev_kind e = kind \<and> ev_sequence e = sequence) st);
         sorted_v = sort_key snd (sort_key fst v)
     in take limit (filter (\<lambda>(i, c). case after_key of None \<Rightarrow> True
          | Some (ac, ai) \<Rightarrow> ac < c \<or> ac = c \<and> ai < i) sorted_v))"

definition all_events where
  "all_events st limit = take limit (rev (matching (\<lambda>_. True) st))"

definition latest_for_stream_kind where
  "latest_for_stream_kind st stream kind =
    (let v = matching (\<lambda>e. ev_stream_id e = stream \<and> ev_kind e = kind) st in
     if v = [] then None else Some (last v))"

section \<open>Single events\<close>

text \<open>\<open>append\<close>: the random transaction id is the argument \<open>tx\<close>; errors are the store's errors.\<close>
definition append_event ::
  "store_env \<Rightarrow> (nat \<Rightarrow> rstring) \<Rightarrow> (nat \<Rightarrow> nat) \<Rightarrow> rstring \<Rightarrow> runtime_event_input \<Rightarrow> ephemeral_state
   \<Rightarrow> (event_store_error, ephemeral_state \<times> durable_runtime_event option) result" where
  "append_event env uuids now tx input st =
    and_then (append_inner env uuids now \<lparr> rq_transaction_id = ''runtime-tx-'' @ tx,
        rq_expected_streams = [\<lparr> es_stream_id = in_stream_id input,
          es_expected_revision = stream_revision st (in_stream_id input) \<rparr>],
        rq_events = [ti_from input] \<rparr> None st)
      (\<lambda>(st', receipt). Ok (st', find (\<lambda>e. ev_event_id e \<in> set (rcp_event_ids receipt)) (s_events st')))"

section \<open>Budgeted reads\<close>

record projection_event_interest =
  pi_scope :: runtime_event_scope
  pi_kind :: rstring

definition interest_matches :: "projection_event_interest list \<Rightarrow> durable_runtime_event \<Rightarrow> bool" where
  "interest_matches interest e = list_ex (\<lambda>i. pi_scope i = ev_scope e \<and> pi_kind i = ev_kind e) interest"

record scan_page =
  sp_scanned_through_cursor :: nat
  sp_scanned_commits :: nat
  sp_matched_events :: nat
  sp_batches :: "committed_event_batch list"

definition batch_bytes :: "(durable_runtime_event \<Rightarrow> nat) \<Rightarrow> durable_runtime_event list \<Rightarrow> nat" where
  "batch_bytes bytes events = foldl (\<lambda>acc e. sat_add64 acc (bytes e)) 0 events"

text \<open>The loop over the batches; \<open>matched_bytes\<close> is the loop's own counter.\<close>
fun scan_loop ::
  "(durable_runtime_event \<Rightarrow> nat) \<Rightarrow> projection_event_interest list \<Rightarrow> nat \<Rightarrow> nat \<Rightarrow> nat
   \<Rightarrow> scan_page \<Rightarrow> committed_event_batch list \<Rightarrow> scan_page" where
  "scan_loop bytes interest max_events max_bytes matched_bytes page [] = page"
| "scan_loop bytes interest max_events max_bytes matched_bytes page (batch # batches) =
    (let events = filter (interest_matches interest) (ceb_events batch);
         size = batch_bytes bytes events;
         scanned = page \<lparr> sp_scanned_through_cursor := ceb_commit_cursor batch,
           sp_scanned_commits := sat_add64 (sp_scanned_commits page) 1 \<rparr> in
     if events = []
     then scan_loop bytes interest max_events max_bytes matched_bytes scanned batches
     else if sp_batches page \<noteq> []
       \<and> (sat_add64 (sp_matched_events page) (length events) > max max_events 1
          \<or> sat_add64 matched_bytes size > max max_bytes 1)
     then page
     else scan_loop bytes interest max_events max_bytes (sat_add64 matched_bytes size)
       (scanned \<lparr> sp_matched_events := sat_add64 (sp_matched_events page) (length events),
          sp_batches := sp_batches page @ [batch \<lparr> ceb_events := events \<rparr>] \<rparr>) batches)"

definition projection_scan_page ::
  "(durable_runtime_event \<Rightarrow> nat) \<Rightarrow> ephemeral_state \<Rightarrow> nat \<Rightarrow> projection_event_interest list
   \<Rightarrow> nat \<Rightarrow> nat \<Rightarrow> nat \<Rightarrow> scan_page" where
  "projection_scan_page bytes st cursor interest max_commits max_events max_bytes =
     scan_loop bytes interest max_events max_bytes 0 \<lparr> sp_scanned_through_cursor = cursor,
       sp_scanned_commits = 0, sp_matched_events = 0, sp_batches = [] \<rparr>
       (events_after_cursor st cursor max_commits)"

fun select_loop ::
  "(durable_runtime_event \<Rightarrow> nat) \<Rightarrow> nat \<Rightarrow> nat \<Rightarrow> nat \<Rightarrow> durable_runtime_event list
   \<Rightarrow> durable_runtime_event list \<Rightarrow> durable_runtime_event list" where
  "select_loop bytes max_events max_bytes acc selected [] = selected"
| "select_loop bytes max_events max_bytes acc selected (e # es) =
    (if selected \<noteq> [] \<and> (length selected \<ge> max max_events 1 \<or> sat_add64 acc (bytes e) > max max_bytes 1)
     then selected
     else select_loop bytes max_events max_bytes (sat_add64 acc (bytes e)) (selected @ [e]) es)"

definition list_stream_after ::
  "(durable_runtime_event \<Rightarrow> nat) \<Rightarrow> ephemeral_state \<Rightarrow> rstring \<Rightarrow> nat \<Rightarrow> nat \<Rightarrow> nat \<Rightarrow> nat
   \<Rightarrow> durable_runtime_event list" where
  "list_stream_after bytes st stream after_sequence through_sequence max_events max_bytes =
     select_loop bytes max_events max_bytes 0 [] (filter (\<lambda>e. after_sequence < ev_sequence e
       \<and> ev_sequence e \<le> through_sequence) (list_stream st stream))"

section \<open>Correctness of the budgeted reads\<close>

text \<open>\<open>scanned interest page batches n res\<close>: from \<open>page\<close> the scan has passed over the first \<open>n\<close> batches\<close>
definition scanned ::
  "projection_event_interest list \<Rightarrow> scan_page \<Rightarrow> committed_event_batch list \<Rightarrow> nat
   \<Rightarrow> scan_page \<Rightarrow> bool" where
  "scanned interest page batches n res \<longleftrightarrow> n \<le> length batches
     \<and> sp_scanned_through_cursor res =
         (if n = 0 then sp_scanned_through_cursor page else ceb_commit_cursor (batches ! (n - 1)))
     \<and> concat (map ceb_events (sp_batches res)) = concat (map ceb_events (sp_batches page))
         @ filter (interest_matches interest) (concat (map ceb_events (take n batches)))"

lemma scanned_Cons:
  assumes "scanned interest page' batches n res"
    and "sp_scanned_through_cursor page' = ceb_commit_cursor batch"
    and "concat (map ceb_events (sp_batches page')) = concat (map ceb_events (sp_batches page))
      @ filter (interest_matches interest) (ceb_events batch)"
  shows "scanned interest page (batch # batches) (Suc n) res"
  using assms by (auto simp: scanned_def nth_Cons')

text \<open>The scan stops after some number of batches, and after at least one while it has none.\<close>
lemma scan_loop_prefix:
  "\<exists>n. scanned interest page batches n (scan_loop bytes interest me mb acc page batches)
     \<and> (batches \<noteq> [] \<and> sp_batches page = [] \<longrightarrow> 0 < n)"
proof (induction batches arbitrary: acc page)
  case Nil
  show ?case by (rule exI [of _ 0]) (simp add: scanned_def)
next
  case (Cons batch batches)
  let ?events = "filter (interest_matches interest) (ceb_events batch)"
  let ?size = "batch_bytes bytes ?events"
  let ?s = "page \<lparr> sp_scanned_through_cursor := ceb_commit_cursor batch,
    sp_scanned_commits := sat_add64 (sp_scanned_commits page) 1 \<rparr>"
  let ?s' = "?s \<lparr> sp_matched_events := sat_add64 (sp_matched_events page) (length ?events),
          sp_batches := sp_batches page @ [batch \<lparr> ceb_events := ?events \<rparr>] \<rparr>"
  let ?full = "sp_batches page \<noteq> [] \<and> (sat_add64 (sp_matched_events page) (length ?events) > max me 1
          \<or> sat_add64 acc ?size > max mb 1)"
  let ?res = "scan_loop bytes interest me mb acc page (batch # batches)"
  have eq: "?res = (if ?events = [] then scan_loop bytes interest me mb acc ?s batches
      else if ?full then page else scan_loop bytes interest me mb (sat_add64 acc ?size) ?s' batches)"
    by (simp only: scan_loop.simps Let_def)
  consider (skip) "?events = []" "?res = scan_loop bytes interest me mb acc ?s batches"
    | (stop) "sp_batches page \<noteq> []" "?res = page"
    | (take) "?res = scan_loop bytes interest me mb (sat_add64 acc ?size) ?s' batches"
    using eq by argo
  then show ?case
  proof cases
    case skip
    obtain n where "scanned interest ?s batches n ?res" using Cons.IH [of ?s acc] skip(2) by metis
    then have "scanned interest page (batch # batches) (Suc n) ?res"
      by (rule scanned_Cons) (simp_all add: skip(1))
    then show ?thesis by blast
  next
    case stop
    then show ?thesis by (intro exI [of _ 0]) (simp add: scanned_def)
  next
    case take
    obtain n where "scanned interest ?s' batches n ?res"
      using Cons.IH [of ?s' "sat_add64 acc ?size"] take by metis
    then have "scanned interest page (batch # batches) (Suc n) ?res"
      by (rule scanned_Cons) simp_all
    then show ?thesis by blast
  qed
qed

text \<open>
  C26: a projection scan delivers exactly the matching events of the commits it passes over, in
  journal order, within any budget; and while there is a later commit it moves its cursor forward,
  so repeated scans deliver every matching event once.
\<close>
theorem projection_scan_exact:
  assumes "store_inv st"
    and "projection_scan_page bytes st cursor interest max_commits max_events max_bytes = page"
  shows "concat (map ceb_events (sp_batches page)) = filter (\<lambda>e. interest_matches interest e
      \<and> cursor < ev_commit_cursor e \<and> ev_commit_cursor e \<le> sp_scanned_through_cursor page) (s_events st)
    \<and> (0 < max_commits \<and> (\<exists>e\<in>set (s_events st). cursor < ev_commit_cursor e)
        \<longrightarrow> cursor < sp_scanned_through_cursor page)"
proof -
  let ?B = "events_after_cursor st cursor max_commits"
  let ?p0 = "\<lparr> sp_scanned_through_cursor = cursor, sp_scanned_commits = 0, sp_matched_events = 0, sp_batches = [] \<rparr>"
  obtain n where n: "n \<le> length ?B" "?B \<noteq> [] \<longrightarrow> 0 < n"
    "sp_scanned_through_cursor page = (if n = 0 then cursor else ceb_commit_cursor (?B ! (n - 1)))"
    "concat (map ceb_events (sp_batches page)) =
       filter (interest_matches interest) (concat (map ceb_events (take n ?B)))"
    using scan_loop_prefix [of interest ?p0 ?B bytes max_events max_bytes 0]
    unfolding scanned_def assms(2) [symmetric] projection_scan_page_def by auto
  show ?thesis
  proof (cases "n = 0")
    case True
    then have "\<not> (0 < max_commits \<and> (\<exists>e\<in>set (s_events st). cursor < ev_commit_cursor e))"
      using n(2) events_after_cursor_eq_Nil [OF assms(1), of max_commits cursor] by fastforce
    then show ?thesis using True n by (auto simp: filter_empty_conv)
  next
    case False
    have ne: "take n ?B \<noteq> []" using False n(1) by auto
    have l: "last (take n ?B) = ?B ! (n - 1)" using False n(1) ne by (simp add: last_conv_nth min_absorb2)
    note u = events_after_cursor_upto [OF assms(1) take_events_after_cursor [symmetric] ne]
    show ?thesis using False n(3,4) u unfolding l by (auto intro!: filter_cong simp: filter_filter)
  qed
qed

theorem projection_scan_exact_witness:
  "concat (map ceb_events (sp_batches (projection_scan_page (\<lambda>_. 1) sample_store 0
      [\<lparr> pi_scope = ScExecutionGraph, pi_kind = ''k'' \<rparr>] 5 5 5))) = s_events sample_store
   \<and> 0 < sp_scanned_through_cursor (projection_scan_page (\<lambda>_. 1) sample_store 0
      [\<lparr> pi_scope = ScExecutionGraph, pi_kind = ''k'' \<rparr>] 5 5 5)"
proof -
  let ?i = "[\<lparr> pi_scope = ScExecutionGraph, pi_kind = ''k'' \<rparr>]"
  have e: "\<exists>e. s_events sample_store = [e] \<and> ev_commit_cursor e = 1 \<and> ev_scope e = ScExecutionGraph
      \<and> ev_kind e = ''k''"
    by (simp add: sample_store_def commit_request_def Let_def sample_request_def empty_store_def
        sample_input_def ti_from_def)
  show ?thesis
    using projection_scan_exact [OF sample_append_ok(3), where bytes = "\<lambda>_. 1" and cursor = 0
      and interest = ?i and max_commits = 5 and max_events = 5 and max_bytes = 5, OF refl] e
    by (auto simp: interest_matches_def)
qed

lemma select_loop_prefix:
  "\<exists>n\<le>length es. select_loop bytes me mb acc sel es = sel @ take n es \<and> (sel = [] \<and> es \<noteq> [] \<longrightarrow> 0 < n)
     \<and> length sel + n \<le> max (length sel) (max me 1)"
proof (induction es arbitrary: acc sel)
  case (Cons e es)
  show ?case
  proof (cases "sel \<noteq> [] \<and> (length sel \<ge> max me 1 \<or> sat_add64 acc (bytes e) > max mb 1)")
    case False
    obtain n where "n \<le> length es"
      "select_loop bytes me mb (sat_add64 acc (bytes e)) (sel @ [e]) es = (sel @ [e]) @ take n es"
      "length (sel @ [e]) + n \<le> max (length (sel @ [e])) (max me 1)"
      using Cons.IH [of "sat_add64 acc (bytes e)" "sel @ [e]"] by blast
    moreover have "sel = [] \<or> length sel < max me 1" using False by auto
    ultimately show ?thesis using False
      by (intro exI [of _ "Suc n"]) (auto simp: max_def split: if_splits)
  qed (use exI [of _ 0] in auto)
qed simp

text \<open>
  A bounded read of a stream returns a prefix of the requested interval of sequence numbers, in
  order and at most as many events as asked, and it is not empty when the interval is not: a reader
  that continues after the last sequence it got always advances, whatever the budgets.
\<close>
theorem list_stream_after_progress:
  "let interval = filter (\<lambda>e. a < ev_sequence e \<and> ev_sequence e \<le> thr) (list_stream st stream);
       page = list_stream_after bytes st stream a thr me mb
   in prefix page interval \<and> length page \<le> max me 1 \<and> (page = [] \<longleftrightarrow> interval = [])"
proof -
  define interval where
    "interval = filter (\<lambda>e. a < ev_sequence e \<and> ev_sequence e \<le> thr) (list_stream st stream)"
  obtain n where n: "n \<le> length interval" "interval \<noteq> [] \<longrightarrow> 0 < n" "n \<le> max me 1"
    "list_stream_after bytes st stream a thr me mb = take n interval"
    using select_loop_prefix [of interval bytes me mb 0 "[]"]
    by (auto simp: list_stream_after_def interval_def)
  then show ?thesis by (auto simp: take_is_prefix Let_def interval_def [symmetric])
qed

end
