(* ===== verification/Graph_Replay.thy ===== *)
theory Graph_Replay
  imports Graph_Size Event_Queries
begin

text \<open>
  The graph state store, runtime/src/execution_core/graph/state_store.rs, and the registry of hot
  graphs it reads through, runtime/src/execution_core/hot_state/graph.rs.  A graph is rebuilt from
  its event stream: the replay starts at the last full snapshot and applies the deltas after it.
  Decoding of the JSON payloads is a parameter (\<open>graph_codec\<close>).  A store call is one step; the
  recovery permit that lets concurrent readers share one replay is not modelled.
\<close>

section \<open>Parameters and errors\<close>

record graph_codec =
  gc_encode_event :: "execution_graph_event \<Rightarrow> json"
  gc_decode_event :: "json \<Rightarrow> (rstring, execution_graph_event) result"
  gc_decode_graph :: "json \<Rightarrow> (rstring, execution_graph) result"

datatype state_store_error =
  SsEventStore event_store_error
| SsInvalidPayload rstring
| SsNotFound rstring
| SsCorrupt rstring rstring
| SsBlockingTask rstring

fun event_store_error_str :: "event_store_error \<Rightarrow> rstring" where
  "event_store_error_str (UnknownScope s) = ''runtime event scope `'' @ s @ ''` is unknown or requires migration''"
| "event_store_error_str (Corrupt s) = ''runtime event store is corrupt: '' @ s"
| "event_store_error_str (TransactionConflict t) =
     ''runtime event transaction `'' @ t @ ''` conflicts with its committed hash''"
| "event_store_error_str (StoreStaleRevision s e a) = ''runtime stream `'' @ s
     @ ''` revision mismatch: expected '' @ nat_str e @ '', actual '' @ nat_str a"
| "event_store_error_str (InvalidTransaction s) = ''invalid runtime event transaction: '' @ s"
| "event_store_error_str (DecisionLeaseAlreadyConsumed l) =
     ''decision lease `'' @ l @ ''` has already been consumed''"
| "event_store_error_str (Serialization s) = ''runtime event serialization failure: '' @ s"
| "event_store_error_str (Io s) = ''runtime event store I/O failure: '' @ s"
| "event_store_error_str (Storage s) = ''runtime event store storage failure: '' @ s"

fun state_store_error_str :: "state_store_error \<Rightarrow> rstring" where
  "state_store_error_str (SsEventStore e) = event_store_error_str e"
| "state_store_error_str (SsInvalidPayload e) = ''execution graph event payload is invalid: '' @ e"
| "state_store_error_str (SsNotFound i) = ''execution graph `'' @ i @ ''` does not exist''"
| "state_store_error_str (SsCorrupt i r) = ''execution graph `'' @ i @ ''` stream is corrupt: '' @ r"
| "state_store_error_str (SsBlockingTask e) = ''execution state blocking task failed: '' @ e"

text \<open>The derived \<open>Debug\<close> names of the scopes\<close>
fun scope_debug :: "runtime_event_scope \<Rightarrow> rstring" where
  "scope_debug ScExecutionGraph = ''ExecutionGraph''"
| "scope_debug ScExecutionNode = ''ExecutionNode''"
| "scope_debug ScExecutionLive = ''ExecutionLive''"
| "scope_debug ScProgram = ''Program''"
| "scope_debug ScGoal = ''Goal''"
| "scope_debug ScMission = ''Mission''"
| "scope_debug ScSession = ''Session''"
| "scope_debug ScSessionInput = ''SessionInput''"
| "scope_debug ScSessionCommand = ''SessionCommand''"
| "scope_debug ScTeam = ''Team''"
| "scope_debug ScAgent = ''Agent''"
| "scope_debug ScAgentDefinition = ''AgentDefinition''"
| "scope_debug ScApproval = ''Approval''"
| "scope_debug ScEvolution = ''Evolution''"
| "scope_debug ScKnowledge = ''Knowledge''"
| "scope_debug ScRelation = ''Relation''"
| "scope_debug ScSteward = ''Steward''"
| "scope_debug ScTask = ''Task''"
| "scope_debug ScWorker = ''Worker''"
| "scope_debug ScSchedule = ''Schedule''"
| "scope_debug ScManagedAgent = ''ManagedAgent''"
| "scope_debug ScSkill = ''Skill''"
| "scope_debug ScTool = ''Tool''"
| "scope_debug ScRecovery = ''Recovery''"
| "scope_debug ScCrossPlane = ''CrossPlane''"

section \<open>Replay\<close>

fun rposition :: "('a \<Rightarrow> bool) \<Rightarrow> 'a list \<Rightarrow> nat option" where
  "rposition P [] = None"
| "rposition P (x # xs) = (case rposition P xs of
     Some i \<Rightarrow> Some (Suc i)
   | None \<Rightarrow> if P x then Some 0 else None)"

definition is_legacy_full_graph_snapshot :: "durable_runtime_event \<Rightarrow> bool" where
  "is_legacy_full_graph_snapshot r \<longleftrightarrow>
     ev_kind r \<in> set [''execution_graph.node_transitioned'',
       ''execution_graph.node_transitioned_and_replanned'', ''execution_graph.command_applied'',
       ''execution_graph.replanned'', ''execution_graph.recovered'']
     \<and> json_get (ev_payload r) ''graph'' \<noteq> None"

definition is_snapshot_record :: "durable_runtime_event \<Rightarrow> bool" where
  "is_snapshot_record r \<longleftrightarrow> ev_kind r = ''execution_graph.planned''
     \<or> ev_kind r = ''execution_graph.checkpoint'' \<or> is_legacy_full_graph_snapshot r"

definition event_prefix :: "durable_runtime_event \<Rightarrow> rstring" where
  "event_prefix r = ''execution graph event '' @ ev_kind r @ '' at sequence '' @ nat_str (ev_sequence r)"

definition decode_execution_graph_event ::
  "graph_codec \<Rightarrow> durable_runtime_event \<Rightarrow> (rstring, execution_graph_event) result" where
  "decode_execution_graph_event codec r =
    (case gc_decode_event codec (ev_payload r) of
       Inr event \<Rightarrow> Ok event
     | Inl error \<Rightarrow>
         if is_legacy_full_graph_snapshot r
         then (case json_get (ev_payload r) ''graph'' of
             None \<Rightarrow> Err (event_prefix r @ '' has no graph snapshot'')
           | Some v \<Rightarrow> (case gc_decode_graph codec v of
               Inl graph_error \<Rightarrow>
                 Err (event_prefix r @ '' has an invalid legacy snapshot: '' @ graph_error)
             | Inr graph \<Rightarrow> Ok (EvCheckpoint (''upcast:'' @ ev_kind r) graph)))
         else Err (event_prefix r @ '' is invalid: '' @ error))"

definition with_commit_cursor :: "nat \<Rightarrow> execution_graph \<Rightarrow> execution_graph" where
  "with_commit_cursor c g =
     g \<lparr> g_recovery_cursor := (g_recovery_cursor g) \<lparr> rc_commit_cursor := c \<rparr> \<rparr>"

definition map_err :: "('e \<Rightarrow> 'f) \<Rightarrow> ('e, 'a) result \<Rightarrow> ('f, 'a) result" where
  "map_err f r = (case r of Inl e \<Rightarrow> Err (f e) | Inr x \<Rightarrow> Ok x)"

definition project_record ::
  "graph_codec \<Rightarrow> rstring \<Rightarrow> execution_graph option \<Rightarrow> durable_runtime_event
   \<Rightarrow> (state_store_error, execution_graph option) result" where
  "project_record codec graph_id projected r =
    (if ev_scope r \<noteq> ScExecutionGraph
     then Err (SsCorrupt graph_id (''unexpected scope '' @ scope_debug (ev_scope r)))
     else and_then (map_err (SsCorrupt graph_id) (decode_execution_graph_event codec r)) (\<lambda>event.
       and_then (map_err (SsCorrupt graph_id) (event_project event projected)) (\<lambda>graph.
         if g_id graph \<noteq> graph_id \<or> g_revision graph \<noteq> ev_sequence r
         then Err (SsCorrupt graph_id (''event identity/revision mismatch: graph='' @ g_id graph
           @ '' revision='' @ nat_str (g_revision graph) @ '', stream_sequence='' @ nat_str (ev_sequence r)))
         else Ok (Some (with_commit_cursor (ev_commit_cursor r) graph)))))"

definition project_graph_events ::
  "graph_codec \<Rightarrow> rstring \<Rightarrow> durable_runtime_event list \<Rightarrow> (state_store_error, execution_graph) result" where
  "project_graph_events codec graph_id events =
    (let checkpoint_index = (case rposition is_snapshot_record events of Some i \<Rightarrow> i | None \<Rightarrow> 0) in
     and_then (try_fold (project_record codec graph_id) None (drop checkpoint_index events)) (\<lambda>projected.
       case projected of Some g \<Rightarrow> Ok g | None \<Rightarrow> Err (SsNotFound graph_id)))"

section \<open>Hot graphs\<close>

definition graph_is_terminal :: "execution_graph \<Rightarrow> bool" where
  "graph_is_terminal g \<longleftrightarrow> g_nodes g \<noteq> []
     \<and> list_all (\<lambda>n. case sm_get (g_node_statuses g) (n_id n) of Some s \<Rightarrow> is_terminal s | None \<Rightarrow> False)
         (g_nodes g)"

text \<open>
  The registry is the map from ids to graphs; the shards only partition it.  What residency picks
  for eviction when memory is short is the argument \<open>candidates\<close>; only terminal graphs go.
\<close>
type_synonym hot_graphs = "(rstring, execution_graph) smap"

definition hot_get :: "hot_graphs \<Rightarrow> rstring \<Rightarrow> execution_graph option" where
  "hot_get hot graph_id = sm_get hot graph_id"

definition evict_completed :: "rstring list \<Rightarrow> hot_graphs \<Rightarrow> hot_graphs" where
  "evict_completed candidates hot = fold (\<lambda>i m. case sm_get m i of
     Some g \<Rightarrow> if graph_is_terminal g then sm_remove i m else m | None \<Rightarrow> m) candidates hot"

definition publish_snapshot :: "rstring list \<Rightarrow> execution_graph \<Rightarrow> hot_graphs \<Rightarrow> hot_graphs \<times> bool" where
  "publish_snapshot candidates g hot =
    (if (case sm_get hot (g_id g) of Some cur \<Rightarrow> g_revision cur \<ge> g_revision g | None \<Rightarrow> False)
     then (hot, False)
     else (evict_completed candidates (sm_insert (g_id g) g hot), True))"

section \<open>Loading\<close>

text \<open>\<open>verify\<close> is the field \<open>verify_durable_revision\<close> of the store.\<close>
definition load_snapshot ::
  "graph_codec \<Rightarrow> bool \<Rightarrow> rstring list \<Rightarrow> rstring \<Rightarrow> ephemeral_state \<Rightarrow> hot_graphs
   \<Rightarrow> hot_graphs \<times> (state_store_error, execution_graph) result" where
  "load_snapshot codec verify candidates graph_id st hot =
    (let cold = (let events = list_stream st graph_id in
           if events = [] then (hot, Err (SsNotFound graph_id))
           else (case project_graph_events codec graph_id events of
               Inl e \<Rightarrow> (hot, Err e)
             | Inr g \<Rightarrow> (fst (publish_snapshot candidates g hot), Ok g)))
     in case hot_get hot graph_id of
       Some g \<Rightarrow> if \<not> verify \<or> stream_revision st graph_id = g_revision g then (hot, Ok g) else cold
     | None \<Rightarrow> cold)"

definition graph_ids :: "ephemeral_state \<Rightarrow> rstring list" where
  "graph_ids st = stream_ids_for_scope_kind_at_sequence st ScExecutionGraph ''execution_graph.planned'' 1"

definition nonterminal_graph_ids :: "ephemeral_state \<Rightarrow> rstring list" where
  "nonterminal_graph_ids st =
     map fst (filter (\<lambda>(_, status). status \<notin> set [Some ''completed'', Some ''failed'', Some ''blocked'',
         Some ''cancelled''])
       (latest_stream_statuses_for_scope_kind_at_sequence st ScExecutionGraph ''execution_graph.planned'' 1))"

section \<open>Replay of an extended stream\<close>

lemma rposition_snoc: "rposition P (xs @ [x]) = (if P x then Some (length xs) else rposition P xs)"
  by (induction xs) (auto split: option.splits)

lemma rposition_lt: "rposition P xs = Some i \<Longrightarrow> i < length xs"
  by (induction xs arbitrary: i) (auto split: option.splits if_splits)

lemma map_err_eq_Inr [result_simps]: "map_err f r = Inr x \<longleftrightarrow> r = Inr x"
  by (auto simp: map_err_def split: sum.splits)

lemma try_fold_snoc:
  "try_fold f s (xs @ [x]) = and_then (try_fold f s xs) (\<lambda>t. f t x)"
  by (simp add: try_fold_append and_then_case split: sum.splits)

lemma project_snapshot_snoc:
  assumes "is_snapshot_record r" "project_record codec i None r = Inr (Some g)"
  shows "project_graph_events codec i (es @ [r]) = Inr g"
  using assms by (simp add: project_graph_events_def rposition_snoc)

lemma project_delta_snoc:
  assumes "project_graph_events codec i es = Inr g" "\<not> is_snapshot_record r"
    and "project_record codec i (Some g) r = Inr (Some g')"
  shows "project_graph_events codec i (es @ [r]) = Inr g'"
proof -
  let ?i = "case rposition is_snapshot_record es of Some i \<Rightarrow> i | None \<Rightarrow> 0"
  have f: "try_fold (project_record codec i) None (drop ?i es) = Inr (Some g)"
    using assms(1) by (auto simp: project_graph_events_def Let_def result_simps split: option.splits)
  have "?i \<le> length es" using rposition_lt by (fastforce split: option.splits)
  then have "drop ?i (es @ [r]) = drop ?i es @ [r]" by simp
  then show ?thesis using assms(2,3) f
    by (simp add: project_graph_events_def rposition_snoc try_fold_snoc)
qed

text \<open>A graph that a replay gives has the stream's id and its last sequence as revision.\<close>
lemma try_fold_last:
  "try_fold f s xs = Inr t \<Longrightarrow> xs \<noteq> [] \<Longrightarrow> \<exists>s'. f s' (last xs) = Inr t"
  by (induction xs rule: rev_induct) (auto simp: try_fold_snoc result_simps)

lemma project_graph_identity:
  assumes "project_graph_events codec i es = Inr g"
  shows "es \<noteq> []" "g_id g = i" "g_revision g = ev_sequence (last es)"
    "rc_commit_cursor (g_recovery_cursor g) = ev_commit_cursor (last es)"
proof -
  let ?i = "case rposition is_snapshot_record es of Some i \<Rightarrow> i | None \<Rightarrow> 0"
  have f: "try_fold (project_record codec i) None (drop ?i es) = Inr (Some g)"
    using assms by (auto simp: project_graph_events_def Let_def result_simps split: option.splits)
  then have ne: "drop ?i es \<noteq> []" by auto
  then show "es \<noteq> []" by auto
  from try_fold_last [OF f ne] obtain s where "project_record codec i s (last (drop ?i es)) = Inr (Some g)" ..
  moreover have "last (drop ?i es) = last es" using ne by (simp add: last_drop)
  ultimately show "g_id g = i" "g_revision g = ev_sequence (last es)"
    "rc_commit_cursor (g_recovery_cursor g) = ev_commit_cursor (last es)"
    by (auto simp: project_record_def result_simps with_commit_cursor_def split: if_splits)
qed

section \<open>Hot graphs never go backwards\<close>

lemma evict_completed_wf: "sm_wf hot \<Longrightarrow> sm_wf (evict_completed cs hot)"
  unfolding evict_completed_def by (induction cs arbitrary: hot) (auto split: option.splits)

lemma evict_completed_get:
  assumes "sm_wf hot"
  shows "sm_get (evict_completed cs hot) i =
    (case sm_get hot i of Some g \<Rightarrow> if i \<in> set cs \<and> graph_is_terminal g then None else Some g | None \<Rightarrow> None)"
  using assms
proof (induction cs arbitrary: hot)
  case (Cons c cs)
  let ?h = "case sm_get hot c of Some g \<Rightarrow> if graph_is_terminal g then sm_remove c hot else hot | None \<Rightarrow> hot"
  have e: "evict_completed (c # cs) hot = evict_completed cs ?h" by (simp add: evict_completed_def)
  have "sm_wf ?h" using Cons.prems by (auto split: option.splits)
  from Cons.IH [OF this] show ?case unfolding e using Cons.prems by (auto split: option.splits)
qed (auto simp: evict_completed_def split: option.splits)

text \<open>
  What \<open>publish\<close> does to the registry: the entry of an id is replaced only by a newer revision, and
  an entry disappears only when its graph is terminal.
\<close>
lemma publish_snapshot_get:
  assumes "sm_wf hot" "publish_snapshot cs g hot = (hot', b)"
  shows "sm_wf hot'"
    "case sm_get hot' i of
       Some h \<Rightarrow> sm_get hot i = Some h \<or> (h = g \<and> i = g_id g
         \<and> (\<forall>cur. sm_get hot i = Some cur \<longrightarrow> g_revision cur < g_revision g))
     | None \<Rightarrow> (case sm_get hot i of Some h \<Rightarrow> graph_is_terminal h \<or> i = g_id g \<and> graph_is_terminal g | None \<Rightarrow> True)"
  using assms
  by (auto simp: publish_snapshot_def evict_completed_get evict_completed_wf not_le
      split: option.splits if_splits)

end
