(* ===== verification/Commit_Pipeline.thy ===== *)
theory Commit_Pipeline
  imports Graph_Replay
begin

text \<open>
  The parts the commit service is made of: tickets and outcomes of registry.rs, the errors and
  parameters of the service, and runtime/src/execution_core/graph/commit_pipeline.rs (validation of
  domain events, references, activity bindings, node events, expected revisions, status names).
  JSON encodings, the agent packet decoder, the knowledge candidate builder, the approval queue, the
  continuation seed planner, base64 and SHA-256 are the fields of \<open>commit_env\<close>.
\<close>

section \<open>Tickets and outcomes\<close>

record node_execution_ticket =
  tk_graph_id :: rstring
  tk_node_id :: rstring
  tk_executor_kind :: rstring
  tk_service_class :: execution_service_class
  tk_attempt :: nat
  tk_idempotency_key :: rstring
  tk_payload_ref :: rstring

record execution_graph_replan =
  rpl_nodes :: "execution_node_spec list"
  rpl_edges :: "execution_edge list"
  rpl_reason :: rstring

record node_execution_outcome =
  oc_result :: execution_node_result
  oc_delivery_envelope :: "delivery_envelope option"
  oc_terminal_presentation :: "terminal_presentation option"
  oc_domain_events :: "runtime_transaction_event_input list"
  oc_replan :: "execution_graph_replan option"

definition outcome_new :: "execution_node_result \<Rightarrow> node_execution_outcome" where
  "outcome_new r = \<lparr> oc_result = r, oc_delivery_envelope = None, oc_terminal_presentation = None,
     oc_domain_events = [], oc_replan = None \<rparr>"

record execution_terminal_commit =
  tc_node_id :: rstring
  tc_outcome :: node_execution_outcome
  tc_effect_ticket :: "node_execution_ticket option"

section \<open>Errors, receipts, parameters\<close>

datatype commit_error =
  CeEventStore event_store_error
| CeTransition execution_transition_error
| CeSerialization rstring
| CeStaleRevision rstring nat nat
| CeInvalidCommand rstring
| CeAlreadyAppliedSame rstring
| CeGraphStreamCollision rstring
| CeMissingDomainIdempotency rstring
| CeProtectedDomainScope rstring
| CeBlockingTask rstring
| CeInvalidReplan rstring

record commit_receipt =
  crc_graph :: execution_graph
  crc_transaction :: append_transaction_receipt

record commit_state =
  cst_store :: ephemeral_state
  cst_hot :: hot_graphs

text \<open>The identities a decoded agent task packet contributes to the references of a graph event\<close>
record packet_identity =
  pk_principal_id :: rstring
  pk_workspace_id :: rstring
  pk_mission_id :: rstring
  pk_task_id :: rstring
  pk_session_id :: rstring
  pk_run_id :: rstring
  pk_node_id :: rstring
  pk_turn_id :: "rstring option"
  pk_team_id :: "rstring option"

text \<open>The terminal record of a controlled recovery, policy/authorization_negotiator.rs\<close>
record controlled_recovery_terminal =
  crt_recovery_scope :: rstring
  crt_session_id :: rstring
  crt_turn_id :: rstring
  crt_execution_id :: rstring
  crt_fingerprints :: "rstring list"

record prepared_decision =
  pd_stream_id :: rstring
  pd_expected_stream_revision :: nat
  pd_events :: "runtime_transaction_event_input list"

record commit_env =
  ce_store :: store_env
  ce_codec :: graph_codec
  ce_layout :: layout
  ce_encode_binding :: "runtime_activity_binding \<Rightarrow> json"
  ce_encode_result :: "execution_node_result \<Rightarrow> json"
  ce_encode_ticket :: "node_execution_ticket \<Rightarrow> json"
  ce_encode_outcome :: "node_execution_outcome \<Rightarrow> json"
  ce_decode_terminal :: "json \<Rightarrow> session_terminal_input option"
  ce_decode_packet :: "rstring \<Rightarrow> packet_identity option"
  ce_candidate_event :: "execution_graph \<Rightarrow> rstring \<Rightarrow> rstring \<Rightarrow> evidence_ref list
    \<Rightarrow> (rstring, runtime_transaction_event_input option) result"
  ce_decode_recovery_terminal :: "json \<Rightarrow> controlled_recovery_terminal option"
  ce_base64 :: "rstring \<Rightarrow> rstring"
  ce_decision_events :: "ephemeral_state \<Rightarrow> approval_decision_command \<Rightarrow> nat \<Rightarrow> (rstring, prepared_decision) result"
  ce_continuation_digest :: "collaboration_continuation_binding \<Rightarrow> (rstring, rstring) result"
  ce_encode_continuation :: "collaboration_continuation_binding \<Rightarrow> json"
  ce_continuation_seed :: "ephemeral_state \<Rightarrow> execution_graph \<Rightarrow> json
    \<Rightarrow> (rstring, runtime_transaction_event_input list \<times> (rstring, nat) smap) result"
  ce_source_unfinished :: "ephemeral_state \<Rightarrow> rstring \<Rightarrow> (rstring, bool) result"
  ce_evict :: "hot_graphs \<Rightarrow> rstring list"

section \<open>Pipeline helpers\<close>

fun collect_ok :: "('a \<Rightarrow> ('e, 'b) result) \<Rightarrow> 'a list \<Rightarrow> ('e, 'b list) result" where
  "collect_ok f [] = Ok []"
| "collect_ok f (x # xs) = and_then (f x) (\<lambda>y. and_then (collect_ok f xs) (\<lambda>ys. Ok (y # ys)))"

fun validation_error_str :: "validation_error \<Rightarrow> rstring" where
  "validation_error_str EmptyObjective = ''execution graph objective is empty''"
| "validation_error_str (DuplicateNode n) = ''duplicate execution node `'' @ n @ ''`''"
| "validation_error_str (MissingPayload n) = ''execution node `'' @ n @ ''` has no payload reference''"
| "validation_error_str (MissingExecutor n) = ''execution node `'' @ n @ ''` has no executor binding''"
| "validation_error_str (MissingNode n) = ''execution edge references missing node `'' @ n @ ''`''"
| "validation_error_str Cycle = ''execution graph contains a dependency cycle''"
| "validation_error_str TimerUnavailable =
     ''timer executor is unavailable before schedule support is installed''"
| "validation_error_str (InvalidDependencyPolicy n r) =
     ''execution node `'' @ n @ ''` has invalid dependency policy: '' @ r"
| "validation_error_str (OptionalEffectOwner n) =
     ''optional execution node `'' @ n @ ''` may own a critical or mutating effect''"
| "validation_error_str (InvalidWorkContract n r) =
     ''execution node `'' @ n @ ''` has invalid work contract: '' @ r"
| "validation_error_str CountUnderflow = ''attempt to subtract with overflow''"

definition controlled_recovery_stream_id :: "rstring \<Rightarrow> rstring \<Rightarrow> rstring \<Rightarrow> rstring" where
  "controlled_recovery_stream_id session_id turn_id execution_id =
     ''authorization-recovery:'' @ session_id @ '':turn:'' @ turn_id @ '':execution:'' @ execution_id"

definition has_ref :: "rstring \<Rightarrow> rstring \<Rightarrow> runtime_event_input \<Rightarrow> bool" where
  "has_ref kind i input = list_ex (\<lambda>r. ref_kind r = kind \<and> ref_id r = i) (in_refs input)"

definition is_controlled_recovery_terminal_event :: "commit_env \<Rightarrow> runtime_event_input \<Rightarrow> bool" where
  "is_controlled_recovery_terminal_event env input =
    (in_scope input = ScTool \<and> in_kind input = ''authorization.controlled_recovery_terminal''
     \<and> in_status input = Some ''terminal''
     \<and> (case ce_decode_recovery_terminal env (in_payload input) of
          None \<Rightarrow> False
        | Some r \<Rightarrow> crt_recovery_scope r = ''turn:'' @ crt_turn_id r
            \<and> in_stream_id input = controlled_recovery_stream_id (crt_session_id r) (crt_turn_id r) (crt_execution_id r)
            \<and> has_ref ''execution'' (crt_execution_id r) input \<and> has_ref ''session'' (crt_session_id r) input
            \<and> has_ref ''turn'' (crt_turn_id r) input))"

definition validate_executor_domain_events ::
  "commit_env \<Rightarrow> runtime_transaction_event_input list \<Rightarrow> (commit_error, unit) result" where
  "validate_executor_domain_events env domain_events =
    (case find (\<lambda>e. in_scope (ti_event e) \<notin> set [ScExecutionNode, ScGoal, ScSessionInput, ScRelation,
         ScTeam, ScApproval] \<and> \<not> is_controlled_recovery_terminal_event env (ti_event e)) domain_events of
       Some e \<Rightarrow> Err (CeProtectedDomainScope (scope_as_str (in_scope (ti_event e))))
     | None \<Rightarrow> Ok ())"

definition ref :: "rstring \<Rightarrow> rstring \<Rightarrow> runtime_event_ref" where
  "ref kind i = \<lparr> ref_kind = kind, ref_id = i \<rparr>"

definition packet_refs :: "packet_identity \<Rightarrow> runtime_event_ref list" where
  "packet_refs p = [ref ''principal'' (pk_principal_id p), ref ''workspace'' (pk_workspace_id p),
      ref ''mission'' (pk_mission_id p), ref ''task'' (pk_task_id p), ref ''session'' (pk_session_id p),
      ref ''agent_run'' (pk_run_id p), ref ''execution_node'' (pk_node_id p)]
    @ (case pk_turn_id p of Some t \<Rightarrow> [ref ''turn'' t] | None \<Rightarrow> [])
    @ (case pk_team_id p of Some t \<Rightarrow> [ref ''team_run'' t] | None \<Rightarrow> [])"

text \<open>Sorting by kind and then id is two stable sorts; \<open>dedup_by\<close> drops equal neighbours.\<close>
definition graph_identity_refs :: "commit_env \<Rightarrow> execution_graph \<Rightarrow> runtime_event_ref list" where
  "graph_identity_refs env g =
    (let packets = List.map_filter (\<lambda>n. if n_kind n = AgentTask then ce_decode_packet env (n_payload_ref n)
           else None) (g_nodes g);
         refs = ref ''execution_graph'' (g_id g) # concat (map packet_refs packets)
     in remdups_adj (sort_key ref_kind (sort_key ref_id refs)))"

definition validate_replan :: "execution_graph \<Rightarrow> execution_node_spec list \<Rightarrow> (commit_error, unit) result" where
  "validate_replan g nodes =
    (let existing = map n_id (g_nodes g); unique = ss_of_list (map n_id nodes) in
     if nodes = [] \<or> length unique \<noteq> length nodes \<or> list_ex (\<lambda>n. n_id n \<in> set existing) nodes
     then Err (CeInvalidReplan ''replan must add at least one uniquely identified node'')
     else Ok ())"

definition expected_domain_revision :: "ephemeral_state \<Rightarrow> rstring \<Rightarrow> rstring \<Rightarrow> rstring \<Rightarrow> nat" where
  "expected_domain_revision st stream_id tx key =
    (case event_by_idempotency_key st stream_id key of
       None \<Rightarrow> stream_revision st stream_id
     | Some existing \<Rightarrow>
         if ev_transaction_id existing \<noteq> tx then stream_revision st stream_id
         else (case map ev_sequence (filter (\<lambda>e. ev_transaction_id e = tx) (list_stream st stream_id)) of
             [] \<Rightarrow> stream_revision st stream_id
           | s # ss \<Rightarrow> fold min ss s - 1))"

definition node_stream_id :: "rstring \<Rightarrow> rstring \<Rightarrow> rstring" where
  "node_stream_id graph_id node_id = graph_id @ '':node:'' @ node_id"

definition execution_lineage_stream_id :: "rstring \<Rightarrow> rstring" where
  "execution_lineage_stream_id parent = ''execution-lineage:'' @ parent"

definition validated_graph_lineage :: "execution_graph \<Rightarrow> (commit_error, execution_graph_lineage) result" where
  "validated_graph_lineage g =
    (case g_lineage g of
       None \<Rightarrow> Err (CeInvalidCommand (''execution graph `'' @ g_id g
         @ ''` is missing canonical business lineage''))
     | Some l \<Rightarrow> (case lineage_validate l of
         Inl e \<Rightarrow> Err (CeInvalidCommand (''execution graph `'' @ g_id g
           @ ''` has invalid canonical business lineage: '' @ e))
       | Inr _ \<Rightarrow> Ok l))"

definition activity_binding_of ::
  "execution_graph \<Rightarrow> execution_graph_lineage \<Rightarrow> rstring \<Rightarrow> rstring option \<Rightarrow> rstring option
   \<Rightarrow> runtime_activity_binding" where
  "activity_binding_of g l activity node parent =
    \<lparr> ab_root_execution_id = g_id g, ab_session_id = l_session_id l, ab_turn_id = l_turn_id l,
      ab_root_task_id = l_root_task_id l, ab_task_id = l_task_id l, ab_activity_id = activity,
      ab_node_id = node, ab_parent_activity_id = parent, ab_initiator_activity_id = parent,
      ab_team_run_id = None, ab_agent_instance_id = None, ab_agent_run_id = None, ab_skill_id = None,
      ab_skill_revision = None, ab_skill_activation_id = None, ab_tool_contract_id = None,
      ab_tool_call_id = None, ab_approval_id = None, ab_parallel_group_id = None,
      ab_revision = max (g_revision g) 1, ab_fence = max (g_revision g) 1,
      ab_generation = l_generation l \<rparr>"

definition root_activity_binding :: "execution_graph \<Rightarrow> (commit_error, runtime_activity_binding) result" where
  "root_activity_binding g = and_then (validated_graph_lineage g) (\<lambda>l.
     Ok (activity_binding_of g l (''activity:execution:'' @ g_id g) None
       (map_option (\<lambda>p. ''activity:execution:'' @ pb_execution_id p @ '':node:'' @ pb_node_id p)
         (g_parent_execution g))))"

definition node_activity_binding ::
  "execution_graph \<Rightarrow> rstring \<Rightarrow> (commit_error, runtime_activity_binding) result" where
  "node_activity_binding g node_id = and_then (validated_graph_lineage g) (\<lambda>l.
     Ok (activity_binding_of g l (''activity:execution:'' @ g_id g @ '':node:'' @ node_id) (Some node_id)
       (Some (''activity:execution:'' @ g_id g))))"

text \<open>\<open>with_activity_binding\<close> of ports.rs\<close>
fun json_insert :: "rstring \<Rightarrow> json \<Rightarrow> (rstring \<times> json) list \<Rightarrow> (rstring \<times> json) list" where
  "json_insert k v [] = [(k, v)]"
| "json_insert k v ((k', v') # m) = (if k' = k then (k, v) # m else (k', v') # json_insert k v m)"

definition with_activity_binding ::
  "commit_env \<Rightarrow> runtime_activity_binding \<Rightarrow> runtime_event_input \<Rightarrow> (event_store_error, runtime_event_input) result" where
  "with_activity_binding env b input =
    (case ab_validate b of
       Inl e \<Rightarrow> Err (InvalidTransaction e)
     | Inr _ \<Rightarrow> (case in_payload input of
         JObject m \<Rightarrow> Ok (input \<lparr> in_payload :=
           JObject (json_insert ''_runtime_activity_binding'' (ce_encode_binding env b) m) \<rparr>)
       | _ \<Rightarrow> Err (InvalidTransaction ''activity-bound Runtime event payload must be an object'')))"

fun status_name :: "execution_node_status \<Rightarrow> rstring" where
  "status_name Planned = ''planned''"
| "status_name Ready = ''ready''"
| "status_name Running = ''running''"
| "status_name WaitingInput = ''waiting_input''"
| "status_name WaitingApproval = ''waiting_approval''"
| "status_name WaitingExternal = ''waiting_external''"
| "status_name Paused = ''paused''"
| "status_name Completed = ''completed''"
| "status_name Blocked = ''blocked''"
| "status_name Failed = ''failed''"
| "status_name Cancelled = ''cancelled''"

text \<open>\<open>status as u8\<close>: the position of the constructor\<close>
fun status_code :: "execution_node_status \<Rightarrow> nat" where
  "status_code Planned = 0"
| "status_code Ready = 1"
| "status_code Running = 2"
| "status_code WaitingInput = 3"
| "status_code WaitingApproval = 4"
| "status_code WaitingExternal = 5"
| "status_code Paused = 6"
| "status_code Completed = 7"
| "status_code Blocked = 8"
| "status_code Failed = 9"
| "status_code Cancelled = 10"

definition graph_status :: "execution_graph \<Rightarrow> rstring option" where
  "graph_status g =
    (let statuses = sm_values (g_node_statuses g) in
     if statuses = [] then Some ''planned''
     else if list_all is_terminal statuses
     then (if Failed \<in> set statuses then Some ''failed''
           else if Blocked \<in> set statuses then Some ''blocked''
           else if Cancelled \<in> set statuses then Some ''cancelled'' else Some ''completed'')
     else if Paused \<in> set statuses then Some ''paused'' else Some ''running'')"

definition node_transition_event ::
  "commit_env \<Rightarrow> execution_graph \<Rightarrow> rstring \<Rightarrow> execution_node_status \<Rightarrow> execution_node_status
   \<Rightarrow> execution_node_result option \<Rightarrow> (commit_error, runtime_transaction_event_input) result" where
  "node_transition_event env g node_id from to result =
    and_then (node_activity_binding g node_id) (\<lambda>b.
    and_then (map_err CeEventStore (with_activity_binding env b
      \<lparr> in_stream_id = node_stream_id (g_id g) node_id, in_scope = ScExecutionNode,
        in_kind = ''execution_node.transitioned'', in_status = Some (status_name to),
        in_actor = Some ''execution_commit_service'', in_refs = [ref ''execution_graph'' (g_id g)],
        in_payload = JObject [(''graph_id'', JString (g_id g)), (''node_id'', JString node_id),
          (''from'', JString (status_name from)), (''to'', JString (status_name to)),
          (''result'', case result of Some r \<Rightarrow> ce_encode_result env r | None \<Rightarrow> JNull),
          (''graph_revision'', JNumber (nat_str (g_revision g)))] \<rparr>)) (\<lambda>input.
      Ok \<lparr> ti_event = input,
        ti_idempotency_key = Some (g_id g @ '':'' @ node_id @ '':'' @ nat_str (g_revision g)),
        ti_schema_version = 1 \<rparr>))"

fun command_revision :: "execution_graph_command \<Rightarrow> nat" where
  "command_revision (CmdStart r) = r"
| "command_revision (CmdAdvance r) = r"
| "command_revision (CmdPause r _) = r"
| "command_revision (CmdResume r) = r"
| "command_revision (CmdCancel r _) = r"
| "command_revision (CmdCancelNode r _ _) = r"
| "command_revision (CmdSubmitApproval r _ _) = r"
| "command_revision (CmdResolveExternal r _ _ _) = r"
| "command_revision (CmdReplan r _ _) = r"

end
