(* ===== verification/Graph_Commit.thy ===== *)
theory Graph_Commit
  imports Commit_Pipeline
begin

text \<open>
  The commit service, runtime/src/execution_core/graph/commit_service.rs: every durable change of a
  graph is one event-store transaction that appends the graph event, the node events and the
  caller's domain events, fenced by the graph's revision, and then publishes the graph to the hot
  registry.  The state is the event store and the hot registry; an operation that fails leaves it
  as it was.  The wall clock and the random ids are arguments.  The retry loops let other writers
  run between two attempts: \<open>others k\<close> is what they do to the store before attempt \<open>k\<close>.  The queue
  of derived materializations is not modelled (its result is ignored by the code).
\<close>

section \<open>Appending a graph event\<close>

fun domain_expected ::
  "ephemeral_state \<Rightarrow> rstring \<Rightarrow> (rstring, nat) smap \<Rightarrow> rstring sset
   \<Rightarrow> runtime_transaction_event_input list \<Rightarrow> expected_stream_revision list \<times> rstring sset" where
  "domain_expected st tx expected_domain seen [] = ([], seen)"
| "domain_expected st tx expected_domain seen (e # es) =
    (let stream = in_stream_id (ti_event e) in
     if stream \<in> set seen then domain_expected st tx expected_domain seen es
     else let revision = (case sm_get expected_domain stream of
              Some r \<Rightarrow> r
            | None \<Rightarrow> expected_domain_revision st stream tx (str_or_empty (ti_idempotency_key e)));
            (rest, seen') = domain_expected st tx expected_domain (ss_insert stream seen) es
          in (\<lparr> es_stream_id = stream, es_expected_revision = revision \<rparr> # rest, seen'))"

fun readonly_expected :: "rstring sset \<Rightarrow> (rstring, nat) smap \<Rightarrow> expected_stream_revision list" where
  "readonly_expected seen [] = []"
| "readonly_expected seen ((stream, r) # m) =
    (if stream \<in> set seen then readonly_expected seen m
     else \<lparr> es_stream_id = stream, es_expected_revision = r \<rparr> # readonly_expected (ss_insert stream seen) m)"

definition expected_streams ::
  "ephemeral_state \<Rightarrow> rstring \<Rightarrow> nat \<Rightarrow> rstring \<Rightarrow> runtime_transaction_event_input list
   \<Rightarrow> (rstring, nat) smap \<Rightarrow> expected_stream_revision list" where
  "expected_streams st graph_id expected tx domain expected_domain =
    (let (own, seen) = domain_expected st tx expected_domain [graph_id] domain
     in \<lparr> es_stream_id = graph_id, es_expected_revision = expected \<rparr> # own
        @ readonly_expected seen expected_domain)"

definition graph_input ::
  "commit_env \<Rightarrow> execution_graph \<Rightarrow> execution_graph_event \<Rightarrow> (commit_error, runtime_transaction_event_input) result" where
  "graph_input env g ev =
    and_then (root_activity_binding g) (\<lambda>b.
    and_then (map_err CeEventStore (with_activity_binding env b
      \<lparr> in_stream_id = g_id g, in_scope = ScExecutionGraph, in_kind = event_kind ev,
        in_status = graph_status g, in_actor = Some ''execution_commit_service'',
        in_refs = graph_identity_refs env g, in_payload = gc_encode_event (ce_codec env) ev \<rparr>)) (\<lambda>input.
      Ok \<lparr> ti_event = input,
        ti_idempotency_key = Some (g_id g @ '':revision:'' @ nat_str (g_revision g)),
        ti_schema_version = 1 \<rparr>))"

fun find_terminal ::
  "commit_env \<Rightarrow> runtime_transaction_event_input list \<Rightarrow> session_terminal_input option" where
  "find_terminal env [] = None"
| "find_terminal env (e # es) =
    (case (if in_kind (ti_event e) = ''runtime.session.terminal_requested''
           then ce_decode_terminal env (in_payload (ti_event e)) else None) of
       Some t \<Rightarrow> Some t
     | None \<Rightarrow> find_terminal env es)"

definition graph_request ::
  "commit_env \<Rightarrow> ephemeral_state \<Rightarrow> execution_graph \<Rightarrow> nat \<Rightarrow> rstring \<Rightarrow> execution_graph_event
   \<Rightarrow> runtime_transaction_event_input list \<Rightarrow> (rstring, nat) smap
   \<Rightarrow> (commit_error, append_transaction_request) result" where
  "graph_request env st g expected tx ev domain expected_domain =
    and_then (validated_graph_lineage g) (\<lambda>_.
      if list_ex (\<lambda>e. in_stream_id (ti_event e) = g_id g) domain
      then Err (CeGraphStreamCollision (g_id g))
      else (case find (\<lambda>e. ti_idempotency_key e = None) domain of
          Some e \<Rightarrow> Err (CeMissingDomainIdempotency (in_stream_id (ti_event e)))
        | None \<Rightarrow>
            and_then (graph_input env g (maybe_checkpoint (ce_layout env) g ev)) (\<lambda>gi.
              Ok \<lparr> rq_transaction_id = tx,
                rq_expected_streams = expected_streams st (g_id g) expected tx domain expected_domain,
                rq_events = gi # domain \<rparr>)))"

definition append_graph_event_with_expected_domain_revisions ::
  "commit_env \<Rightarrow> (nat \<Rightarrow> rstring) \<Rightarrow> (nat \<Rightarrow> nat) \<Rightarrow> execution_graph \<Rightarrow> nat \<Rightarrow> rstring
   \<Rightarrow> execution_graph_event \<Rightarrow> runtime_transaction_event_input list \<Rightarrow> (rstring, nat) smap
   \<Rightarrow> commit_state \<Rightarrow> (commit_error, commit_state \<times> commit_receipt) result" where
  "append_graph_event_with_expected_domain_revisions env uuids now g expected tx ev domain expected_domain cst =
    and_then (graph_request env (cst_store cst) g expected tx ev domain expected_domain) (\<lambda>rq.
    and_then (map_err CeEventStore
        (append_inner (ce_store env) uuids now rq (find_terminal env domain) (cst_store cst)))
      (\<lambda>(st', transaction).
        let committed = with_commit_cursor (rcp_commit_cursor transaction) g in
        Ok (cst \<lparr> cst_store := st',
              cst_hot := fst (publish_snapshot (ce_evict env (cst_hot cst)) committed (cst_hot cst)) \<rparr>,
            \<lparr> crc_graph = committed, crc_transaction = transaction \<rparr>)))"

definition append_graph_event where
  "append_graph_event env uuids now g expected tx ev domain cst =
     append_graph_event_with_expected_domain_revisions env uuids now g expected tx ev domain [] cst"

definition is_lineage_stream_conflict :: "commit_error \<Rightarrow> rstring sset \<Rightarrow> bool" where
  "is_lineage_stream_conflict e streams = (case e of
     CeEventStore (StoreStaleRevision stream _ _) \<Rightarrow> stream \<in> set streams | _ \<Rightarrow> False)"

definition is_lineage_registration_conflict :: "commit_error \<Rightarrow> rstring option \<Rightarrow> bool" where
  "is_lineage_registration_conflict e stream = (case (e, stream) of
     (CeEventStore (StoreStaleRevision s _ _), Some expected) \<Rightarrow> s = expected | _ \<Rightarrow> False)"

text \<open>The body of a retry loop: up to \<open>n\<close> attempts while the error is a conflict to retry\<close>
fun retry_append ::
  "(nat \<Rightarrow> ephemeral_state \<Rightarrow> ephemeral_state) \<Rightarrow> (commit_error \<Rightarrow> bool)
   \<Rightarrow> (commit_state \<Rightarrow> (commit_error, commit_state \<times> commit_receipt) result) \<Rightarrow> nat \<Rightarrow> commit_error
   \<Rightarrow> commit_state \<Rightarrow> (commit_error, commit_state \<times> commit_receipt) result" where
  "retry_append others again attempt 0 conflict cst = Err conflict"
| "retry_append others again attempt (Suc n) conflict cst =
    (let cst' = cst \<lparr> cst_store := others n (cst_store cst) \<rparr> in
     case attempt cst' of
       Inr r \<Rightarrow> Ok r
     | Inl e \<Rightarrow> if again e then retry_append others again attempt n e cst' else Err e)"

definition append_graph_event_retrying_lineage_conflicts where
  "append_graph_event_retrying_lineage_conflicts env uuids now others g expected tx ev domain cst =
    (let lineage_streams = ss_of_list (filter (starts_with ''execution-lineage:'')
           (map (\<lambda>e. in_stream_id (ti_event e)) domain)) in
     if lineage_streams = [] then append_graph_event env uuids now g expected tx ev domain cst
     else retry_append others (\<lambda>e. is_lineage_stream_conflict e lineage_streams)
       (append_graph_event env uuids now g expected tx ev domain) 8
       (CeInvalidReplan ''lineage transition retry exhausted without a conflict receipt'') cst)"

section \<open>Transitions\<close>

definition lift_transition ::
  "(execution_transition_error, 'a) result \<Rightarrow> (commit_error, 'a) result" where
  "lift_transition r = map_err CeTransition r"

definition status_of :: "execution_graph \<Rightarrow> rstring \<Rightarrow> (commit_error, execution_node_status) result" where
  "status_of g node_id = (case sm_get (g_node_statuses g) node_id of
     Some s \<Rightarrow> Ok s | None \<Rightarrow> Err (CeTransition (NodeNotFound node_id)))"

definition set_attempt :: "rstring \<Rightarrow> nat \<Rightarrow> execution_graph \<Rightarrow> execution_graph" where
  "set_attempt node_id a g = g \<lparr> g_recovery_cursor := (g_recovery_cursor g)
     \<lparr> rc_node_attempts := sm_insert node_id a (rc_node_attempts (g_recovery_cursor g)) \<rparr> \<rparr>"

definition attempt_of :: "execution_graph \<Rightarrow> rstring \<Rightarrow> nat" where
  "attempt_of g node_id = (case sm_get (rc_node_attempts (g_recovery_cursor g)) node_id of
     Some a \<Rightarrow> a | None \<Rightarrow> 0)"

text \<open>
  \<open>team_terminal_candidate\<close> of the knowledge candidate projector: the summary a completed synthesis
  node proposes, with its durable evidence; the candidate built from them is a parameter.
\<close>
definition team_terminal_claim ::
  "execution_graph \<Rightarrow> rstring \<Rightarrow> execution_node_status \<Rightarrow> (rstring \<times> evidence_ref list) option" where
  "team_terminal_claim g node_id to =
    (if to \<noteq> Completed then None
     else case find (\<lambda>n. n_id n = node_id) (g_nodes g) of
       None \<Rightarrow> None
     | Some n \<Rightarrow> if n_kind n \<noteq> Synthesize then None
         else case sm_get (g_node_results g) node_id of
           None \<Rightarrow> None
         | Some r \<Rightarrow> case r_summary r of
             None \<Rightarrow> None
           | Some summary \<Rightarrow>
               let refs = map ea_evidence_ref (filter ea_is_durable (r_evidence_refs r))
               in if is_blank summary \<or> refs = [] then None else Some (trim summary, refs))"

definition candidate_events where
  "candidate_events env g node_id to = (case team_terminal_claim g node_id to of
     None \<Rightarrow> Ok []
   | Some (claim, refs) \<Rightarrow> and_then (map_err CeInvalidCommand (ce_candidate_event env g node_id claim refs))
       (\<lambda>c. Ok (case c of Some e \<Rightarrow> [e] | None \<Rightarrow> [])))"

definition transition_node where
  "transition_node env uuids now others g node_id to result domain cst =
    and_then (validate_executor_domain_events env domain) (\<lambda>_.
    and_then (status_of g node_id) (\<lambda>from.
    and_then (lift_transition (apply_node_transition g (g_revision g) node_id to result)) (\<lambda>next0.
    let next_g = set_attempt node_id (if to = Running then sat_add32 (attempt_of next0 node_id) 1
          else attempt_of next0 node_id) next0;
        tx = g_id g @ '':'' @ node_id @ '':'' @ nat_str (g_revision next_g) @ '':'' @ nat_str (status_code to);
        graph_event = EvNodeTransitioned node_id from to result None (between g next_g)
    in and_then (node_transition_event env next_g node_id from to result) (\<lambda>node_event.
       and_then (candidate_events env next_g node_id to) (\<lambda>candidates.
         append_graph_event_retrying_lineage_conflicts env uuids now others next_g (g_revision g) tx
           graph_event (node_event # domain @ candidates) cst)))))"

definition bind_and_start_node where
  "bind_and_start_node env uuids now g node_id binding cst =
    and_then (status_of g node_id) (\<lambda>from.
    and_then (lift_transition (apply_node_transition g (g_revision g) node_id Running None)) (\<lambda>next0.
    let next_g = set_attempt node_id (nb_attempt binding) next0
    in and_then (node_transition_event env next_g node_id from Running None) (\<lambda>node_event.
       append_graph_event env uuids now next_g (g_revision g)
         (g_id g @ '':'' @ node_id @ '':'' @ nat_str (g_revision next_g) @ '':bound'')
         (EvNodeTransitioned node_id from Running None (Some binding) (between g next_g)) [node_event] cst)))"

definition execution_effect_intent_event ::
  "commit_env \<Rightarrow> node_execution_ticket \<Rightarrow> runtime_transaction_event_input" where
  "execution_effect_intent_event env t = \<lparr> ti_event = \<lparr>
       in_stream_id = ''execution-effect:'' @ tk_idempotency_key t, in_scope = ScExecutionNode,
       in_kind = ''execution.effect.intent'', in_status = Some ''inflight'',
       in_actor = Some (tk_executor_kind t), in_refs = [ref ''execution_node'' (tk_node_id t)],
       in_payload = ce_encode_ticket env t \<rparr>,
     ti_idempotency_key = Some (tk_idempotency_key t @ '':intent''), ti_schema_version = 1 \<rparr>"

definition execution_effect_receipt_event ::
  "commit_env \<Rightarrow> node_execution_ticket \<Rightarrow> node_execution_outcome \<Rightarrow> runtime_transaction_event_input" where
  "execution_effect_receipt_event env t outcome = \<lparr> ti_event = \<lparr>
       in_stream_id = ''execution-effect:'' @ tk_idempotency_key t, in_scope = ScExecutionNode,
       in_kind = ''execution.effect.receipt'', in_status = Some ''completed'',
       in_actor = Some (tk_executor_kind t), in_refs = [ref ''execution_node'' (tk_node_id t)],
       in_payload = ce_encode_outcome env outcome \<rparr>,
     ti_idempotency_key = Some (tk_idempotency_key t @ '':receipt''), ti_schema_version = 1 \<rparr>"

definition start_one ::
  "execution_graph \<times> (rstring \<times> execution_node_status) list \<Rightarrow> rstring \<times> execution_node_binding
   \<Rightarrow> (commit_error, execution_graph \<times> (rstring \<times> execution_node_status) list) result" where
  "start_one = (\<lambda>(next_g, facts) (node_id, binding).
    and_then (status_of next_g node_id) (\<lambda>from.
    and_then (lift_transition (apply_node_transition next_g (g_revision next_g) node_id Running None)) (\<lambda>n.
      Ok (set_attempt node_id (nb_attempt binding) n, facts @ [(node_id, from)]))))"

definition bind_and_start_nodes where
  "bind_and_start_nodes env uuids now g bindings effect_tickets cst =
    (if bindings = [] then Err (CeInvalidCommand ''cannot start an empty execution wave'')
     else and_then (try_fold start_one (g, []) bindings) (\<lambda>(n, facts).
       let next_g = n \<lparr> g_revision := sat_add64 (g_revision g) 1 \<rparr>
       in and_then (collect_ok (\<lambda>(node_id, from). node_transition_event env next_g node_id from Running None) facts)
         (\<lambda>node_events.
           append_graph_event env uuids now next_g (g_revision g)
             (g_id g @ '':wave:'' @ nat_str (g_revision next_g) @ '':started'')
             (EvNodesStarted bindings (between g next_g))
             (node_events @ map (execution_effect_intent_event env) effect_tickets) cst)))"

definition finish_one ::
  "execution_graph \<times> (rstring \<times> execution_node_status \<times> execution_node_status) list \<Rightarrow> execution_terminal_commit
   \<Rightarrow> (commit_error, execution_graph \<times> (rstring \<times> execution_node_status \<times> execution_node_status) list) result" where
  "finish_one = (\<lambda>(next_g, facts) t.
    if oc_replan (tc_outcome t) \<noteq> None \<or> oc_delivery_envelope (tc_outcome t) \<noteq> None
       \<or> oc_terminal_presentation (tc_outcome t) \<noteq> None
    then Err (CeInvalidCommand (''node `'' @ tc_node_id t @ ''` carries a non-batchable terminal mutation''))
    else and_then (status_of next_g (tc_node_id t)) (\<lambda>from.
      and_then (lift_transition (apply_node_transition next_g (g_revision next_g) (tc_node_id t)
          (r_status (oc_result (tc_outcome t))) (Some (oc_result (tc_outcome t))))) (\<lambda>n.
        Ok (n, facts @ [(tc_node_id t, from, r_status (oc_result (tc_outcome t)))]))))"

definition finish_events ::
  "commit_env \<Rightarrow> execution_graph \<Rightarrow> execution_terminal_commit \<times> rstring \<times> execution_node_status \<times> execution_node_status
   \<Rightarrow> (commit_error, runtime_transaction_event_input list) result" where
  "finish_events env next_g = (\<lambda>(t, node_id, from, to).
    and_then (node_transition_event env next_g node_id from to (Some (oc_result (tc_outcome t)))) (\<lambda>e.
    and_then (candidate_events env next_g node_id to) (\<lambda>candidates.
      Ok (e # oc_domain_events (tc_outcome t) @ candidates
        @ (case tc_effect_ticket t of Some k \<Rightarrow> [execution_effect_receipt_event env k (tc_outcome t)]
           | None \<Rightarrow> [])))))"

definition transition_nodes where
  "transition_nodes env uuids now g transitions cst =
    (if transitions = [] then Err (CeInvalidCommand ''cannot commit an empty terminal wave'')
     else and_then (try_fold (\<lambda>_ t. validate_executor_domain_events env (oc_domain_events (tc_outcome t))) () transitions)
       (\<lambda>_. and_then (try_fold finish_one (g, []) transitions) (\<lambda>(n, facts).
         let next_g = n \<lparr> g_revision := sat_add64 (g_revision g) 1 \<rparr>
         in and_then (collect_ok (finish_events env next_g) (zip transitions facts)) (\<lambda>events.
           append_graph_event env uuids now next_g (g_revision g)
             (g_id g @ '':wave:'' @ nat_str (g_revision next_g) @ '':terminal'')
             (EvNodesTransitioned (map tc_node_id transitions) (between g next_g)) (concat events) cst))))"

section \<open>Replanning\<close>

definition add_planned ::
  "execution_node_spec list \<Rightarrow> execution_edge list \<Rightarrow> execution_graph \<Rightarrow> execution_graph" where
  "add_planned nodes edges g = g \<lparr>
     g_node_statuses := fold (\<lambda>n. sm_insert (n_id n) Planned) nodes (g_node_statuses g),
     g_nodes := g_nodes g @ nodes, g_edges := g_edges g @ edges \<rparr>"

definition validate_replanned :: "execution_graph \<Rightarrow> (commit_error, rstring list list) result" where
  "validate_replanned g = map_err (\<lambda>e. CeInvalidReplan (validation_error_str e)) (validate_execution_graph g)"

definition transition_node_with_replan where
  "transition_node_with_replan env uuids now others g node_id result domain nodes edges reason cst =
    and_then (validate_executor_domain_events env domain) (\<lambda>_.
    and_then (validate_replan g nodes) (\<lambda>_.
    and_then (status_of g node_id) (\<lambda>from.
    and_then (lift_transition (apply_node_transition g (g_revision g) node_id (r_status result) (Some result))) (\<lambda>n.
    let next_g = add_planned nodes edges n
    in and_then (validate_replanned next_g) (\<lambda>_.
       and_then (node_transition_event env next_g node_id from (r_status result) (Some result)) (\<lambda>node_event.
       and_then (candidate_events env next_g node_id (r_status result)) (\<lambda>candidates.
         append_graph_event_retrying_lineage_conflicts env uuids now others next_g (g_revision g)
           (g_id g @ '':'' @ node_id @ '':'' @ nat_str (g_revision next_g) @ '':terminal-replan'')
           (EvNodeTransitionedAndReplanned node_id from (r_status result) result reason (map n_id nodes)
              (between g next_g))
           (node_event # domain @ candidates) cst)))))))"

definition replan where
  "replan env uuids now g nodes edges reason cst =
    and_then (validate_replan g nodes) (\<lambda>_.
    let next_g = (add_planned nodes edges g) \<lparr> g_revision := sat_add64 (g_revision g) 1 \<rparr>
    in and_then (validate_replanned next_g) (\<lambda>_.
       append_graph_event env uuids now next_g (g_revision g)
         (g_id g @ '':replan:'' @ nat_str (g_revision next_g))
         (EvReplanned reason (map n_id nodes) (between g next_g)) [] cst))"

definition retarget_planned_graph where
  "retarget_planned_graph env uuids now g replacement reason cst =
    (if g_nodes g = [] \<or> list_ex (\<lambda>s. s \<noteq> Planned) (sm_values (g_node_statuses g))
        \<or> g_node_results g \<noteq> [] \<or> g_nodes replacement = [] \<or> g_id replacement \<noteq> g_id g
     then Err (CeInvalidReplan ''strategy retarget requires the same non-empty graph id before any node starts'')
     else let next_g = replacement \<lparr> g_revision := sat_add64 (g_revision g) 1,
              g_recovery_cursor := g_recovery_cursor g, g_node_results := [],
              g_node_statuses := fold (\<lambda>n. sm_insert (n_id n) Planned) (g_nodes replacement) [] \<rparr>
       in and_then (validate_replanned next_g) (\<lambda>_.
         append_graph_event env uuids now next_g (g_revision g)
           (g_id g @ '':strategy-retarget:'' @ nat_str (g_revision next_g))
           (EvReplanned reason (map n_id (g_nodes next_g)) (between g next_g)) [] cst))"

section \<open>Commands\<close>

definition map_statuses ::
  "(execution_node_status \<Rightarrow> execution_node_status) \<Rightarrow> execution_graph \<Rightarrow> execution_graph" where
  "map_statuses f g = g \<lparr> g_node_statuses := map (\<lambda>(k, s). (k, f s)) (g_node_statuses g) \<rparr>"

definition set_status :: "rstring \<Rightarrow> execution_node_status \<Rightarrow> execution_graph \<Rightarrow> execution_graph" where
  "set_status node_id s g = g \<lparr> g_node_statuses := sm_insert node_id s (g_node_statuses g) \<rparr>"

definition external_result :: "rstring \<Rightarrow> nat \<Rightarrow> execution_node_result" where
  "external_result result_ref clock = \<lparr> r_status = Completed, r_result_ref = Some result_ref,
     r_summary = None, r_evidence_refs = [], r_failure = None, r_usage = usage_default,
     r_finished_at_ms = clock \<rparr>"

definition pause_status where
  "pause_status s = (if s = Ready \<or> s = Running then Paused else s)"

definition resume_status where
  "resume_status s = (if s = Paused then Ready else s)"

definition cancel_status where
  "cancel_status s = (if is_terminal s then s else Cancelled)"

text \<open>The match on the command: the graph before its revision is bumped\<close>
fun command_effect ::
  "nat \<Rightarrow> execution_graph \<Rightarrow> execution_graph_command \<Rightarrow> (commit_error, execution_graph) result" where
  "command_effect clock g (CmdStart _) = Ok g"
| "command_effect clock g (CmdPause _ _) = Ok (map_statuses pause_status g)"
| "command_effect clock g (CmdResume _) = Ok (map_statuses resume_status g)"
| "command_effect clock g (CmdAdvance _) = Ok (map_statuses resume_status g)"
| "command_effect clock g (CmdCancel _ _) = Ok (map_statuses cancel_status g)"
| "command_effect clock g (CmdCancelNode _ node_id _) =
    (case sm_get (g_node_statuses g) node_id of
       None \<Rightarrow> Err (CeInvalidCommand (''cancel target node `'' @ node_id @ ''` does not exist''))
     | Some s \<Rightarrow> Ok (if is_terminal s then g else set_status node_id Cancelled g))"
| "command_effect clock g (CmdSubmitApproval _ node_id decision) =
    (case sm_get (g_node_statuses g) node_id of
       None \<Rightarrow> Err (CeInvalidCommand (''approval node `'' @ node_id @ ''` does not exist''))
     | Some s \<Rightarrow>
         if s \<noteq> WaitingApproval
         then Err (CeInvalidCommand (''node `'' @ node_id @ ''` is not waiting for approval''))
         else Ok (set_status node_id (if ad_approved decision then Ready else Cancelled) g))"
| "command_effect clock g (CmdResolveExternal _ node_id result_ref _) =
    (case sm_get (g_node_statuses g) node_id of
       None \<Rightarrow> Err (CeInvalidCommand (''external result node `'' @ node_id @ ''` does not exist''))
     | Some s \<Rightarrow>
         if s \<noteq> WaitingExternal
         then Err (CeInvalidCommand (''node `'' @ node_id @ ''` is not waiting for an external result''))
         else Ok ((set_status node_id Completed g) \<lparr> g_node_results :=
           sm_insert node_id (external_result result_ref clock) (g_node_results g) \<rparr>))"
| "command_effect clock g (CmdReplan _ _ _) =
    Err (CeInvalidCommand
      ''replan requires the graph compiler and cannot be applied as a status mutation'')"

text \<open>One node event per node whose status differs, in the order of the map\<close>
definition changed_node_events ::
  "commit_env \<Rightarrow> execution_graph \<Rightarrow> execution_graph \<Rightarrow> (commit_error, runtime_transaction_event_input list) result" where
  "changed_node_events env g next_g =
    collect_ok (\<lambda>(node_id, to). node_transition_event env next_g node_id
        (case sm_get (g_node_statuses g) node_id of Some s \<Rightarrow> s | None \<Rightarrow> to) to None)
      (filter (\<lambda>(node_id, to). sm_get (g_node_statuses g) node_id \<noteq> Some to) (g_node_statuses next_g))"

fun external_event ::
  "execution_graph \<Rightarrow> execution_graph_command \<Rightarrow> runtime_transaction_event_input list" where
  "external_event g (CmdResolveExternal _ node_id result_ref correlation_id) =
    [\<lparr> ti_event = \<lparr> in_stream_id = ''session-handoff-correlation:'' @ correlation_id,
         in_scope = ScSessionInput, in_kind = ''session.handoff.source_resolved.v1'',
         in_status = Some ''completed'', in_actor = Some ''ExecutionGraphRunner'',
         in_refs = [ref ''execution_graph'' (g_id g), ref ''execution_node'' node_id],
         in_payload = JObject [(''result_ref'', JString result_ref),
           (''correlation_id'', JString correlation_id)] \<rparr>,
       ti_idempotency_key = Some (''session-handoff-source-resolved:'' @ g_id g @ '':'' @ node_id
         @ '':'' @ correlation_id),
       ti_schema_version = 1 \<rparr>]"
| "external_event g _ = []"

definition graph_approval_id :: "commit_env \<Rightarrow> rstring \<Rightarrow> rstring \<Rightarrow> rstring" where
  "graph_approval_id env graph_id node_id = ''approval:v1:'' @ ce_base64 env graph_id @ '':'' @ ce_base64 env node_id"

fun decision_part ::
  "commit_env \<Rightarrow> nat \<Rightarrow> execution_graph \<Rightarrow> ephemeral_state \<Rightarrow> execution_graph_command
   \<Rightarrow> (commit_error, runtime_transaction_event_input list \<times> (rstring, nat) smap) result" where
  "decision_part env clock g st (CmdSubmitApproval _ node_id decision) =
    (if ad_approval_id decision \<noteq> graph_approval_id env (g_id g) node_id
     then Err (CeInvalidCommand (''approval decision `'' @ ad_approval_id decision
       @ ''` does not own graph node `'' @ node_id @ ''`''))
     else and_then (map_err CeInvalidCommand (ce_decision_events env st decision clock)) (\<lambda>p.
       Ok (pd_events p, [(pd_stream_id p, pd_expected_stream_revision p)])))"
| "decision_part env clock g st _ = Ok ([], [])"

fun command_metadata :: "execution_graph_command \<Rightarrow> rstring \<times> rstring option" where
  "command_metadata (CmdStart _) = (''start'', None)"
| "command_metadata (CmdAdvance _) = (''advance'', None)"
| "command_metadata (CmdPause _ reason) = (''pause'', Some reason)"
| "command_metadata (CmdResume _) = (''resume'', None)"
| "command_metadata (CmdCancel _ reason) = (''cancel'', Some reason)"
| "command_metadata (CmdCancelNode _ _ reason) = (''cancel_node'', Some reason)"
| "command_metadata (CmdSubmitApproval _ _ _) = (''submit_approval'', None)"
| "command_metadata (CmdResolveExternal _ _ _ _) = (''resolve_external'', None)"
| "command_metadata (CmdReplan _ reason _) = (''replan'', Some reason)"

definition validate_command_revision :: "execution_graph \<Rightarrow> execution_graph_command \<Rightarrow> (commit_error, unit) result" where
  "validate_command_revision g command =
    (if command_revision command \<noteq> g_revision g
     then Err (CeStaleRevision (g_id g) (command_revision command) (g_revision g)) else Ok ())"

definition apply_command where
  "apply_command env uuids now clock g command cst =
    and_then (validate_command_revision g command) (\<lambda>_.
    and_then (command_effect clock g command) (\<lambda>n.
    let next_g = n \<lparr> g_revision := sat_add64 (g_revision n) 1 \<rparr>
    in and_then (map_err (\<lambda>e. CeInvalidCommand (''graph command violates execution invariants: ''
           @ validation_error_str e)) (validate_execution_graph next_g)) (\<lambda>_.
       and_then (changed_node_events env g next_g) (\<lambda>node_events.
       and_then (decision_part env clock g (cst_store cst) command) (\<lambda>(decisions, expected_domain).
         append_graph_event_with_expected_domain_revisions env uuids now next_g (g_revision g)
           (g_id g @ '':command:'' @ fst (command_metadata command) @ '':'' @ nat_str (g_revision next_g))
           (EvCommandApplied (fst (command_metadata command)) (snd (command_metadata command)) (between g next_g))
           (node_events @ external_event g command @ decisions) expected_domain cst)))))"

definition commit_recovery where
  "commit_recovery env uuids now g next0 recovered blocked cst =
    (let next_g = next0 \<lparr> g_revision := sat_add64 (g_revision g) 1 \<rparr>
     in and_then (changed_node_events env g next_g) (\<lambda>node_events.
       append_graph_event env uuids now next_g (g_revision g)
         (g_id g @ '':recovery:'' @ nat_str (g_revision next_g))
         (EvRecovered recovered blocked (between g next_g)) node_events cst))"

section \<open>Registration\<close>

definition planned_graph :: "execution_graph \<Rightarrow> execution_graph" where
  "planned_graph g = g \<lparr> g_revision := 1, g_node_results := [],
     g_recovery_cursor := \<lparr> rc_commit_cursor = 0, rc_node_attempts = [] \<rparr>,
     g_node_statuses := fold (\<lambda>n. sm_insert (n_id n) Planned) (g_nodes g) [] \<rparr>"

definition lineage_event :: "execution_graph \<Rightarrow> runtime_transaction_event_input option" where
  "lineage_event g = map_option (\<lambda>p. \<lparr> ti_event = \<lparr>
       in_stream_id = execution_lineage_stream_id (pb_execution_id p), in_scope = ScRelation,
       in_kind = ''execution.lineage.child_registered.v1'', in_status = Some ''registered'',
       in_actor = Some ''execution_commit_service'',
       in_refs = [ref ''execution_graph'' (pb_execution_id p), ref ''execution_node'' (pb_node_id p),
         ref ''execution_graph'' (g_id g)],
       in_payload = JObject [(''parent_execution_id'', JString (pb_execution_id p)),
         (''parent_node_id'', JString (pb_node_id p)), (''child_execution_id'', JString (g_id g)),
         (''child_objective'', JString (g_objective g))] \<rparr>,
     ti_idempotency_key = Some (pb_execution_id p @ '':child:'' @ g_id g), ti_schema_version = 1 \<rparr>)
     (g_parent_execution g)"

definition existing_continuation_root ::
  "ephemeral_state \<Rightarrow> runtime_transaction_event_input \<Rightarrow> (commit_error, rstring option) result" where
  "existing_continuation_root st e =
    (case ti_idempotency_key e of
       None \<Rightarrow> Err (CeMissingDomainIdempotency (in_stream_id (ti_event e)))
     | Some key \<Rightarrow> (case event_by_idempotency_key st (in_stream_id (ti_event e)) key of
         None \<Rightarrow> Ok None
       | Some existing \<Rightarrow>
           (case json_get (ev_payload existing) ''root_graph_id'' of
              Some (JString i) \<Rightarrow>
                if is_blank i
                then Err (CeInvalidCommand ''existing continuation claim has no durable root graph id'')
                else Ok (Some i)
            | _ \<Rightarrow> Err (CeInvalidCommand ''existing continuation claim has no durable root graph id''))))"

definition refuse_existing ::
  "ephemeral_state \<Rightarrow> runtime_transaction_event_input option \<Rightarrow> (commit_error, unit) result" where
  "refuse_existing st claim = (case claim of
     None \<Rightarrow> Ok ()
   | Some e \<Rightarrow> and_then (existing_continuation_root st e) (\<lambda>root.
       case root of Some i \<Rightarrow> Err (CeAlreadyAppliedSame i) | None \<Rightarrow> Ok ()))"

text \<open>The claim on a continuation, session/collaboration_continuation.rs\<close>
definition continuation_claim_key :: "collaboration_continuation_binding \<Rightarrow> rstring" where
  "continuation_claim_key b = ''continuation:'' @ cb_current_ingress b @ '':'' @ cb_binding_digest b"

definition team_set_authority :: "rstring \<Rightarrow> (rstring \<times> rstring) option" where
  "team_set_authority r = (case strip_prefix ''agentic_program:'' r of
     Some program_id \<Rightarrow> Some (''agentic_program'', program_id)
   | None \<Rightarrow> map_option (Pair ''session_handoff'') (strip_prefix ''session_handoff:'' r))"

definition graph_continuation_claim_event ::
  "commit_env \<Rightarrow> collaboration_continuation_binding \<Rightarrow> rstring
   \<Rightarrow> (rstring, runtime_transaction_event_input) result" where
  "graph_continuation_claim_event env b root_graph_id =
    and_then (ce_continuation_digest env b) (\<lambda>digest.
    if cb_binding_digest b \<noteq> digest
    then Err ''continuation binding digest does not match its authority fields''
    else if is_blank root_graph_id \<or> is_blank (cb_current_ingress b) \<or> is_blank (cb_source_session_id b)
      \<or> is_blank (cb_source_root_id b) \<or> is_blank (cb_team_set_ref b)
    then Err ''continuation graph claim has an incomplete immutable binding''
    else case team_set_authority (cb_team_set_ref b) of
      None \<Rightarrow> Err ''continuation team_set_ref has no typed authority''
    | Some (kind, i) \<Rightarrow> Ok \<lparr> ti_event = \<lparr> in_stream_id = ''continuation-cas'', in_scope = ScRelation,
          in_kind = ''team.continuation.root_claimed.v2'', in_status = Some ''claimed'',
          in_actor = Some ''execution_commit_service'',
          in_refs = [ref ''session'' (cb_source_session_id b), ref ''execution_graph'' (cb_source_root_id b),
            ref kind i, ref ''execution_graph'' root_graph_id, ref ''session_input'' (cb_current_ingress b)],
          in_payload = JObject [(''root_graph_id'', JString root_graph_id), (''binding'', ce_encode_continuation env b)] \<rparr>,
        ti_idempotency_key = Some (continuation_claim_key b), ti_schema_version = 1 \<rparr>)"

definition continuation_claim ::
  "commit_env \<Rightarrow> execution_graph \<Rightarrow> (commit_error, runtime_transaction_event_input option) result" where
  "continuation_claim env g = (case g_continuation_binding g of
     None \<Rightarrow> Ok None
   | Some b \<Rightarrow> and_then (map_err CeInvalidCommand (graph_continuation_claim_event env b (g_id g))) (\<lambda>e. Ok (Some e)))"

definition continuation_seed ::
  "commit_env \<Rightarrow> ephemeral_state \<Rightarrow> execution_graph \<Rightarrow> json option
   \<Rightarrow> (commit_error, runtime_transaction_event_input list \<times> (rstring, nat) smap) result" where
  "continuation_seed env st g actor = (case actor of
     Some a \<Rightarrow> map_err CeInvalidCommand (ce_continuation_seed env st g a)
   | None \<Rightarrow>
       (case (case g_continuation_binding g of
                Some b \<Rightarrow> strip_prefix ''agentic_program:'' (cb_team_set_ref b) | None \<Rightarrow> None) of
          None \<Rightarrow> Ok ([], [])
        | Some source_id \<Rightarrow> and_then (map_err CeInvalidCommand (ce_source_unfinished env st source_id)) (\<lambda>unfinished.
            if unfinished
            then Err (CeInvalidCommand ''unfinished continuation requires an atomic Program seed'')
            else Ok ([], []))))"

definition fenced_parent :: "execution_graph \<Rightarrow> execution_parent_binding option" where
  "fenced_parent g = (case g_parent_execution g of
     Some p \<Rightarrow> if list_ex (\<lambda>n. n_kind n = AgentTask
           \<and> list_ex (starts_with ''program:'') (n_resource_scopes n)) (g_nodes g)
         then Some p else None
   | None \<Rightarrow> None)"

text \<open>The parent's stream is read and its revision becomes a fence of the transaction.\<close>
definition parent_fence ::
  "commit_env \<Rightarrow> ephemeral_state \<Rightarrow> execution_parent_binding option \<Rightarrow> (rstring, nat) smap
   \<Rightarrow> (commit_error, (rstring, nat) smap) result" where
  "parent_fence env st parent revisions = (case parent of
     None \<Rightarrow> Ok revisions
   | Some p \<Rightarrow> (case project_graph_events (ce_codec env) (pb_execution_id p) (list_stream st (pb_execution_id p)) of
       Inl e \<Rightarrow> Err (CeInvalidCommand (state_store_error_str e))
     | Inr source \<Rightarrow>
         if g_node_statuses source \<noteq> [] \<and> list_all is_terminal (sm_values (g_node_statuses source))
         then Err (CeInvalidCommand ''Agentic parent is terminal; dispatch authority has ended'')
         else Ok (sm_insert (g_id source) (g_revision source) revisions)))"

fun register_loop where
  "register_loop env uuids now others again g domain revisions claim 0 conflict cst = Err conflict"
| "register_loop env uuids now others again g domain revisions claim (Suc n) conflict cst =
    (let cst' = cst \<lparr> cst_store := others n (cst_store cst) \<rparr> in
     and_then (parent_fence env (cst_store cst') (fenced_parent g) revisions) (\<lambda>expected_domain.
       case append_graph_event_with_expected_domain_revisions env uuids now g 0 (g_id g @ '':planned'')
              (EvPlanned g) domain expected_domain cst' of
         Inr r \<Rightarrow> Ok r
       | Inl e \<Rightarrow>
           if again e
           then register_loop env uuids now others again g domain revisions claim n e cst'
           else and_then (refuse_existing (cst_store cst') claim) (\<lambda>_. Err e)))"

definition register_graph_with_continuation where
  "register_graph_with_continuation env uuids now others graph actor cst =
    (let g = planned_graph graph;
         lineage_stream = map_option (\<lambda>p. execution_lineage_stream_id (pb_execution_id p)) (g_parent_execution g)
     in and_then (continuation_claim env g) (\<lambda>claim.
        and_then (refuse_existing (cst_store cst) claim) (\<lambda>_.
        and_then (continuation_seed env (cst_store cst) g actor) (\<lambda>(seed, revisions).
          register_loop env uuids now others
            (\<lambda>e. is_lineage_registration_conflict e lineage_stream
               \<or> is_lineage_registration_conflict e (map_option pb_execution_id (fenced_parent g)))
            g ((case lineage_event g of Some e \<Rightarrow> [e] | None \<Rightarrow> [])
               @ (case claim of Some e \<Rightarrow> [e] | None \<Rightarrow> []) @ seed)
            revisions claim 8
            (CeInvalidReplan ''lineage registration retry exhausted without a conflict receipt'') cst))))"

definition register_graph where
  "register_graph env uuids now others graph cst =
     register_graph_with_continuation env uuids now others graph None cst"

end
