(* ===== verification/Recovery.thy ===== *)
theory Recovery
  imports Graph_Commit
begin

text \<open>
  The executor registry, runtime/src/execution_core/graph/registry.rs, the recovery of a graph after
  a process restart, recovery.rs, and the child links of a parent execution, state_store.rs.  An
  executor is a trait object; its \<open>validate\<close> and \<open>recover\<close> calls are fields of \<open>node_executor\<close>.
\<close>

section \<open>Executor registry\<close>

datatype node_executor_error =
  DuplicateExecutor rstring
| NeUnavailable rstring rstring
| NeInvalid rstring rstring
| NeStart rstring rstring
| NePoll rstring rstring
| NeCancel rstring rstring
| NeRecover rstring rstring
| NeUncertain rstring rstring

record node_executor =
  ex_kind :: rstring
  ex_validate :: "execution_node_spec \<Rightarrow> (node_executor_error, unit) result"
  ex_recover :: "node_execution_ticket \<Rightarrow> (node_executor_error, node_execution_ticket) result"

type_synonym executor_registry = "(rstring, node_executor) smap"

definition registry_register ::
  "node_executor \<Rightarrow> executor_registry \<Rightarrow> (node_executor_error, executor_registry) result" where
  "registry_register ex reg =
    (if sm_contains reg (ex_kind ex) then Err (DuplicateExecutor (ex_kind ex))
     else Ok (sm_insert (ex_kind ex) ex reg))"

definition registry_get :: "executor_registry \<Rightarrow> rstring \<Rightarrow> node_executor option" where
  "registry_get reg kind = sm_get reg kind"

definition available_kinds :: "executor_registry \<Rightarrow> rstring sset" where
  "available_kinds reg = ss_of_list (sm_keys reg)"

definition validate_nodes ::
  "executor_registry \<Rightarrow> execution_node_spec list \<Rightarrow> (node_executor_error, unit) result" where
  "validate_nodes reg nodes = try_fold (\<lambda>_ n. case registry_get reg (n_executor_kind n) of
     None \<Rightarrow> Err (NeUnavailable (n_executor_kind n) (n_id n))
   | Some ex \<Rightarrow> ex_validate ex n) () nodes"

definition validate_graph :: "executor_registry \<Rightarrow> execution_graph \<Rightarrow> (node_executor_error, unit) result" where
  "validate_graph reg g = validate_nodes reg (g_nodes g)"

section \<open>Recovery\<close>

datatype recovery_error =
  ReState state_store_error
| ReCommit commit_error
| ReExecutor node_executor_error
| RePanic rstring

definition recovery_ticket :: "execution_graph \<Rightarrow> execution_node_spec \<Rightarrow> node_execution_ticket" where
  "recovery_ticket g n = \<lparr> tk_graph_id = g_id g, tk_node_id = n_id n, tk_executor_kind = n_executor_kind n,
     tk_service_class = g_service_class g,
     tk_attempt = (case sm_get (rc_node_attempts (g_recovery_cursor g)) (n_id n) of Some a \<Rightarrow> a | None \<Rightarrow> 1),
     tk_idempotency_key = n_idempotency_key n, tk_payload_ref = n_payload_ref n \<rparr>"

text \<open>One node of the loop: the graph under construction, the recovered and the blocked nodes\<close>
definition recover_node ::
  "executor_registry \<Rightarrow> execution_graph \<Rightarrow> execution_graph \<times> rstring list \<times> rstring list
   \<Rightarrow> execution_node_spec \<Rightarrow> (recovery_error, execution_graph \<times> rstring list \<times> rstring list) result" where
  "recover_node reg g = (\<lambda>(next_g, recovered, blocked) n.
    case sm_get (g_node_statuses g) (n_id n) of
      None \<Rightarrow> Err (RePanic (n_id n))
    | Some s \<Rightarrow>
        if s \<noteq> Running then Ok (next_g, recovered, blocked)
        else (case registry_get reg (n_executor_kind n) of
          None \<Rightarrow> Ok (set_status (n_id n) Blocked next_g, recovered, blocked @ [n_id n])
        | Some ex \<Rightarrow> and_then (map_err ReExecutor (ex_recover ex (recovery_ticket g n))) (\<lambda>_.
            Ok (set_status (n_id n) Ready next_g, recovered @ [n_id n], blocked))))"

text \<open>The load may fill the hot registry even when what follows fails, so the state is returned.\<close>
definition recover ::
  "commit_env \<Rightarrow> (nat \<Rightarrow> rstring) \<Rightarrow> (nat \<Rightarrow> nat) \<Rightarrow> executor_registry \<Rightarrow> bool \<Rightarrow> rstring \<Rightarrow> commit_state
   \<Rightarrow> commit_state \<times> (recovery_error, execution_graph) result" where
  "recover env uuids now reg verify graph_id cst =
    (case load_snapshot (ce_codec env) verify (ce_evict env (cst_hot cst)) graph_id (cst_store cst) (cst_hot cst) of
       (hot, Inl e) \<Rightarrow> (cst \<lparr> cst_hot := hot \<rparr>, Err (ReState e))
     | (hot, Inr g) \<Rightarrow>
         (case try_fold (recover_node reg g) (g, [], []) (g_nodes g) of
            Inl e \<Rightarrow> (cst \<lparr> cst_hot := hot \<rparr>, Err e)
          | Inr (next_g, recovered, blocked) \<Rightarrow>
              if recovered = [] \<and> blocked = [] then (cst \<lparr> cst_hot := hot \<rparr>, Ok g)
              else (case commit_recovery env uuids now g next_g recovered blocked (cst \<lparr> cst_hot := hot \<rparr>) of
                Inl e \<Rightarrow> (cst \<lparr> cst_hot := hot \<rparr>, Err (ReCommit e))
              | Inr (cst', rc) \<Rightarrow> (cst', Ok (crc_graph rc)))))"

section \<open>Child links\<close>

record execution_child_link =
  cl_parent_execution_id :: rstring
  cl_parent_node_id :: rstring
  cl_child_execution_id :: rstring
  cl_child_objective :: rstring

fun dedup_by_key :: "('a \<Rightarrow> 'b) \<Rightarrow> 'a list \<Rightarrow> 'a list" where
  "dedup_by_key f [] = []"
| "dedup_by_key f [x] = [x]"
| "dedup_by_key f (x # y # ys) =
    (if f y = f x then dedup_by_key f (x # ys) else x # dedup_by_key f (y # ys))"

definition child_links ::
  "(json \<Rightarrow> (rstring, execution_child_link) result) \<Rightarrow> ephemeral_state \<Rightarrow> rstring
   \<Rightarrow> (state_store_error, execution_child_link list) result" where
  "child_links decode st parent =
    and_then (map_err SsInvalidPayload (collect_ok (\<lambda>e. decode (ev_payload e))
      (filter (\<lambda>e. ev_scope e = ScRelation \<and> ev_kind e = ''execution.lineage.child_registered.v1'')
        (list_stream st (execution_lineage_stream_id parent))))) (\<lambda>links.
      if list_ex (\<lambda>l. cl_parent_execution_id l \<noteq> parent) links
      then Err (SsCorrupt parent ''execution lineage event belongs to another parent'')
      else Ok (dedup_by_key cl_child_execution_id (sort_key cl_child_execution_id links)))"

section \<open>What recovery does to the nodes\<close>

definition running :: "execution_graph \<Rightarrow> execution_node_spec \<Rightarrow> bool" where
  "running g n = (sm_get (g_node_statuses g) (n_id n) = Some Running)"

definition recovered_status :: "executor_registry \<Rightarrow> execution_node_spec \<Rightarrow> execution_node_status" where
  "recovered_status reg n = (if registry_get reg (n_executor_kind n) = None then Blocked else Ready)"

lemma find_distinct:
  "distinct (map f xs) \<Longrightarrow> x \<in> set xs \<Longrightarrow> find (\<lambda>y. f y = f x) xs = Some x"
  by (induction xs) auto

lemma recover_fold_gen:
  assumes "try_fold (recover_node reg g) (m, r, b) nodes = Inr (m', r', b')"
    and "distinct (map n_id nodes)" "sm_wf (g_node_statuses m)"
  shows "m' = m \<lparr> g_node_statuses := g_node_statuses m' \<rparr> \<and> sm_wf (g_node_statuses m')
    \<and> (\<forall>k. sm_get (g_node_statuses m') k = (case find (\<lambda>n. n_id n = k \<and> running g n) nodes of
          Some n \<Rightarrow> Some (recovered_status reg n) | None \<Rightarrow> sm_get (g_node_statuses m) k))
    \<and> r' = r @ map n_id (filter (\<lambda>n. running g n \<and> recovered_status reg n = Ready) nodes)
    \<and> b' = b @ map n_id (filter (\<lambda>n. running g n \<and> recovered_status reg n = Blocked) nodes)"
  using assms
proof (induction nodes arbitrary: m r b)
  case (Cons n nodes)
  from Cons.prems(1) obtain m1 r1 b1 where 1: "recover_node reg g (m, r, b) n = Inr (m1, r1, b1)"
    and 2: "try_fold (recover_node reg g) (m1, r1, b1) nodes = Inr (m', r', b')"
    by (auto simp: result_simps)
  have step: "m1 = (if running g n then set_status (n_id n) (recovered_status reg n) m else m)"
    "r1 = r @ (if running g n \<and> recovered_status reg n = Ready then [n_id n] else [])"
    "b1 = b @ (if running g n \<and> recovered_status reg n = Blocked then [n_id n] else [])"
    using 1 by (auto simp: recover_node_def running_def recovered_status_def result_simps
        split: option.splits if_splits)
  have wf1: "sm_wf (g_node_statuses m1)" using Cons.prems(3) by (simp add: step(1) set_status_def)
  have d: "distinct (map n_id nodes)" "n_id n \<notin> n_id ` set nodes" using Cons.prems(2) by auto
  note IH = Cons.IH [OF 2 d(1) wf1]
  have "find (\<lambda>x. n_id x = n_id n \<and> running g x) nodes = None"
    unfolding find_None_iff using d(2) by (metis imageI)
  moreover have "m1 \<lparr> g_node_statuses := x \<rparr> = m \<lparr> g_node_statuses := x \<rparr>" for x
    by (simp add: step(1) set_status_def)
  then have "m' = m \<lparr> g_node_statuses := g_node_statuses m' \<rparr>" using IH by metis
  moreover have "sm_get (g_node_statuses m1) k =
      (if running g n \<and> n_id n = k then Some (recovered_status reg n) else sm_get (g_node_statuses m) k)" for k
    using Cons.prems(3) by (simp add: step(1) set_status_def)
  ultimately show ?case using IH by (auto simp: step(2,3) split: option.splits if_splits)
qed simp

lemma recover_fold:
  assumes "try_fold (recover_node reg g) (g, [], []) (g_nodes g) = Inr (m, recovered, blocked)"
    and "distinct (map n_id (g_nodes g))" "sm_wf (g_node_statuses g)"
  shows "m = g \<lparr> g_node_statuses := g_node_statuses m \<rparr>" "sm_wf (g_node_statuses m)"
    "n \<in> set (g_nodes g) \<Longrightarrow> sm_get (g_node_statuses m) (n_id n) =
       (if running g n then Some (recovered_status reg n) else sm_get (g_node_statuses g) (n_id n))"
    "k \<notin> n_id ` set (g_nodes g) \<Longrightarrow> sm_get (g_node_statuses m) k = sm_get (g_node_statuses g) k"
    "recovered = map n_id (filter (\<lambda>n. running g n \<and> recovered_status reg n = Ready) (g_nodes g))"
    "blocked = map n_id (filter (\<lambda>n. running g n \<and> recovered_status reg n = Blocked) (g_nodes g))"
proof -
  note F = recover_fold_gen [OF assms]
  show "m = g \<lparr> g_node_statuses := g_node_statuses m \<rparr>" "sm_wf (g_node_statuses m)"
    "recovered = map n_id (filter (\<lambda>n. running g n \<and> recovered_status reg n = Ready) (g_nodes g))"
    "blocked = map n_id (filter (\<lambda>n. running g n \<and> recovered_status reg n = Blocked) (g_nodes g))"
    using F by auto
  show "sm_get (g_node_statuses m) k = sm_get (g_node_statuses g) k" if "k \<notin> n_id ` set (g_nodes g)"
  proof -
    have "find (\<lambda>n. n_id n = k \<and> running g n) (g_nodes g) = None" unfolding find_None_iff using that by (metis imageI)
    then show ?thesis using F by simp
  qed
  show "sm_get (g_node_statuses m) (n_id n) =
      (if running g n then Some (recovered_status reg n) else sm_get (g_node_statuses g) (n_id n))"
    if n: "n \<in> set (g_nodes g)"
  proof -
    have same: "n' = n" if "n' \<in> set (g_nodes g)" "n_id n' = n_id n" for n'
      using assms(2) n that by (auto simp: distinct_map dest: inj_onD)
    have "find (\<lambda>n'. n_id n' = n_id n \<and> running g n') (g_nodes g) = (if running g n then Some n else None)"
    proof (cases "find (\<lambda>n'. n_id n' = n_id n \<and> running g n') (g_nodes g)")
      case None
      then show ?thesis using n by (auto simp: find_None_iff)
    next
      case (Some n')
      then show ?thesis using find_SomeD [OF Some] same by auto
    qed
    then show ?thesis using F by simp
  qed
qed

text \<open>Recovery fails only where an executor refuses, and a graph whose nodes all have a status.\<close>
lemma recover_fold_total:
  assumes "\<forall>n\<in>set nodes. sm_get (g_node_statuses g) (n_id n) \<noteq> None"
    and "\<forall>n\<in>set nodes. \<forall>ex. running g n \<and> registry_get reg (n_executor_kind n) = Some ex
      \<longrightarrow> is_ok (ex_recover ex (recovery_ticket g n))"
  shows "\<exists>s'. try_fold (recover_node reg g) s nodes = Inr s'"
  using assms
proof (induction nodes arbitrary: s)
  case (Cons n nodes)
  have "\<exists>s1. recover_node reg g s n = Inr s1"
    using Cons.prems
    by (cases s) (fastforce simp: recover_node_def running_def map_err_def
        split: option.splits sum.splits)
  then show ?case using Cons by auto
qed (simp only: try_fold.simps, blast)

end
