(* ===== verification/Commit_Refinement.thy ===== *)
theory Commit_Refinement
  imports Recovery
begin

text \<open>
  The commit service refines the abstract machine whose state is one graph: whatever sequence of
  commits is accepted, the replay of the graph's journal stream gives exactly the graph the last
  receipt returned, and so does every read through the hot registry.
\<close>

section \<open>One append\<close>

text \<open>
  The serde round trip for the payloads of a journal: a stored payload that is the encoding of an
  event, with the activity binding added, decodes to that event, and the encoding of a delta event
  has no \<open>graph\<close> field.
\<close>
definition payload_of :: "graph_codec \<Rightarrow> execution_graph_event \<Rightarrow> json \<Rightarrow> bool" where
  "payload_of codec ev p = (\<exists>m v. gc_encode_event codec ev = JObject m
     \<and> p = JObject (json_insert ''_runtime_activity_binding'' v m))"

definition journal_decodes :: "graph_codec \<Rightarrow> ephemeral_state \<Rightarrow> bool" where
  "journal_decodes codec st \<longleftrightarrow> (\<forall>r\<in>set (s_events st). \<forall>ev. payload_of codec ev (ev_payload r) \<longrightarrow>
     gc_decode_event codec (ev_payload r) = Inr ev
     \<and> (event_delta ev \<noteq> None \<longrightarrow> json_get (gc_encode_event codec ev) ''graph'' = None))"

definition durable_graph :: "commit_env \<Rightarrow> ephemeral_state \<Rightarrow> rstring \<Rightarrow> (state_store_error, execution_graph) result" where
  "durable_graph env st i = project_graph_events (ce_codec env) i (list_stream st i)"

lemma map_of_json_insert: "k \<noteq> k' \<Longrightarrow> map_of (json_insert k v m) k' = map_of m k'"
  by (induction k v m rule: json_insert.induct) auto

lemma append_events_head:
  assumes "append_events uuids now cursor tx idx revs (input # inputs) = (events, revs')"
  shows "\<exists>r es. events = r # es \<and> ev_stream_id r = in_stream_id (ti_event input)
      \<and> ev_scope r = in_scope (ti_event input) \<and> ev_kind r = in_kind (ti_event input)
      \<and> ev_payload r = in_payload (ti_event input) \<and> ev_commit_cursor r = cursor"
  using assms by (auto simp: Let_def split: prod.splits)

lemma with_activity_binding_ok:
  assumes "with_activity_binding env b input = Inr out"
  shows "\<exists>m. in_payload input = JObject m \<and> out = input \<lparr> in_payload :=
    JObject (json_insert ''_runtime_activity_binding'' (ce_encode_binding env b) m) \<rparr>"
  using assms by (cases "ab_validate b"; cases "in_payload input") (auto simp: with_activity_binding_def)

lemma graph_input_ok:
  assumes "graph_input env g ev = Inr gi"
  shows "in_stream_id (ti_event gi) = g_id g" "in_scope (ti_event gi) = ScExecutionGraph"
    "in_kind (ti_event gi) = event_kind ev" "payload_of (ce_codec env) ev (in_payload (ti_event gi))"
  using assms
  by (auto simp: graph_input_def payload_of_def result_simps dest!: with_activity_binding_ok)

lemma expected_streams_hd:
  "\<exists>rest. expected_streams st i expected tx domain ex = \<lparr> es_stream_id = i, es_expected_revision = expected \<rparr> # rest"
  by (simp add: expected_streams_def split: prod.splits)

lemma graph_request_ok:
  assumes "graph_request env st g expected tx ev domain ex = Inr rq"
  shows "\<exists>gi. rq_events rq = gi # domain
      \<and> graph_input env g (maybe_checkpoint (ce_layout env) g ev) = Inr gi"
    "\<lparr> es_stream_id = g_id g, es_expected_revision = expected \<rparr> \<in> set (rq_expected_streams rq)"
    "rq_transaction_id rq = tx" "of_stream (g_id g) domain = []"
proof -
  obtain rest where "expected_streams st (g_id g) expected tx domain ex =
      \<lparr> es_stream_id = g_id g, es_expected_revision = expected \<rparr> # rest"
    using expected_streams_hd by blast
  then show "\<exists>gi. rq_events rq = gi # domain
      \<and> graph_input env g (maybe_checkpoint (ce_layout env) g ev) = Inr gi"
    "\<lparr> es_stream_id = g_id g, es_expected_revision = expected \<rparr> \<in> set (rq_expected_streams rq)"
    "rq_transaction_id rq = tx" "of_stream (g_id g) domain = []"
    using assms by (auto simp: graph_request_def result_simps of_stream_def list_ex_iff filter_empty_conv
        split: if_splits option.splits)
qed

text \<open>What an accepted append adds to the graph's own stream: one record with the stored event\<close>
definition appends_record ::
  "commit_env \<Rightarrow> commit_state \<Rightarrow> execution_graph \<Rightarrow> nat \<Rightarrow> execution_graph_event \<Rightarrow> commit_state
   \<Rightarrow> commit_receipt \<Rightarrow> durable_runtime_event \<Rightarrow> bool" where
  "appends_record env cst g expected ev cst' rc r \<longleftrightarrow>
     list_stream (cst_store cst') (g_id g) = list_stream (cst_store cst) (g_id g) @ [r]
     \<and> stream_revision (cst_store cst) (g_id g) = expected
     \<and> ev_sequence r = Suc expected \<and> ev_scope r = ScExecutionGraph
     \<and> ev_kind r = event_kind (maybe_checkpoint (ce_layout env) g ev)
     \<and> payload_of (ce_codec env) (maybe_checkpoint (ce_layout env) g ev) (ev_payload r)
     \<and> crc_graph rc = with_commit_cursor (ev_commit_cursor r) g
     \<and> cst_hot cst' = fst (publish_snapshot (ce_evict env (cst_hot cst)) (crc_graph rc) (cst_hot cst))"

lemma append_graph_record:
  assumes a: "append_graph_event_with_expected_domain_revisions env uuids now g expected tx ev domain ex cst
      = Inr (cst', rc)"
    and i: "store_inv (cst_store cst)" and d: "\<not> rcp_duplicate (crc_transaction rc)"
  shows "\<exists>r. appends_record env cst g expected ev cst' rc r"
    "store_step (ce_store env) (cst_store cst) (cst_store cst')"
proof -
  let ?st = "cst_store cst" and ?st' = "cst_store cst'" and ?ev = "maybe_checkpoint (ce_layout env) g ev"
  obtain rq where rq: "graph_request env ?st g expected tx ev domain ex = Inr rq"
    and ai: "append_inner (ce_store env) uuids now rq (find_terminal env domain) ?st = Inr (?st', crc_transaction rc)"
    and rc: "crc_graph rc = with_commit_cursor (rcp_commit_cursor (crc_transaction rc)) g"
    and hot: "cst_hot cst' = fst (publish_snapshot (ce_evict env (cst_hot cst)) (crc_graph rc) (cst_hot cst))"
    using a by (auto simp: append_graph_event_with_expected_domain_revisions_def result_simps Let_def)
  note R = graph_request_ok [OF rq] and S = append_inner_stream [OF i ai d]
  obtain gi where gi: "rq_events rq = gi # domain" "graph_input env g ?ev = Inr gi" using R(1) by blast
  note G = graph_input_ok [OF gi(2)]
  show "store_step (ce_store env) ?st ?st'" by (rule store_step.append [OF ai])
  let ?new = "new_events (ce_store env) uuids now rq ?st"
  have exp: "\<forall>es\<in>set (rq_expected_streams rq). stream_revision ?st (es_stream_id es) = es_expected_revision es"
    using append_inner_ok(2) [OF ai] d by auto
  note V = append_inner_ok(1) [OF ai]
  have rev: "stream_revision ?st (g_id g) = expected" using exp R(2) by fastforce
  let ?r0 = "sm_of_list (map (\<lambda>es. (es_stream_id es, es_expected_revision es)) (rq_expected_streams rq))"
  have "append_events uuids now (s_next_cursor ?st + 1) (rq_transaction_id rq) 0 ?r0 (gi # domain) =
      (?new, snd (append_events uuids now (s_next_cursor ?st + 1) (rq_transaction_id rq) 0 ?r0 (rq_events rq)))"
    by (simp add: new_events_def gi(1))
  from append_events_head [OF this] obtain r es where r: "?new = r # es" "ev_stream_id r = g_id g"
      "ev_scope r = ScExecutionGraph" "ev_kind r = event_kind ?ev" "payload_of (ce_codec env) ?ev (ev_payload r)"
      "ev_commit_cursor r = s_next_cursor ?st + 1"
    using G by auto
  have one: "of_stream (g_id g) (rq_events rq) = [gi]" using R(4) G(1) by (simp add: gi(1) of_stream_def)
  then have seqs: "map ev_sequence (filter (\<lambda>e. ev_stream_id e = g_id g) ?new) = [Suc expected]"
    using new_events_props(1) [OF V exp i, where s = "g_id g"] rev by simp
  then have f: "filter (\<lambda>e. ev_stream_id e = g_id g) ?new = [r]" using r(1,2) by auto
  have "rcp_commit_cursor (crc_transaction rc) = ev_commit_cursor r"
    using commit_request_fields(6) [OF S(3)] r(6) by simp
  then show "\<exists>r. appends_record env cst g expected ev cst' rc r"
    using S(1) [of "g_id g"] f seqs r rev rc hot
    by (intro exI [of _ r]) (simp add: appends_record_def)
qed

lemma event_project_full: "event_delta ev = None \<Longrightarrow> event_project ev cur = event_project ev cur'"
  by (cases ev) simp_all

lemma full_kind: "event_delta ev = None \<longleftrightarrow> event_kind ev \<in> {''execution_graph.planned'', ''execution_graph.checkpoint''}"
  by (cases ev) simp_all

text \<open>
  The record of an accepted append replays to the committed graph, given that the event projects the
  replayed graph (or nothing, for a snapshot) to the graph the caller asked to commit.
\<close>
lemma append_refines:
  assumes ar: "appends_record env cst n expected ev cst' rc r"
    and jd: "journal_decodes (ce_codec env) (cst_store cst')"
    and p: "event_project ev (Some g) = Inr n" and rev: "g_revision n = Suc expected"
    and base: "event_delta ev = None \<or> durable_graph env (cst_store cst) (g_id n) = Inr g"
  shows "durable_graph env (cst_store cst') (g_id n) = Inr (crc_graph rc)"
proof -
  let ?c = "ce_codec env" and ?ev = "maybe_checkpoint (ce_layout env) n ev"
  note A = ar [unfolded appends_record_def]
  have "r \<in> set (s_events (cst_store cst'))"
    using A by (metis UnCI filter_is_subset list.set_intros(1) list_stream_def matching_def set_append subsetD)
  then have dec: "gc_decode_event ?c (ev_payload r) = Inr ?ev"
    and ng: "event_delta ?ev \<noteq> None \<Longrightarrow> json_get (gc_encode_event ?c ?ev) ''graph'' = None"
    using jd A by (auto simp: journal_decodes_def)
  have pr: "project_record ?c (g_id n) cur r = Inr (Some (crc_graph rc))" if "event_project ?ev cur = Inr n" for cur
    using that A rev by (simp add: project_record_def decode_execution_graph_event_def dec map_err_def)
  have full: "event_project ?ev (Some g) = Inr n" by (rule maybe_checkpoint_project [OF p])
  show ?thesis
  proof (cases "event_delta ?ev = None")
    case True
    then have "is_snapshot_record r" using A full_kind [of ?ev] by (auto simp: is_snapshot_record_def)
    moreover have "event_project ?ev None = Inr n" using event_project_full [OF True] full by metis
    ultimately show ?thesis using project_snapshot_snoc [OF _ pr] A by (simp add: durable_graph_def)
  next
    case False
    have "json_get (ev_payload r) ''graph'' = None"
      using ng [OF False] A by (auto simp: payload_of_def map_of_json_insert)
    then have "\<not> is_snapshot_record r"
      using A False full_kind [of ?ev] by (auto simp: is_snapshot_record_def is_legacy_full_graph_snapshot_def)
    moreover have "event_delta ev \<noteq> None" using False maybe_checkpoint_cases [of "ce_layout env" n ev] by auto
    ultimately show ?thesis
      using project_delta_snoc [OF _ _ pr [OF full]] A base by (auto simp: durable_graph_def)
  qed
qed

section \<open>What an operation may do to a graph\<close>

definition graph_ok :: "execution_graph \<Rightarrow> bool" where
  "graph_ok g \<longleftrightarrow> graph_wf g \<and> distinct (map n_id (g_nodes g))
     \<and> fst ` set (g_node_statuses g) = n_id ` set (g_nodes g)"

definition terminal_kept :: "execution_graph \<Rightarrow> execution_graph \<Rightarrow> bool" where
  "terminal_kept g n \<longleftrightarrow> (\<forall>k s. sm_get (g_node_statuses g) k = Some s \<longrightarrow> is_terminal s
     \<longrightarrow> sm_get (g_node_statuses n) k = Some s)"

definition status_frame :: "execution_graph \<Rightarrow> execution_graph \<Rightarrow> bool" where
  "status_frame g n \<longleftrightarrow> g_id n = g_id g \<and> g_lineage n = g_lineage g \<and> g_nodes n = g_nodes g
     \<and> g_edges n = g_edges g \<and> (graph_ok g \<longrightarrow> graph_ok n \<and> terminal_kept g n)"

lemma terminal_kept_refl [simp]: "terminal_kept g g"
  by (simp add: terminal_kept_def)

lemma terminal_kept_trans: "terminal_kept g m \<Longrightarrow> terminal_kept m n \<Longrightarrow> terminal_kept g n"
  by (simp add: terminal_kept_def)

lemma status_frame_refl [simp]: "status_frame g g"
  by (simp add: status_frame_def)

lemma status_frame_trans [trans]: "status_frame g m \<Longrightarrow> status_frame m n \<Longrightarrow> status_frame g n"
  by (auto simp: status_frame_def intro: terminal_kept_trans)

lemma sm_get_key: "sm_get m k = Some v \<Longrightarrow> k \<in> fst ` set m"
  using sm_get_Some_mem [of m k v] by force

lemma set_status_frame:
  assumes "sm_get (g_node_statuses g) i = Some s" "is_terminal s \<Longrightarrow> t = s"
  shows "status_frame g (set_status i t g)"
  using assms sm_get_key [OF assms(1)]
  by (auto simp: status_frame_def set_status_def graph_ok_def graph_wf_def terminal_kept_def set_sm_insert_keys
      simp del: One_nat_def)

lemma apply_node_transition_frame:
  assumes "apply_node_transition g r0 i t result = Inr n"
  shows "status_frame g n"
proof -
  from assms obtain s where s: "sm_get (g_node_statuses g) i = Some s" "legal_transition s t"
    and n: "n = (set_status i t g) \<lparr> g_node_results := (case result of
        Some r \<Rightarrow> sm_insert i r (g_node_results g) | None \<Rightarrow> g_node_results g),
      g_revision := sat_add64 (g_revision g) 1 \<rparr>"
    by (auto simp: apply_node_transition_ok set_status_def)
  have "status_frame g (set_status i t g)"
    using set_status_frame [OF s(1)] s(2) legal_from_terminal by blast
  then show ?thesis unfolding n status_frame_def
    by (auto simp: graph_ok_def graph_wf_def terminal_kept_def set_status_def split: option.splits)
qed

lemma set_attempt_frame: "status_frame g (set_attempt i a g)"
  by (auto simp: status_frame_def set_attempt_def graph_ok_def graph_wf_def terminal_kept_def)

lemma revision_frame: "status_frame g (g \<lparr> g_revision := sat_add64 r 1 \<rparr>)"
  by (auto simp: status_frame_def graph_ok_def graph_wf_def terminal_kept_def)

lemma map_statuses_frame:
  assumes "\<And>s. is_terminal s \<Longrightarrow> f s = s"
  shows "status_frame g (map_statuses f g)"
proof -
  have keys: "map fst (map (\<lambda>(k, s). (k, f s)) m) = map fst m" for m :: "(rstring, execution_node_status) smap"
    by (simp add: comp_def case_prod_beta)
  have wf: "sm_wf (map (\<lambda>(k, s). (k, f s)) m) = sm_wf m" for m :: "(rstring, execution_node_status) smap"
    by (simp only: sm_wf_def keys)
  have get: "sm_get (map (\<lambda>(k, s). (k, f s)) m) k = map_option f (sm_get m k)" for m k
    by (simp add: sm_get_def map_of_map)
  have "fst ` set (map (\<lambda>(k, s). (k, f s)) (g_node_statuses g)) = fst ` set (g_node_statuses g)"
    by (simp only: set_map [symmetric] keys)
  then show ?thesis using assms
    by (auto simp: status_frame_def map_statuses_def graph_ok_def graph_wf_def terminal_kept_def wf get)
qed

lemma pause_terminal: "is_terminal s \<Longrightarrow> pause_status s = s"
  by (auto simp: pause_status_def is_terminal_def)

lemma resume_terminal: "is_terminal s \<Longrightarrow> resume_status s = s"
  by (auto simp: resume_status_def is_terminal_def)

lemma cancel_terminal: "is_terminal s \<Longrightarrow> cancel_status s = s"
  by (simp add: cancel_status_def)

lemma results_frame:
  "status_frame g n \<Longrightarrow> status_frame g (n \<lparr> g_node_results := sm_insert i r (g_node_results g) \<rparr>)"
  by (auto simp: status_frame_def graph_ok_def graph_wf_def terminal_kept_def)

lemma command_effect_revision: "command_effect clock g command = Inr n \<Longrightarrow> g_revision n = g_revision g"
  by (cases command) (auto simp: map_statuses_def set_status_def split: option.splits if_splits)

lemma command_effect_frame: "command_effect clock g command = Inr n \<Longrightarrow> status_frame g n"
  by (cases command)
    (auto simp: pause_terminal resume_terminal cancel_terminal is_terminal_def
      intro!: map_statuses_frame set_status_frame results_frame split: option.splits if_splits)

lemma start_fold_frame:
  assumes "try_fold start_one (g, []) bindings = Inr (n, facts)"
  shows "status_frame g n"
proof -
  have "(\<lambda>(m, _). status_frame g m) (n, facts)"
    by (rule try_fold_invariant [OF assms])
      (auto simp: start_one_def lift_transition_def result_simps split: prod.splits
        intro: status_frame_trans [OF _ status_frame_trans [OF apply_node_transition_frame set_attempt_frame]])
  then show ?thesis by simp
qed

lemma finish_fold_frame:
  assumes "try_fold finish_one (g, []) transitions = Inr (n, facts)"
  shows "status_frame g n"
proof -
  have "(\<lambda>(m, _). status_frame g m) (n, facts)"
    by (rule try_fold_invariant [OF assms])
      (auto simp: finish_one_def lift_transition_def result_simps split: prod.splits if_splits
        intro: status_frame_trans [OF _ apply_node_transition_frame])
  then show ?thesis by simp
qed

section \<open>Every operation is one append of a delta\<close>

text \<open>Other writers of the store, between two attempts of a retry loop\<close>
definition other_writers :: "commit_env \<Rightarrow> (nat \<Rightarrow> ephemeral_state \<Rightarrow> ephemeral_state) \<Rightarrow> bool" where
  "other_writers env others \<longleftrightarrow>
     (\<forall>k st. store_inv st \<longrightarrow> (store_step (ce_store env))\<^sup>*\<^sup>* st (others k st))"

text \<open>
  The graph \<open>n\<close> is appended on top of \<open>g\<close> with a delta event, at the latest after other writers
  have moved the store on.
\<close>
definition commits_delta ::
  "commit_env \<Rightarrow> commit_state \<Rightarrow> execution_graph \<Rightarrow> execution_graph \<Rightarrow> commit_state \<Rightarrow> commit_receipt \<Rightarrow> bool" where
  "commits_delta env cst g n cst' rc \<longleftrightarrow> (\<exists>cst1 uuids now tx ev domain ex.
     (store_step (ce_store env))\<^sup>*\<^sup>* (cst_store cst) (cst_store cst1) \<and> cst_hot cst1 = cst_hot cst
     \<and> event_delta ev = Some (between g n)
     \<and> append_graph_event_with_expected_domain_revisions env uuids now n (g_revision g) tx ev domain ex cst1
         = Inr (cst', rc))"

lemma commits_deltaI:
  assumes "append_graph_event_with_expected_domain_revisions env uuids now n (g_revision g) tx ev domain ex cst
      = Inr (cst', rc)" "event_delta ev = Some (between g n)"
  shows "commits_delta env cst g n cst' rc"
  unfolding commits_delta_def using assms by blast

lemma retry_append_ok:
  assumes "retry_append others again attempt k conflict cst = Inr r" "other_writers env others"
    and "store_inv (cst_store cst)"
  shows "\<exists>cst1. (store_step (ce_store env))\<^sup>*\<^sup>* (cst_store cst) (cst_store cst1) \<and> cst_hot cst1 = cst_hot cst
    \<and> attempt cst1 = Inr r"
  using assms
proof (induction k arbitrary: conflict cst)
  case (Suc k)
  let ?cst = "cst \<lparr> cst_store := others k (cst_store cst) \<rparr>"
  have s: "(store_step (ce_store env))\<^sup>*\<^sup>* (cst_store cst) (cst_store ?cst)"
    using Suc.prems(2,3) by (simp add: other_writers_def)
  show ?case
  proof (cases "attempt ?cst")
    case (Inl e)
    then have "retry_append others again attempt k e ?cst = Inr r"
      using Suc.prems(1) by (simp add: Let_def split: if_splits)
    from Suc.IH [OF this Suc.prems(2) store_log.evolves_inv_prefix(1) [OF s Suc.prems(3)]]
    show ?thesis using rtranclp_trans [OF s] by auto
  next
    case (Inr x)
    then show ?thesis using Suc.prems(1) s by (intro exI [of _ ?cst]) (simp add: Let_def)
  qed
qed simp

lemma append_retrying_commits:
  assumes "append_graph_event_retrying_lineage_conflicts env uuids now others n (g_revision g) tx ev domain cst
      = Inr (cst', rc)" "event_delta ev = Some (between g n)"
    and "other_writers env others" "store_inv (cst_store cst)"
  shows "commits_delta env cst g n cst' rc"
proof -
  let ?a = "append_graph_event env uuids now n (g_revision g) tx ev domain"
  consider "?a cst = Inr (cst', rc)"
    | again conflict where "retry_append others again ?a 8 conflict cst = Inr (cst', rc)"
    using assms(1) by (auto simp: append_graph_event_retrying_lineage_conflicts_def Let_def split: if_splits)
  then have "\<exists>cst1. (store_step (ce_store env))\<^sup>*\<^sup>* (cst_store cst) (cst_store cst1) \<and> cst_hot cst1 = cst_hot cst
      \<and> ?a cst1 = Inr (cst', rc)"
    by cases (blast, rule retry_append_ok [OF _ assms(3,4)])
  then show ?thesis unfolding commits_delta_def append_graph_event_def using assms(2) by blast
qed

text \<open>A successor of a graph: one revision later, with the old nodes and edges before new ones\<close>
definition successor :: "execution_graph \<Rightarrow> execution_graph \<Rightarrow> bool" where
  "successor g n \<longleftrightarrow> g_revision n = sat_add64 (g_revision g) 1 \<and> g_id n = g_id g
     \<and> (graph_ok g \<longrightarrow> graph_ok n \<and> terminal_kept g n \<and> replay_exact g n)"

lemma status_frame_successor:
  assumes "status_frame g n" "g_revision n = sat_add64 (g_revision g) 1"
  shows "successor g n"
proof -
  have "replay_exact g n" if "graph_ok g"
    by (rule replay_exact_appended [where new_nodes = "[]" and new_edges = "[]"])
      (use assms that in \<open>auto simp: status_frame_def graph_ok_def\<close>)
  then show ?thesis using assms by (auto simp: successor_def status_frame_def)
qed

lemmas commit_op_simps = result_simps lift_transition_def Let_def append_graph_event_def

lemma transition_node_commits:
  assumes "transition_node env uuids now others g node_id to result domain cst = Inr (cst', rc)"
    and "other_writers env others" "store_inv (cst_store cst)"
  shows "\<exists>n. commits_delta env cst g n cst' rc \<and> successor g n"
proof -
  obtain m a tx ev evs where m: "apply_node_transition g (g_revision g) node_id to result = Inr m"
    and a: "append_graph_event_retrying_lineage_conflicts env uuids now others (set_attempt node_id a m)
      (g_revision g) tx ev evs cst = Inr (cst', rc)" "event_delta ev = Some (between g (set_attempt node_id a m))"
    using assms(1) by (fastforce simp: transition_node_def commit_op_simps)
  have "successor g (set_attempt node_id a m)"
    by (rule status_frame_successor [OF status_frame_trans [OF apply_node_transition_frame [OF m] set_attempt_frame]])
      (use m in \<open>auto simp: set_attempt_def apply_node_transition_ok\<close>)
  then show ?thesis using append_retrying_commits [OF a assms(2,3)] by blast
qed

lemma bind_and_start_node_commits:
  assumes "bind_and_start_node env uuids now g node_id binding cst = Inr (cst', rc)"
  shows "\<exists>n. commits_delta env cst g n cst' rc \<and> successor g n"
proof -
  obtain m tx ev evs where m: "apply_node_transition g (g_revision g) node_id Running None = Inr m"
    and a: "append_graph_event_with_expected_domain_revisions env uuids now (set_attempt node_id (nb_attempt binding) m)
      (g_revision g) tx ev evs [] cst = Inr (cst', rc)"
      "event_delta ev = Some (between g (set_attempt node_id (nb_attempt binding) m))"
    using assms(1) by (fastforce simp: bind_and_start_node_def commit_op_simps)
  have "successor g (set_attempt node_id (nb_attempt binding) m)"
    by (rule status_frame_successor [OF status_frame_trans [OF apply_node_transition_frame [OF m] set_attempt_frame]])
      (use m in \<open>auto simp: set_attempt_def apply_node_transition_ok\<close>)
  then show ?thesis using commits_deltaI [OF a] by blast
qed

text \<open>The operations that set the revision last: waves, recovery and commands\<close>
lemma bumped_commits:
  assumes "append_graph_event_with_expected_domain_revisions env uuids now
      (m \<lparr> g_revision := sat_add64 (g_revision g) 1 \<rparr>) (g_revision g) tx ev evs ex cst = Inr (cst', rc)"
    and "event_delta ev = Some (between g (m \<lparr> g_revision := sat_add64 (g_revision g) 1 \<rparr>))"
    and "status_frame g m"
  shows "\<exists>n. commits_delta env cst g n cst' rc \<and> successor g n"
  using commits_deltaI [OF assms(1,2)]
    status_frame_successor [OF status_frame_trans [OF assms(3) revision_frame [where r = "g_revision g"]]]
  by auto

lemma bind_and_start_nodes_commits:
  assumes "bind_and_start_nodes env uuids now g bindings tickets cst = Inr (cst', rc)"
  shows "\<exists>n. commits_delta env cst g n cst' rc \<and> successor g n"
proof -
  obtain m facts tx ev evs where "try_fold start_one (g, []) bindings = Inr (m, facts)"
    and "append_graph_event_with_expected_domain_revisions env uuids now
      (m \<lparr> g_revision := sat_add64 (g_revision g) 1 \<rparr>) (g_revision g) tx ev evs [] cst = Inr (cst', rc)"
    and "event_delta ev = Some (between g (m \<lparr> g_revision := sat_add64 (g_revision g) 1 \<rparr>))"
    using assms by (fastforce simp: bind_and_start_nodes_def commit_op_simps split: if_splits)
  then show ?thesis using bumped_commits start_fold_frame by blast
qed

lemma transition_nodes_commits:
  assumes "transition_nodes env uuids now g transitions cst = Inr (cst', rc)"
  shows "\<exists>n. commits_delta env cst g n cst' rc \<and> successor g n"
proof -
  obtain m facts tx ev evs where "try_fold finish_one (g, []) transitions = Inr (m, facts)"
    and "append_graph_event_with_expected_domain_revisions env uuids now
      (m \<lparr> g_revision := sat_add64 (g_revision g) 1 \<rparr>) (g_revision g) tx ev evs [] cst = Inr (cst', rc)"
    and "event_delta ev = Some (between g (m \<lparr> g_revision := sat_add64 (g_revision g) 1 \<rparr>))"
    using assms by (fastforce simp: transition_nodes_def commit_op_simps split: if_splits)
  then show ?thesis using bumped_commits finish_fold_frame by blast
qed

lemma apply_command_commits:
  assumes "apply_command env uuids now clock g command cst = Inr (cst', rc)"
  shows "\<exists>n. commits_delta env cst g n cst' rc \<and> successor g n"
proof -
  obtain m tx ev evs ex where m: "command_effect clock g command = Inr m"
    and "append_graph_event_with_expected_domain_revisions env uuids now
      (m \<lparr> g_revision := sat_add64 (g_revision m) 1 \<rparr>) (g_revision g) tx ev evs ex cst = Inr (cst', rc)"
    and "event_delta ev = Some (between g (m \<lparr> g_revision := sat_add64 (g_revision m) 1 \<rparr>))"
    using assms by (fastforce simp: apply_command_def commit_op_simps)
  then show ?thesis using bumped_commits [OF _ _ command_effect_frame [OF m]] command_effect_revision [OF m] by simp
qed

lemma commit_recovery_commits:
  assumes "commit_recovery env uuids now g m recovered blocked cst = Inr (cst', rc)" "status_frame g m"
  shows "\<exists>n. commits_delta env cst g n cst' rc \<and> successor g n"
proof -
  obtain tx ev evs where
    "append_graph_event_with_expected_domain_revisions env uuids now
      (m \<lparr> g_revision := sat_add64 (g_revision g) 1 \<rparr>) (g_revision g) tx ev evs [] cst = Inr (cst', rc)"
    and "event_delta ev = Some (between g (m \<lparr> g_revision := sat_add64 (g_revision g) 1 \<rparr>))"
    using assms by (fastforce simp: commit_recovery_def commit_op_simps)
  then show ?thesis using bumped_commits assms(2) by blast
qed

subsection \<open>Replans\<close>

definition new_edges :: "execution_graph \<Rightarrow> execution_edge list \<Rightarrow> bool" where
  "new_edges g edges \<longleftrightarrow> distinct edges \<and> set edges \<inter> set (g_edges g) = {}"

lemma validate_replan_ok:
  assumes "validate_replan g nodes = Inr u"
  shows "distinct (map n_id nodes)" "n_id ` set nodes \<inter> n_id ` set (g_nodes g) = {}"
proof -
  let ?u = "ss_of_list (map n_id nodes)"
  have l: "length ?u = length (map n_id nodes)"
    and d: "n_id ` set nodes \<inter> n_id ` set (g_nodes g) = {}"
    using assms by (auto simp: validate_replan_def Let_def list_ex_iff split: if_splits)
  have "card (set (map n_id nodes)) = length ?u"
    using distinct_card [OF ss_distinct [OF ss_wf_of_list]] by (metis set_ss_of_list)
  then show "distinct (map n_id nodes)" using l by (intro card_distinct) simp
  show "n_id ` set nodes \<inter> n_id ` set (g_nodes g) = {}" by (rule d)
qed

lemma planned_fold:
  assumes "sm_wf m"
  shows "sm_wf (fold (\<lambda>n. sm_insert (n_id n) Planned) nodes m)"
    "sm_get (fold (\<lambda>n. sm_insert (n_id n) Planned) nodes m) k =
      (if k \<in> n_id ` set nodes then Some Planned else sm_get m k)"
  using assms by (induction nodes arbitrary: m) auto

lemma planned_fold_keys:
  "fst ` set (fold (\<lambda>n. sm_insert (n_id n) Planned) nodes m) = fst ` set m \<union> n_id ` set nodes"
  by (induction nodes arbitrary: m) (auto simp: set_sm_insert_keys)

lemma add_planned_ok:
  assumes "graph_ok g" "validate_replan g nodes = Inr u"
  shows "graph_ok (add_planned nodes edges g)" "terminal_kept g (add_planned nodes edges g)"
proof -
  note V = validate_replan_ok [OF assms(2)]
  have wf: "sm_wf (g_node_statuses g)" using assms(1) by (auto simp: graph_ok_def)
  show "graph_ok (add_planned nodes edges g)"
    using assms(1) V planned_fold(1) [OF wf, of nodes]
    by (auto simp: graph_ok_def graph_wf_def add_planned_def planned_fold_keys)
  show "terminal_kept g (add_planned nodes edges g)"
    unfolding terminal_kept_def
  proof (intro allI impI)
    fix k s
    assume k: "sm_get (g_node_statuses g) k = Some s"
    then have "k \<notin> n_id ` set nodes"
      using sm_get_key [OF k] assms(1) V(2) unfolding graph_ok_def by blast
    then show "sm_get (g_node_statuses (add_planned nodes edges g)) k = Some s"
      using k by (simp add: add_planned_def planned_fold(2) [OF wf])
  qed
qed

lemma planned_successor:
  assumes f: "status_frame g m" and v: "validate_replan g nodes = Inr u" and e: "new_edges g edges"
    and n: "n = (add_planned nodes edges m) \<lparr> g_revision := sat_add64 (g_revision g) 1 \<rparr>"
  shows "successor g n"
proof -
  have v': "validate_replan m nodes = Inr u" using v f by (simp add: validate_replan_def status_frame_def)
  have "graph_ok n \<and> terminal_kept g n \<and> replay_exact g n" if g: "graph_ok g"
  proof -
    have m: "graph_ok m" "terminal_kept g m" using f g by (auto simp: status_frame_def)
    note P = add_planned_ok [OF m(1) v', of edges]
    have ok: "graph_ok n" using P(1) by (simp add: n graph_ok_def graph_wf_def)
    moreover have "terminal_kept g n" using terminal_kept_trans [OF m(2) P(2)] by (simp add: n terminal_kept_def)
    moreover have "replay_exact g n"
      by (rule replay_exact_appended [where new_nodes = nodes and new_edges = edges])
        (use g ok f e in \<open>auto simp: graph_ok_def status_frame_def n add_planned_def new_edges_def\<close>)
    ultimately show ?thesis by simp
  qed
  then show ?thesis using f by (simp add: successor_def n add_planned_def status_frame_def)
qed

lemma replan_commits:
  assumes "replan env uuids now g nodes edges reason cst = Inr (cst', rc)" "new_edges g edges"
  shows "\<exists>n. commits_delta env cst g n cst' rc \<and> successor g n"
proof -
  let ?n = "(add_planned nodes edges g) \<lparr> g_revision := sat_add64 (g_revision g) 1 \<rparr>"
  obtain tx ev evs where v: "validate_replan g nodes = Inr ()"
    and a: "append_graph_event_with_expected_domain_revisions env uuids now ?n (g_revision g) tx ev evs [] cst
      = Inr (cst', rc)" "event_delta ev = Some (between g ?n)"
    using assms(1) by (fastforce simp: replan_def commit_op_simps)
  then show ?thesis using commits_deltaI [OF a] planned_successor [OF status_frame_refl v assms(2)] by blast
qed

lemma transition_node_with_replan_commits:
  assumes "transition_node_with_replan env uuids now others g node_id result domain nodes edges reason cst
      = Inr (cst', rc)" "new_edges g edges" "other_writers env others" "store_inv (cst_store cst)"
  shows "\<exists>n. commits_delta env cst g n cst' rc \<and> successor g n"
proof -
  obtain m tx ev evs where v: "validate_replan g nodes = Inr ()"
    and m: "apply_node_transition g (g_revision g) node_id (r_status result) (Some result) = Inr m"
    and a: "append_graph_event_retrying_lineage_conflicts env uuids now others (add_planned nodes edges m)
      (g_revision g) tx ev evs cst = Inr (cst', rc)" "event_delta ev = Some (between g (add_planned nodes edges m))"
    using assms(1) by (fastforce simp: transition_node_with_replan_def commit_op_simps)
  have "successor g (add_planned nodes edges m)"
    by (rule planned_successor [OF apply_node_transition_frame [OF m] v assms(2)])
      (use m in \<open>auto simp: apply_node_transition_ok add_planned_def\<close>)
  then show ?thesis using append_retrying_commits [OF a assms(3,4)] by blast
qed

subsection \<open>Recovery\<close>

lemma is_terminal_Running: "\<not> is_terminal Running"
  by (simp add: is_terminal_def)

lemma sm_keys_get: "fst ` set m = {k. sm_get m k \<noteq> None}"
  using dom_map_of_conv_image_fst [of m] by (simp add: sm_get_def dom_def)

lemma recover_fold_frame:
  assumes "try_fold (recover_node reg g) (g, [], []) (g_nodes g) = Inr (m, recovered, blocked)"
  shows "status_frame g m"
proof (cases "distinct (map n_id (g_nodes g)) \<and> sm_wf (g_node_statuses g)")
  case True
  note F = recover_fold [OF assms conjunct1 [OF True] conjunct2 [OF True]]
  have st: "sm_get (g_node_statuses m) k = sm_get (g_node_statuses g) k
      \<or> sm_get (g_node_statuses g) k = Some Running \<and> sm_get (g_node_statuses m) k \<noteq> None" for k
    by (cases "k \<in> n_id ` set (g_nodes g)") (use F(3,4) in \<open>auto simp: running_def split: if_splits\<close>)
  have "sm_get (g_node_statuses m) k = None \<longleftrightarrow> sm_get (g_node_statuses g) k = None" for k
    using st [of k] by auto
  then have keys: "fst ` set (g_node_statuses m) = fst ` set (g_node_statuses g)" by (simp add: sm_keys_get)
  have "g_id m = g_id g" "g_lineage m = g_lineage g" "g_nodes m = g_nodes g" "g_edges m = g_edges g"
    "g_node_results m = g_node_results g" "g_recovery_cursor m = g_recovery_cursor g" "g_revision m = g_revision g"
    by (subst F(1), simp)+
  moreover have "terminal_kept g m"
    unfolding terminal_kept_def by (intro allI impI) (metis st option.inject is_terminal_Running)
  ultimately show ?thesis using F(2) keys by (simp add: status_frame_def graph_ok_def graph_wf_def)
next
  case False
  have "(\<lambda>(m, _). g_id m = g_id g \<and> g_lineage m = g_lineage g \<and> g_nodes m = g_nodes g \<and> g_edges m = g_edges g)
      (m, recovered, blocked)"
    by (rule try_fold_invariant [OF assms])
      (auto simp: recover_node_def set_status_def result_simps split: option.splits if_splits)
  then show ?thesis using False by (auto simp: status_frame_def graph_ok_def)
qed

section \<open>Runs\<close>

text \<open>
  A step of the system that serves one graph: a commit of the service, a read through the hot
  registry, or something else that happens to the store and the registry without touching the
  stream of this graph (commits of other graphs, terminals, checkpoints, eviction).
\<close>
inductive commit_step ::
  "commit_env \<Rightarrow> commit_state \<times> execution_graph \<Rightarrow> commit_state \<times> execution_graph \<Rightarrow> bool" for env where
  transition: "transition_node env uuids now others g node_id to result domain cst = Inr (cst', rc)
    \<Longrightarrow> other_writers env others \<Longrightarrow> \<not> rcp_duplicate (crc_transaction rc)
    \<Longrightarrow> commit_step env (cst, g) (cst', crc_graph rc)"
| bind: "bind_and_start_node env uuids now g node_id binding cst = Inr (cst', rc)
    \<Longrightarrow> \<not> rcp_duplicate (crc_transaction rc) \<Longrightarrow> commit_step env (cst, g) (cst', crc_graph rc)"
| start_wave: "bind_and_start_nodes env uuids now g bindings tickets cst = Inr (cst', rc)
    \<Longrightarrow> \<not> rcp_duplicate (crc_transaction rc) \<Longrightarrow> commit_step env (cst, g) (cst', crc_graph rc)"
| finish_wave: "transition_nodes env uuids now g transitions cst = Inr (cst', rc)
    \<Longrightarrow> \<not> rcp_duplicate (crc_transaction rc) \<Longrightarrow> commit_step env (cst, g) (cst', crc_graph rc)"
| replan: "replan env uuids now g nodes edges reason cst = Inr (cst', rc) \<Longrightarrow> new_edges g edges
    \<Longrightarrow> \<not> rcp_duplicate (crc_transaction rc) \<Longrightarrow> commit_step env (cst, g) (cst', crc_graph rc)"
| transition_replan: "transition_node_with_replan env uuids now others g node_id result domain nodes edges reason cst
      = Inr (cst', rc)
    \<Longrightarrow> new_edges g edges \<Longrightarrow> other_writers env others \<Longrightarrow> \<not> rcp_duplicate (crc_transaction rc)
    \<Longrightarrow> commit_step env (cst, g) (cst', crc_graph rc)"
| command: "apply_command env uuids now clock g command cst = Inr (cst', rc)
    \<Longrightarrow> \<not> rcp_duplicate (crc_transaction rc) \<Longrightarrow> commit_step env (cst, g) (cst', crc_graph rc)"
| recovery: "try_fold (recover_node reg g) (g, [], []) (g_nodes g) = Inr (m, recovered, blocked)
    \<Longrightarrow> commit_recovery env uuids now g m recovered blocked cst = Inr (cst', rc)
    \<Longrightarrow> \<not> rcp_duplicate (crc_transaction rc) \<Longrightarrow> commit_step env (cst, g) (cst', crc_graph rc)"
| read: "load_snapshot (ce_codec env) verify candidates (g_id g) (cst_store cst) (cst_hot cst) = (hot, r)
    \<Longrightarrow> commit_step env (cst, g) (cst \<lparr> cst_hot := hot \<rparr>, g)"
| other: "store_step (ce_store env) (cst_store cst) st
    \<Longrightarrow> list_stream st (g_id g) = list_stream (cst_store cst) (g_id g) \<Longrightarrow> sm_wf hot
    \<Longrightarrow> hot_get hot (g_id g) = hot_get (cst_hot cst) (g_id g) \<or> hot_get hot (g_id g) = None
    \<Longrightarrow> commit_step env (cst, g) (cst \<lparr> cst_store := st, cst_hot := hot \<rparr>, g)"

abbreviation commit_run where
  "commit_run env \<equiv> (commit_step env)\<^sup>*\<^sup>*"

text \<open>The relation between the concrete state and the graph that holds between commits\<close>
definition commit_inv :: "commit_env \<Rightarrow> commit_state \<times> execution_graph \<Rightarrow> bool" where
  "commit_inv env = (\<lambda>(cst, g). store_inv (cst_store cst) \<and> durable_graph env (cst_store cst) (g_id g) = Inr g
     \<and> graph_ok g \<and> sm_wf (cst_hot cst) \<and> (\<forall>h. hot_get (cst_hot cst) (g_id g) = Some h \<longrightarrow> h = g))"

text \<open>Every step but a read and a foreign one is the append of a delta.\<close>
lemma commit_step_cases:
  assumes "commit_step env (cst, g) (cst', g')" "store_inv (cst_store cst)"
  obtains (commit) n rc where "commits_delta env cst g n cst' rc" "successor g n"
      "\<not> rcp_duplicate (crc_transaction rc)" "g' = crc_graph rc"
  | (read) verify candidates r where "g' = g" "cst_store cst' = cst_store cst"
      "load_snapshot (ce_codec env) verify candidates (g_id g) (cst_store cst) (cst_hot cst) = (cst_hot cst', r)"
  | (other) "g' = g" "store_step (ce_store env) (cst_store cst) (cst_store cst')"
      "list_stream (cst_store cst') (g_id g) = list_stream (cst_store cst) (g_id g)" "sm_wf (cst_hot cst')"
      "hot_get (cst_hot cst') (g_id g) = hot_get (cst_hot cst) (g_id g) \<or> hot_get (cst_hot cst') (g_id g) = None"
  using assms(1)
proof (cases rule: commit_step.cases)
  case (transition uuids now others node_id to result domain rc)
  then show ?thesis using that(1) transition_node_commits [OF _ _ assms(2)] by metis
next
  case (bind uuids now node_id binding rc)
  then show ?thesis using that(1) bind_and_start_node_commits by metis
next
  case (start_wave uuids now bindings tickets rc)
  then show ?thesis using that(1) bind_and_start_nodes_commits by metis
next
  case (finish_wave uuids now transitions rc)
  then show ?thesis using that(1) transition_nodes_commits by metis
next
  case (replan uuids now nodes edges reason rc)
  then show ?thesis using that(1) replan_commits by metis
next
  case (transition_replan uuids now others node_id result domain nodes edges reason rc)
  then show ?thesis using that(1) transition_node_with_replan_commits [OF _ _ _ assms(2)] by metis
next
  case (command uuids now clock command rc)
  then show ?thesis using that(1) apply_command_commits by metis
next
  case (recovery reg m recovered blocked uuids now rc)
  then show ?thesis using that(1) commit_recovery_commits recover_fold_frame by metis
next
  case (read verify candidates hot r)
  then show ?thesis using that(2) by simp
next
  case (other st hot)
  then show ?thesis using that(3) by simp
qed

lemma durable_revision:
  assumes "durable_graph env st i = Inr g" "store_inv st"
  shows "g_id g = i" "g_revision g = stream_revision st i"
proof -
  note P = project_graph_identity [OF assms(1) [unfolded durable_graph_def]]
  show "g_id g = i" by (rule P(2))
  have "map ev_sequence (list_stream st i) = [1..<Suc (length (list_stream st i))]"
    using assms(2) by (simp add: store_inv_def)
  then have "last (map ev_sequence (list_stream st i)) = length (list_stream st i)"
    using P(1) by (simp add: last_upt del: upt_Suc)
  then show "g_revision g = stream_revision st i"
    using P(1,3) stream_revision_length [OF assms(2)] by (simp add: last_map)
qed

lemma journal_decodes_mono:
  assumes "journal_decodes codec st'" "(store_step env)\<^sup>*\<^sup>* st st'" "store_inv st"
  shows "journal_decodes codec st"
proof -
  have "e \<in> set (s_events st')" if e: "e \<in> set (s_events st)" for e
  proof -
    have "e \<in> set (list_stream st (ev_stream_id e))" using e by (simp add: list_stream_def matching_def)
    then have "e \<in> set (list_stream st' (ev_stream_id e))"
      using set_mono_prefix [OF store_log.evolves_inv_prefix(2) [OF assms(2,3)]] by blast
    then show ?thesis by (simp add: list_stream_def matching_def)
  qed
  then show ?thesis using assms(1) unfolding journal_decodes_def by blast
qed

lemma with_commit_cursor_simps [simp]:
  "g_id (with_commit_cursor c g) = g_id g" "g_revision (with_commit_cursor c g) = g_revision g"
  "g_node_statuses (with_commit_cursor c g) = g_node_statuses g" "g_nodes (with_commit_cursor c g) = g_nodes g"
  "g_node_results (with_commit_cursor c g) = g_node_results g" "g_edges (with_commit_cursor c g) = g_edges g"
  "rc_node_attempts (g_recovery_cursor (with_commit_cursor c g)) = rc_node_attempts (g_recovery_cursor g)"
  by (simp_all add: with_commit_cursor_def)

lemma publish_committed:
  assumes "sm_wf hot" "\<forall>h. hot_get hot (g_id g) = Some h \<longrightarrow> g_revision h < g_revision g"
    and "hot' = fst (publish_snapshot cs g hot)"
  shows "sm_wf hot'" "\<forall>h. hot_get hot' (g_id g) = Some h \<longrightarrow> h = g"
proof -
  obtain b where b: "publish_snapshot cs g hot = (hot', b)" using assms(3) by (metis prod.collapse)
  show "sm_wf hot'" by (rule publish_snapshot_get(1) [OF assms(1) b])
  show "\<forall>h. hot_get hot' (g_id g) = Some h \<longrightarrow> h = g"
    using assms(2) b evict_completed_get [OF sm_wf_insert [OF assms(1)]]
    by (auto simp: publish_snapshot_def hot_get_def assms(1) split: option.splits if_splits)
qed

text \<open>One commit keeps the relation.\<close>
lemma commits_delta_inv:
  assumes inv: "commit_inv env (cst, g)" and c: "commits_delta env cst g n cst' rc" and s: "successor g n"
    and d: "\<not> rcp_duplicate (crc_transaction rc)" and jd: "journal_decodes (ce_codec env) (cst_store cst')"
    and b: "stream_revision (cst_store cst') (g_id g) \<le> u64_max"
  shows "commit_inv env (cst', crc_graph rc)" "terminal_kept g (crc_graph rc)" "g_id (crc_graph rc) = g_id g"
    "(store_step (ce_store env))\<^sup>*\<^sup>* (cst_store cst) (cst_store cst')" "g_revision (crc_graph rc) = Suc (g_revision g)"
proof -
  note I = inv [unfolded commit_inv_def, simplified]
  obtain cst1 uuids now tx ev domain ex where run: "(store_step (ce_store env))\<^sup>*\<^sup>* (cst_store cst) (cst_store cst1)"
    and hot: "cst_hot cst1 = cst_hot cst" and ev: "event_delta ev = Some (between g n)"
    and a: "append_graph_event_with_expected_domain_revisions env uuids now n (g_revision g) tx ev domain ex cst1
      = Inr (cst', rc)"
    using c unfolding commits_delta_def by blast
  have i1: "store_inv (cst_store cst1)" using store_log.evolves_inv_prefix(1) [OF run] I by blast
  note R = append_graph_record [OF a i1 d]
  obtain r where r: "appends_record env cst1 n (g_revision g) ev cst' rc r" using R(1) by blast
  note A = r [unfolded appends_record_def]
  have sid: "g_id n = g_id g" "g_revision n = sat_add64 (g_revision g) 1"
    and ok: "graph_ok n" "terminal_kept g n" "replay_exact g n" using s I by (auto simp: successor_def)
  show step: "(store_step (ce_store env))\<^sup>*\<^sup>* (cst_store cst) (cst_store cst')" using run R(2) by simp
  have i': "store_inv (cst_store cst')" using store_log.evolves_inv_prefix(1) [OF step] I by blast
  have rev: "g_revision g = stream_revision (cst_store cst) (g_id g)" using durable_revision I by blast
  obtain zs where zs: "list_stream (cst_store cst1) (g_id g) = list_stream (cst_store cst) (g_id g) @ zs"
    using store_log.evolves_inv_prefix(2) [OF run] I by (meson prefixE)
  have "length (list_stream (cst_store cst1) (g_id g)) = length (list_stream (cst_store cst) (g_id g))"
    using A rev I i1 by (simp add: sid stream_revision_length)
  then have same: "list_stream (cst_store cst1) (g_id g) = list_stream (cst_store cst) (g_id g)"
    using zs by simp
  have "stream_revision (cst_store cst') (g_id g) = Suc (g_revision g)"
    using A i' i1 by (simp add: sid stream_revision_length)
  then have n: "g_revision n = Suc (g_revision g)" using b by (simp add: sid sat_add64_def)
  have proj: "event_project ev (Some g) = Inr n"
    using event_project_delta [OF ev] delta_roundtrip_exact [OF ok(3)] by (simp add: project_delta_def)
  have "durable_graph env (cst_store cst1) (g_id n) = Inr g" using I same by (simp add: durable_graph_def sid)
  from append_refines [OF r jd proj n disjI2 [OF this]]
  have dur: "durable_graph env (cst_store cst') (g_id g) = Inr (crc_graph rc)" by (simp add: sid)
  have rc: "crc_graph rc = with_commit_cursor (ev_commit_cursor r) n" using A by blast
  have ok': "graph_ok (crc_graph rc)" using ok(1) by (simp add: rc graph_ok_def graph_wf_def)
  have "\<forall>h. hot_get (cst_hot cst) (g_id (crc_graph rc)) = Some h \<longrightarrow> g_revision h < g_revision (crc_graph rc)"
    using I by (auto simp: rc sid(1) n)
  from publish_committed [OF _ this, of "cst_hot cst'"]
  have "sm_wf (cst_hot cst')" "\<forall>h. hot_get (cst_hot cst') (g_id g) = Some h \<longrightarrow> h = crc_graph rc"
    using A I hot by (auto simp: rc sid)
  then show "commit_inv env (cst', crc_graph rc)" using i' dur ok' by (simp add: commit_inv_def rc sid)
  show "terminal_kept g (crc_graph rc)" using ok(2) by (simp add: rc terminal_kept_def)
  show "g_id (crc_graph rc) = g_id g" "g_revision (crc_graph rc) = Suc (g_revision g)" by (simp_all add: rc sid(1) n)
qed

lemma load_snapshot_inv:
  assumes "commit_inv env (cst, g)"
    and "load_snapshot (ce_codec env) verify candidates (g_id g) (cst_store cst) (cst_hot cst) = (hot, r)"
  shows "r = Inr g" "commit_inv env (cst \<lparr> cst_hot := hot \<rparr>, g)"
proof -
  note I = assms(1) [unfolded commit_inv_def, simplified]
  have ne: "list_stream (cst_store cst) (g_id g) \<noteq> []"
    using project_graph_identity(1) I unfolding durable_graph_def by blast
  show r: "r = Inr g"
    using assms(2) I ne by (auto simp: load_snapshot_def durable_graph_def Let_def split: option.splits if_splits)
  consider "hot = cst_hot cst" | "hot_get (cst_hot cst) (g_id g) = None"
      "hot = fst (publish_snapshot candidates g (cst_hot cst))"
    using assms(2) I ne durable_revision(2) [of env "cst_store cst" "g_id g" g]
    by (auto simp: load_snapshot_def durable_graph_def Let_def split: option.splits if_splits)
  then have "sm_wf hot \<and> (\<forall>h. hot_get hot (g_id g) = Some h \<longrightarrow> h = g)"
  proof cases
    case 2
    show ?thesis using publish_committed [OF _ _ 2(2)] 2(1) I by auto
  qed (use I in auto)
  then show "commit_inv env (cst \<lparr> cst_hot := hot \<rparr>, g)" using I by (simp add: commit_inv_def)
qed

lemma commits_delta_store:
  assumes "commits_delta env cst g n cst' rc" "store_inv (cst_store cst)" "\<not> rcp_duplicate (crc_transaction rc)"
  shows "(store_step (ce_store env))\<^sup>*\<^sup>* (cst_store cst) (cst_store cst')"
proof -
  obtain cst1 uuids now tx ev domain ex where run: "(store_step (ce_store env))\<^sup>*\<^sup>* (cst_store cst) (cst_store cst1)"
    and a: "append_graph_event_with_expected_domain_revisions env uuids now n (g_revision g) tx ev domain ex cst1
      = Inr (cst', rc)"
    using assms(1) unfolding commits_delta_def by blast
  have "store_inv (cst_store cst1)" by (rule store_log.evolves_inv_prefix(1) [OF run assms(2)])
  from append_graph_record(2) [OF a this assms(3)] show ?thesis using run by simp
qed

lemma commit_step_store:
  assumes "commit_step env (cst, g) (cst', g')" "store_inv (cst_store cst)"
  shows "(store_step (ce_store env))\<^sup>*\<^sup>* (cst_store cst) (cst_store cst')"
  by (cases rule: commit_step_cases [OF assms]) (use assms(2) commits_delta_store in auto)

lemma commit_step_inv:
  assumes "commit_step env (cst, g) (cst', g')" "commit_inv env (cst, g)"
    and "journal_decodes (ce_codec env) (cst_store cst')" "stream_revision (cst_store cst') (g_id g) \<le> u64_max"
  shows "commit_inv env (cst', g') \<and> terminal_kept g g' \<and> g_id g' = g_id g \<and> g_revision g \<le> g_revision g'"
proof -
  have i: "store_inv (cst_store cst)" using assms(2) by (simp add: commit_inv_def)
  from assms(1) i show ?thesis
  proof (cases rule: commit_step_cases)
    case (commit n rc)
    then show ?thesis using commits_delta_inv [OF assms(2) commit(1-3) assms(3,4)] by simp
  next
    case (read verify candidates r)
    from load_snapshot_inv(2) [OF assms(2) read(3)] show ?thesis using read(1,2) by (simp add: commit_inv_def)
  next
    case other
    then show ?thesis using assms(2) store_log.inv_step [OF i other(2)]
      by (auto simp: commit_inv_def durable_graph_def)
  qed
qed

lemma commit_run_store:
  assumes "commit_run env (cst, g) (cst', g')" "store_inv (cst_store cst)"
  shows "(store_step (ce_store env))\<^sup>*\<^sup>* (cst_store cst) (cst_store cst')"
  using assms(1)
proof (induction rule: rtranclp_induct2)
  case (step cst1 g1 cst2 g2)
  then show ?case
    using commit_step_store [OF step.hyps(2) store_log.evolves_inv_prefix(1) [OF step.IH assms(2)]] by simp
qed simp

lemma commit_run_inv:
  assumes "commit_run env (cst, g) (cst', g')" "commit_inv env (cst, g)"
    and "journal_decodes (ce_codec env) (cst_store cst')" "stream_revision (cst_store cst') (g_id g) \<le> u64_max"
  shows "commit_inv env (cst', g') \<and> terminal_kept g g' \<and> g_id g' = g_id g \<and> g_revision g \<le> g_revision g'"
  using assms(1,3,4)
proof (induction rule: rtranclp_induct2)
  case (step cst1 g1 cst2 g2)
  have i: "store_inv (cst_store cst)" using assms(2) by (simp add: commit_inv_def)
  have run: "(store_step (ce_store env))\<^sup>*\<^sup>* (cst_store cst) (cst_store cst1)"
    by (rule commit_run_store [OF step.hyps(1) i])
  have i1: "store_inv (cst_store cst1)" by (rule store_log.evolves_inv_prefix(1) [OF run i])
  note st = commit_step_store [OF step.hyps(2) i1]
  have "journal_decodes (ce_codec env) (cst_store cst1)" by (rule journal_decodes_mono [OF step.prems(1) st i1])
  moreover have "stream_revision (cst_store cst1) (g_id g) \<le> u64_max"
    using store_log.evolves_revision_mono [OF st i1, of "g_id g"] step.prems(2) by simp
  ultimately have IH: "commit_inv env (cst1, g1) \<and> terminal_kept g g1 \<and> g_id g1 = g_id g
      \<and> g_revision g \<le> g_revision g1" by (rule step.IH)
  then show ?case
    using commit_step_inv [OF step.hyps(2) _ step.prems(1)] step.prems(2) terminal_kept_trans by auto
qed (use assms(2) in simp)

section \<open>Registration\<close>

lemma register_loop_ok:
  assumes "register_loop env uuids now others again g domain revisions claim k conflict cst = Inr (cst', rc)"
    and "other_writers env others" "store_inv (cst_store cst)"
  shows "\<exists>cst1 ex. (store_step (ce_store env))\<^sup>*\<^sup>* (cst_store cst) (cst_store cst1) \<and> cst_hot cst1 = cst_hot cst
    \<and> append_graph_event_with_expected_domain_revisions env uuids now g 0 (g_id g @ '':planned'')
        (EvPlanned g) domain ex cst1 = Inr (cst', rc)"
  using assms
proof (induction k arbitrary: conflict cst)
  case (Suc k)
  let ?cst = "cst \<lparr> cst_store := others k (cst_store cst) \<rparr>"
  let ?a = "\<lambda>ex. append_graph_event_with_expected_domain_revisions env uuids now g 0 (g_id g @ '':planned'')
        (EvPlanned g) domain ex ?cst"
  have s: "(store_step (ce_store env))\<^sup>*\<^sup>* (cst_store cst) (cst_store ?cst)"
    using Suc.prems(2,3) by (simp add: other_writers_def)
  obtain ex where ex: "parent_fence env (cst_store ?cst) (fenced_parent g) revisions = Inr ex"
    using Suc.prems(1) by (auto simp: Let_def result_simps)
  show ?case
  proof (cases "?a ex")
    case (Inl e)
    then have "register_loop env uuids now others again g domain revisions claim k e ?cst = Inr (cst', rc)"
      using Suc.prems(1) ex by (auto simp: Let_def result_simps split: if_splits)
    from Suc.IH [OF this Suc.prems(2) store_log.evolves_inv_prefix(1) [OF s Suc.prems(3)]]
    show ?thesis using rtranclp_trans [OF s] by auto
  next
    case (Inr x)
    then have "?a ex = Inr (cst', rc)" using Suc.prems(1) ex by (simp add: Let_def)
    then show ?thesis using s by (intro exI [of _ ?cst] exI [of _ ex]) simp
  qed
qed simp

lemma planned_graph_ok:
  assumes "distinct (map n_id (g_nodes g))"
  shows "graph_ok (planned_graph g)"
    "sm_get (g_node_statuses (planned_graph g)) k = (if k \<in> n_id ` set (g_nodes g) then Some Planned else None)"
  using assms planned_fold [OF sm_wf_Nil, of "g_nodes g"]
  by (auto simp: graph_ok_def graph_wf_def planned_graph_def planned_fold_keys u64_max_def)

lemma register_append:
  assumes r: "register_graph_with_continuation env uuids now others graph actor cst = Inr (cst', rc)"
    and o: "other_writers env others" and i: "store_inv (cst_store cst)" and d: "\<not> rcp_duplicate (crc_transaction rc)"
  shows "(store_step (ce_store env))\<^sup>*\<^sup>* (cst_store cst) (cst_store cst')"
    "\<exists>cst1 e. (store_step (ce_store env))\<^sup>*\<^sup>* (cst_store cst) (cst_store cst1) \<and> cst_hot cst1 = cst_hot cst
      \<and> appends_record env cst1 (planned_graph graph) 0 (EvPlanned (planned_graph graph)) cst' rc e"
proof -
  let ?g = "planned_graph graph"
  obtain again domain revisions claim conflict
    where "register_loop env uuids now others again ?g domain revisions claim 8 conflict cst = Inr (cst', rc)"
    using r by (auto simp: register_graph_with_continuation_def Let_def result_simps split: prod.splits)
  from register_loop_ok [OF this o i] obtain cst1 ex
    where run: "(store_step (ce_store env))\<^sup>*\<^sup>* (cst_store cst) (cst_store cst1)" and hot: "cst_hot cst1 = cst_hot cst"
      and a: "append_graph_event_with_expected_domain_revisions env uuids now ?g 0 (g_id ?g @ '':planned'')
        (EvPlanned ?g) domain ex cst1 = Inr (cst', rc)"
    by blast
  have i1: "store_inv (cst_store cst1)" by (rule store_log.evolves_inv_prefix(1) [OF run i])
  note R = append_graph_record [OF a i1 d]
  show "(store_step (ce_store env))\<^sup>*\<^sup>* (cst_store cst) (cst_store cst')" using run R(2) by simp
  show "\<exists>cst1 e. (store_step (ce_store env))\<^sup>*\<^sup>* (cst_store cst) (cst_store cst1) \<and> cst_hot cst1 = cst_hot cst
      \<and> appends_record env cst1 ?g 0 (EvPlanned ?g) cst' rc e"
    using R(1) run hot by blast
qed

lemma register_inv:
  assumes r: "register_graph_with_continuation env uuids now others graph actor cst = Inr (cst', rc)"
    and o: "other_writers env others" and i: "store_inv (cst_store cst)" and d: "\<not> rcp_duplicate (crc_transaction rc)"
    and h: "sm_wf (cst_hot cst)" "hot_get (cst_hot cst) (g_id graph) = None"
    and n: "distinct (map n_id (g_nodes graph))" and jd: "journal_decodes (ce_codec env) (cst_store cst')"
  shows "commit_inv env (cst', crc_graph rc)" "g_id (crc_graph rc) = g_id graph" "g_revision (crc_graph rc) = 1"
    "g_node_statuses (crc_graph rc) = g_node_statuses (planned_graph graph)"
    "stream_revision (cst_store cst) (g_id graph) = 0"
proof -
  let ?g = "planned_graph graph"
  have id: "g_id ?g = g_id graph" by (simp add: planned_graph_def)
  note RA = register_append [OF r o i d]
  obtain cst1 e where run: "(store_step (ce_store env))\<^sup>*\<^sup>* (cst_store cst) (cst_store cst1)"
    and hot: "cst_hot cst1 = cst_hot cst" and e: "appends_record env cst1 ?g 0 (EvPlanned ?g) cst' rc e"
    using RA(2) by blast
  note A = e [unfolded appends_record_def]
  have dur: "durable_graph env (cst_store cst') (g_id ?g) = Inr (crc_graph rc)"
    by (rule append_refines [OF e jd, where g = ?g]) (simp_all add: planned_graph_def)
  have rc: "crc_graph rc = with_commit_cursor (ev_commit_cursor e) ?g" using A by blast
  have i': "store_inv (cst_store cst')" by (rule store_log.evolves_inv_prefix(1) [OF RA(1) i])
  have "graph_ok (crc_graph rc)" using planned_graph_ok(1) [OF n] by (simp add: rc graph_ok_def graph_wf_def)
  moreover have "sm_wf (cst_hot cst')" "\<forall>h. hot_get (cst_hot cst') (g_id ?g) = Some h \<longrightarrow> h = crc_graph rc"
    using publish_committed [of "cst_hot cst" "crc_graph rc" "cst_hot cst'"] A h hot by (auto simp: rc id)
  ultimately show "commit_inv env (cst', crc_graph rc)" using i' dur by (simp add: commit_inv_def rc)
  show "g_id (crc_graph rc) = g_id graph" "g_revision (crc_graph rc) = 1"
    "g_node_statuses (crc_graph rc) = g_node_statuses (planned_graph graph)"
    by (simp_all add: rc planned_graph_def)
  show "stream_revision (cst_store cst) (g_id graph) = 0"
    using store_log.evolves_revision_mono [OF run i, of "g_id graph"] A by (simp add: id)
qed

text \<open>Registration followed by a run\<close>
lemma registered_run_inv:
  assumes r: "register_graph_with_continuation env uuids now others graph actor cst = Inr (cst1, rc)"
    and o: "other_writers env others" and i: "store_inv (cst_store cst)" and d: "\<not> rcp_duplicate (crc_transaction rc)"
    and h: "sm_wf (cst_hot cst)" "hot_get (cst_hot cst) (g_id graph) = None"
    and n: "distinct (map n_id (g_nodes graph))" and run: "commit_run env (cst1, crc_graph rc) (cst2, g2)"
    and jd: "journal_decodes (ce_codec env) (cst_store cst2)"
    and b: "stream_revision (cst_store cst2) (g_id graph) \<le> u64_max"
  shows "commit_inv env (cst2, g2)" "g_id g2 = g_id graph"
proof -
  have i1: "store_inv (cst_store cst1)"
    by (rule store_log.evolves_inv_prefix(1) [OF register_append(1) [OF r o i d] i])
  have "journal_decodes (ce_codec env) (cst_store cst1)"
    by (rule journal_decodes_mono [OF jd commit_run_store [OF run i1] i1])
  note I = register_inv [OF r o i d h n this]
  show "commit_inv env (cst2, g2)" "g_id g2 = g_id graph"
    using commit_run_inv [OF run I(1) jd] b I(2) by auto
qed

section \<open>Properties\<close>


text \<open>
  C20: a node that has completed, failed, or been blocked or cancelled keeps that status: no
  transition, wave, replan, command or recovery the commit service accepts, in any order, moves a
  terminal node of the graph, and the revision never goes back.
\<close>
theorem committed_terminal_absorbing:
  assumes "register_graph_with_continuation env uuids now others graph actor cst = Inr (cst1, rc)"
    and "other_writers env others" "store_inv (cst_store cst)" "\<not> rcp_duplicate (crc_transaction rc)"
    and "sm_wf (cst_hot cst)" "hot_get (cst_hot cst) (g_id graph) = None" "distinct (map n_id (g_nodes graph))"
    and "commit_run env (cst1, crc_graph rc) (cst2, g2)" "commit_run env (cst2, g2) (cst3, g3)"
    and "journal_decodes (ce_codec env) (cst_store cst3)" "stream_revision (cst_store cst3) (g_id graph) \<le> u64_max"
    and "sm_get (g_node_statuses g2) k = Some s" "is_terminal s"
  shows "sm_get (g_node_statuses g3) k = Some s \<and> g_revision g2 \<le> g_revision g3"
proof -
  have i1: "store_inv (cst_store cst1)"
    by (rule store_log.evolves_inv_prefix(1) [OF register_append(1) [OF assms(1-4)] assms(3)])
  have i2: "store_inv (cst_store cst2)"
    by (rule store_log.evolves_inv_prefix(1) [OF commit_run_store [OF assms(8) i1] i1])
  note s23 = commit_run_store [OF assms(9) i2]
  have "stream_revision (cst_store cst2) (g_id graph) \<le> u64_max"
    using store_log.evolves_revision_mono [OF s23 i2, of "g_id graph"] assms(11) by simp
  note I = registered_run_inv [OF assms(1-8) journal_decodes_mono [OF assms(10) s23 i2] this]
  show ?thesis
    using commit_run_inv [OF assms(9) I(1) assms(10)] assms(11-13) I(2) by (auto simp: terminal_kept_def)
qed



end
