(* ===== verification/Commit_Witness.thy ===== *)
theory Commit_Witness
  imports Commit_Refinement
begin

text \<open>
  A concrete run of the commit service: a graph with one node is registered in an empty store and
  its node is cancelled.  The codec of the run knows the two events that are stored.
\<close>

definition demo_lineage :: execution_graph_lineage where
  "demo_lineage = \<lparr> l_session_id = ''s'', l_turn_id = ''t'', l_root_task_id = ''r'', l_task_id = ''k'',
     l_generation = 1 \<rparr>"

definition demo_graph :: execution_graph where
  "demo_graph = (graph_new ''1'' ''answer'') \<lparr> g_id := ''g'', g_nodes := [sample_node ''a'' AgentTask],
     g_lineage := Some demo_lineage \<rparr>"

definition demo_planned :: execution_graph where
  "demo_planned = planned_graph demo_graph"

text \<open>The committed graphs: the planned one with its commit cursor, and the cancelled one\<close>
definition demo_one :: execution_graph where
  "demo_one = with_commit_cursor 1 demo_planned"

definition demo_next :: execution_graph where
  "demo_next = demo_one \<lparr> g_revision := 2, g_node_statuses := [(''a'', Cancelled)],
     g_recovery_cursor := \<lparr> rc_commit_cursor = 1, rc_node_attempts = [(''a'', 0)] \<rparr> \<rparr>"

definition demo_two :: execution_graph where
  "demo_two = with_commit_cursor 2 demo_next"

definition demo_event :: execution_graph_event where
  "demo_event = EvNodeTransitioned ''a'' Planned Cancelled None None (between demo_one demo_next)"

definition demo_codec :: graph_codec where
  "demo_codec = \<lparr>
     gc_encode_event = (\<lambda>ev. if ev = EvPlanned demo_planned then JObject [(''type'', JString ''planned'')]
       else if ev = demo_event then JObject [(''type'', JString ''transitioned'')] else JNull),
     gc_decode_event = (\<lambda>j. case json_get j ''type'' of
       Some (JString t) \<Rightarrow> if t = ''planned'' then Inr (EvPlanned demo_planned)
         else if t = ''transitioned'' then Inr demo_event else Inl ''unknown variant''
     | _ \<Rightarrow> Inl ''missing field''),
     gc_decode_graph = (\<lambda>_. Inl ''missing field'') \<rparr>"

definition demo_env :: commit_env where
  "demo_env = \<lparr> ce_store = sample_env, ce_codec = demo_codec,
     ce_layout = \<lparr> sz_graph = 4096, sz_node = 1, sz_edge = 1, sz_result = 1, sz_delta = 1, sz_event = 1, sz_branch = 1 \<rparr>,
     ce_encode_binding = (\<lambda>_. JNull), ce_encode_result = (\<lambda>_. JNull), ce_encode_ticket = (\<lambda>_. JNull),
     ce_encode_outcome = (\<lambda>_. JNull), ce_decode_terminal = (\<lambda>_. None), ce_decode_packet = (\<lambda>_. None),
     ce_candidate_event = (\<lambda>_ _ _ _. Inr None), ce_decode_recovery_terminal = (\<lambda>_. None),
     ce_base64 = (\<lambda>s. s), ce_decision_events = (\<lambda>_ _ _. Inl []),
     ce_continuation_digest = (\<lambda>_. Inl []), ce_encode_continuation = (\<lambda>_. JNull), ce_continuation_seed = (\<lambda>_ _ _. Inl []),
     ce_source_unfinished = (\<lambda>_ _. Inr False), ce_evict = (\<lambda>_. []) \<rparr>"

definition demo_start :: commit_state where
  "demo_start = \<lparr> cst_store = empty_store, cst_hot = [] \<rparr>"

abbreviation demo_register where
  "demo_register \<equiv> register_graph_with_continuation demo_env (\<lambda>_. ''u'') (\<lambda>_. 0) (\<lambda>_ st. st) demo_graph None demo_start"

abbreviation demo_append where
  "demo_append g expected tx ev domain \<equiv>
     append_graph_event_with_expected_domain_revisions demo_env (\<lambda>_. ''u'') (\<lambda>_. 0) g expected tx ev domain []"

subsection \<open>The requests of the run\<close>

lemma demo_blank: "\<not> is_blank ''g''" "\<not> is_blank ''s''" "\<not> is_blank ''t''" "\<not> is_blank ''r''" "\<not> is_blank ''k''"
  "\<not> is_blank ''g:node:a''" "\<not> is_blank ''g:planned''" "\<not> is_blank ''execution_graph.planned''"
  "\<not> is_blank ''execution_graph.node_transitioned''" "\<not> is_blank ''execution_node.transitioned''"
  "\<not> is_blank ''activity:execution:g''" "\<not> is_blank ''activity:execution:g:node:a''" "\<not> is_blank ''g:a:2:10''"
  by code_simp+

lemma demo_nat_str: "nat_str (Suc 0) = ''1''" "nat_str 2 = ''2''" "nat_str 3 = ''3''" "nat_str 4 = ''4''" "nat_str 10 = ''10''"
  by code_simp+

lemma demo_planned_fields:
  "g_id demo_planned = ''g''" "g_lineage demo_planned = Some demo_lineage" "g_parent_execution demo_planned = None"
  "g_nodes demo_planned = [sample_node ''a'' AgentTask]" "g_revision demo_planned = Suc 0" "g_edges demo_planned = []"
  "g_node_statuses demo_planned = [(''a'', Planned)]" "g_node_results demo_planned = []"
  "g_recovery_cursor demo_planned = \<lparr> rc_commit_cursor = 0, rc_node_attempts = [] \<rparr>"
  "g_continuation_binding demo_planned = None"
  by (simp_all add: demo_planned_def demo_graph_def planned_graph_def graph_new_def sample_node_def)

lemma demo_lineage_fields: "l_session_id demo_lineage = ''s''" "l_turn_id demo_lineage = ''t''"
  "l_root_task_id demo_lineage = ''r''" "l_task_id demo_lineage = ''k''" "l_generation demo_lineage = Suc 0"
  "n_kind (sample_node i kind) = kind" "n_id (sample_node i kind) = i" "n_payload_ref (sample_node i kind) = ''payload''"
  by (simp_all add: demo_lineage_def sample_node_def)

lemma demo_lineage_valid: "lineage_validate demo_lineage = Inr ()"
  by (simp add: lineage_validate_def demo_lineage_def demo_blank)

definition demo_root_input :: "execution_graph \<Rightarrow> rstring \<Rightarrow> rstring \<Rightarrow> runtime_transaction_event_input" where
  "demo_root_input g kind tag = \<lparr> ti_event = \<lparr> in_stream_id = ''g'', in_scope = ScExecutionGraph,
       in_kind = kind, in_status = graph_status g, in_actor = Some ''execution_commit_service'',
       in_refs = [ref ''execution_graph'' ''g''],
       in_payload = JObject [(''type'', JString tag), (''_runtime_activity_binding'', JNull)] \<rparr>,
     ti_idempotency_key = Some (''g:revision:'' @ nat_str (g_revision g)), ti_schema_version = 1 \<rparr>"

lemma demo_graph_input:
  assumes "g_id g = ''g''" "g_lineage g = Some demo_lineage" "g_parent_execution g = None"
    and "g_nodes g = [sample_node ''a'' AgentTask]"
    and "gc_encode_event demo_codec ev = JObject [(''type'', JString tag)]"
  shows "graph_input demo_env g ev = Inr (demo_root_input g (event_kind ev) tag)"
  using assms
  by (simp add: graph_input_def root_activity_binding_def validated_graph_lineage_def demo_lineage_valid
      with_activity_binding_def activity_binding_of_def ab_validate_def demo_lineage_fields demo_blank demo_env_def
      demo_root_input_def graph_identity_refs_def List.map_filter_simps map_err_def)

lemma demo_encode: "gc_encode_event demo_codec (EvPlanned demo_planned) = JObject [(''type'', JString ''planned'')]"
  "gc_encode_event demo_codec demo_event = JObject [(''type'', JString ''transitioned'')]"
  by (simp_all add: demo_codec_def demo_event_def)

definition demo_rq1 :: append_transaction_request where
  "demo_rq1 = \<lparr> rq_transaction_id = ''g:planned'',
     rq_expected_streams = [\<lparr> es_stream_id = ''g'', es_expected_revision = 0 \<rparr>],
     rq_events = [demo_root_input demo_planned ''execution_graph.planned'' ''planned''] \<rparr>"

lemma demo_rq1: "graph_request demo_env empty_store demo_planned 0 ''g:planned'' (EvPlanned demo_planned) [] [] = Inr demo_rq1"
  by (simp add: graph_request_def demo_planned_fields validated_graph_lineage_def demo_lineage_valid
      maybe_checkpoint_def is_full_snapshot_def demo_graph_input demo_encode demo_rq1_def expected_streams_def)

lemma demo_append1: "append_inner sample_env (\<lambda>_. ''u'') (\<lambda>_. 0) demo_rq1 None empty_store =
    Inr (commit_request sample_env (\<lambda>_. ''u'') (\<lambda>_. 0) demo_rq1 None empty_store)"
  by (simp add: demo_rq1_def demo_root_input_def sample_simps demo_blank)

definition demo_st1 :: ephemeral_state where
  "demo_st1 = fst (commit_request sample_env (\<lambda>_. ''u'') (\<lambda>_. 0) demo_rq1 None empty_store)"

definition demo_rcp1 :: append_transaction_receipt where
  "demo_rcp1 = snd (commit_request sample_env (\<lambda>_. ''u'') (\<lambda>_. 0) demo_rq1 None empty_store)"

lemma demo_commit1: "(demo_st1, demo_rcp1) = commit_request sample_env (\<lambda>_. ''u'') (\<lambda>_. 0) demo_rq1 None empty_store"
  by (simp add: demo_st1_def demo_rcp1_def)

definition demo_cst1 :: commit_state where
  "demo_cst1 = \<lparr> cst_store = demo_st1, cst_hot = [(''g'', demo_one)] \<rparr>"

lemma demo_register:
  "demo_register = Inr (demo_cst1, \<lparr> crc_graph = demo_one, crc_transaction = demo_rcp1 \<rparr>)"
proof -
  have cur: "rcp_commit_cursor demo_rcp1 = 1"
    using commit_request_fields(6) [OF demo_commit1] by (simp add: empty_store_def)
  have a: "demo_append demo_planned 0 ''g:planned'' (EvPlanned demo_planned) [] demo_start =
      Inr (demo_cst1, \<lparr> crc_graph = demo_one, crc_transaction = demo_rcp1 \<rparr>)"
    using demo_rq1 demo_append1 cur
    by (simp add: append_graph_event_with_expected_domain_revisions_def demo_start_def demo_env_def
        demo_commit1 [symmetric] map_err_def demo_cst1_def demo_one_def publish_snapshot_def demo_planned_fields
        evict_completed_def Let_def)
  show ?thesis
    using a demo_planned_fields
    by (simp add: register_graph_with_continuation_def demo_planned_def [symmetric] continuation_claim_def
        refuse_existing_def continuation_seed_def lineage_event_def fenced_parent_def parent_fence_def Let_def
        eval_nat_numeral)
qed

subsection \<open>The transition\<close>

definition demo_node_input :: runtime_transaction_event_input where
  "demo_node_input = \<lparr> ti_event = \<lparr> in_stream_id = ''g:node:a'', in_scope = ScExecutionNode,
       in_kind = ''execution_node.transitioned'', in_status = Some ''cancelled'',
       in_actor = Some ''execution_commit_service'', in_refs = [ref ''execution_graph'' ''g''],
       in_payload = JObject [(''graph_id'', JString ''g''), (''node_id'', JString ''a''),
         (''from'', JString ''planned''), (''to'', JString ''cancelled''), (''result'', JNull),
         (''graph_revision'', JNumber ''2''), (''_runtime_activity_binding'', JNull)] \<rparr>,
     ti_idempotency_key = Some ''g:a:2'', ti_schema_version = 1 \<rparr>"

lemma demo_one_fields:
  "g_id demo_one = ''g''" "g_lineage demo_one = Some demo_lineage" "g_parent_execution demo_one = None"
  "g_nodes demo_one = [sample_node ''a'' AgentTask]" "g_revision demo_one = Suc 0" "g_edges demo_one = []"
  "g_node_statuses demo_one = [(''a'', Planned)]" "g_node_results demo_one = []"
  "g_recovery_cursor demo_one = \<lparr> rc_commit_cursor = 1, rc_node_attempts = [] \<rparr>"
  by (simp_all add: demo_one_def with_commit_cursor_def demo_planned_fields)

lemma demo_next_fields:
  "g_id demo_next = ''g''" "g_lineage demo_next = Some demo_lineage" "g_parent_execution demo_next = None"
  "g_nodes demo_next = [sample_node ''a'' AgentTask]" "g_revision demo_next = 2" "g_edges demo_next = []"
  "g_node_statuses demo_next = [(''a'', Cancelled)]" "g_node_results demo_next = []"
  "g_recovery_cursor demo_next = \<lparr> rc_commit_cursor = 1, rc_node_attempts = [(''a'', 0)] \<rparr>"
  by (simp_all add: demo_next_def demo_one_fields)

lemma demo_node_event: "node_transition_event demo_env demo_next ''a'' Planned Cancelled None = Inr demo_node_input"
  by (simp add: node_transition_event_def node_activity_binding_def validated_graph_lineage_def demo_lineage_valid
      demo_next_fields with_activity_binding_def activity_binding_of_def ab_validate_def demo_lineage_fields demo_blank
      demo_env_def demo_node_input_def map_err_def node_stream_id_def demo_nat_str)

lemma demo_delta:
  "between demo_one demo_next = \<lparr> d_revision = 2, d_objective = None, d_service_class = None,
     d_parent_execution = None, d_continuation_binding = None, d_delivery_envelope = None,
     d_terminal_presentation = None, d_added_nodes = [], d_removed_node_ids = [], d_added_edges = [],
     d_removed_edges = [], d_node_status_updates = [(''a'', Cancelled)], d_removed_node_statuses = [],
     d_node_result_updates = [], d_removed_node_results = [],
     d_recovery_cursor = \<lparr> rc_commit_cursor = 1, rc_node_attempts = [(''a'', 0)] \<rparr> \<rparr>"
  by (simp add: between_def demo_next_def demo_one_fields map_updates_def map_removals_def sm_get_def
        sm_contains_def sm_keys_def changed_def)

lemma demo_no_checkpoint: "maybe_checkpoint (ce_layout demo_env) demo_next demo_event = demo_event"
proof -
  let ?lay = "ce_layout demo_env"
  have lay: "?lay = \<lparr> sz_graph = 4096, sz_node = 1, sz_edge = 1, sz_result = 1, sz_delta = 1, sz_event = 1, sz_branch = 1 \<rparr>"
    by (simp add: demo_env_def)
  have d: "estimated_delta_bytes ?lay demo_event = 4"
    by (simp add: demo_event_def demo_delta estimated_bytes_def lay sat_sum_def sat_add64_def u64_max_def
        opt_len_def lens_def continuation_bytes_def envelope_bytes_def sm_keys_def)
  have "4096 \<le> estimate_graph_bytes ?lay demo_next"
    unfolding estimate_graph_bytes_def lay by (subst sat_sum_min) (simp_all add: u64_max_def)
  then have "\<not> sat_mul64 (max (estimate_graph_bytes ?lay demo_next) 1) 3 \<le> sat_mul64 4 4"
    by (simp add: sat_mul64_def u64_max_def)
  then show ?thesis by (simp add: maybe_checkpoint_def Let_def d demo_next_fields topology_interval_def)
qed

definition demo_rq2 :: append_transaction_request where
  "demo_rq2 = \<lparr> rq_transaction_id = ''g:a:2:10'',
     rq_expected_streams = [\<lparr> es_stream_id = ''g'', es_expected_revision = 1 \<rparr>,
       \<lparr> es_stream_id = ''g:node:a'', es_expected_revision = 0 \<rparr>],
     rq_events = [demo_root_input demo_next ''execution_graph.node_transitioned'' ''transitioned'', demo_node_input] \<rparr>"

lemma demo_st1_events: "map ev_stream_id (s_events demo_st1) = [''g'']" "map ev_sequence (s_events demo_st1) = [1]"
  "s_next_cursor demo_st1 = 1" "sm_get (s_transactions demo_st1) ''g:a:2:10'' = None"
  by (simp_all add: demo_st1_def commit_request_def demo_rq1_def demo_root_input_def empty_store_def Let_def sm_get_def
      sm_of_list_def)

lemma demo_st1_single: "\<exists>e. s_events demo_st1 = [e] \<and> ev_stream_id e = ''g'' \<and> ev_sequence e = 1"
  using demo_st1_events by (auto simp: map_eq_Cons_conv)

lemma demo_rq2:
  "graph_request demo_env demo_st1 demo_next 1 ''g:a:2:10'' demo_event [demo_node_input] [] = Inr demo_rq2"
proof -
  obtain e where e: "s_events demo_st1 = [e]" "ev_stream_id e = ''g''" using demo_st1_single by blast
  have "expected_domain_revision demo_st1 ''g:node:a'' tx key = 0" for tx key
    by (simp add: expected_domain_revision_def event_by_idempotency_key_def stream_revision_def list_stream_def
        matching_def e)
  moreover have "event_kind demo_event = ''execution_graph.node_transitioned''" by (simp add: demo_event_def)
  ultimately show ?thesis
    by (simp add: graph_request_def demo_next_fields validated_graph_lineage_def demo_lineage_valid demo_no_checkpoint
        demo_graph_input demo_encode demo_rq2_def expected_streams_def demo_node_input_def Let_def)
qed

lemma demo_append2: "append_inner sample_env (\<lambda>_. ''u'') (\<lambda>_. 0) demo_rq2 None demo_st1 =
    Inr (commit_request sample_env (\<lambda>_. ''u'') (\<lambda>_. 0) demo_rq2 None demo_st1)"
proof -
  obtain e where e: "s_events demo_st1 = [e]" "ev_stream_id e = ''g''" "ev_sequence e = 1"
    using demo_st1_single by blast
  show ?thesis
    by (simp add: demo_rq2_def demo_root_input_def demo_node_input_def append_inner_def validate_transaction_def
        sample_env_def max_transaction_events_def max_transaction_bytes_def check_expected_def
        check_transaction_event_def validate_event_def requires_activity_binding_def demo_blank
        check_stream_revision_def stream_revision_def list_stream_def matching_def demo_st1_events e)
qed

definition demo_st2 :: ephemeral_state where
  "demo_st2 = fst (commit_request sample_env (\<lambda>_. ''u'') (\<lambda>_. 0) demo_rq2 None demo_st1)"

definition demo_rcp2 :: append_transaction_receipt where
  "demo_rcp2 = snd (commit_request sample_env (\<lambda>_. ''u'') (\<lambda>_. 0) demo_rq2 None demo_st1)"

lemma demo_commit2: "(demo_st2, demo_rcp2) = commit_request sample_env (\<lambda>_. ''u'') (\<lambda>_. 0) demo_rq2 None demo_st1"
  by (simp add: demo_st2_def demo_rcp2_def)

definition demo_cst2 :: commit_state where
  "demo_cst2 = \<lparr> cst_store = demo_st2, cst_hot = [(''g'', demo_two)] \<rparr>"

lemma demo_transition:
  "transition_node demo_env (\<lambda>_. ''u'') (\<lambda>_. 0) (\<lambda>_ st. st) demo_one ''a'' Cancelled None [] demo_cst1 =
     Inr (demo_cst2, \<lparr> crc_graph = demo_two, crc_transaction = demo_rcp2 \<rparr>)"
proof -
  have cur: "rcp_commit_cursor demo_rcp2 = 2"
    using commit_request_fields(6) [OF demo_commit2] demo_st1_events(3) by simp
  have two: "g_id demo_two = ''g''" "g_revision demo_two = 2" by (simp_all add: demo_two_def demo_next_fields)
  have a: "demo_append demo_next 1 ''g:a:2:10'' demo_event [demo_node_input] demo_cst1 =
      Inr (demo_cst2, \<lparr> crc_graph = demo_two, crc_transaction = demo_rcp2 \<rparr>)"
    using demo_rq2 demo_append2 cur two
    by (simp add: append_graph_event_with_expected_domain_revisions_def demo_env_def demo_node_input_def
        demo_commit2 [symmetric] map_err_def demo_cst1_def demo_cst2_def demo_two_def [symmetric] publish_snapshot_def
        demo_one_fields evict_completed_def Let_def sm_get_def)
  have t: "apply_node_transition demo_one 1 ''a'' Cancelled None =
      Inr (demo_one \<lparr> g_node_statuses := [(''a'', Cancelled)], g_revision := 2 \<rparr>)"
    by (simp add: apply_node_transition_def demo_one_fields sm_get_def legal_transition_def sat_add64_def u64_max_def)
  have n: "set_attempt ''a'' 0 (demo_one \<lparr> g_node_statuses := [(''a'', Cancelled)], g_revision := 2 \<rparr>) = demo_next"
    by (simp add: set_attempt_def demo_next_def demo_one_fields)
  have c: "candidate_events demo_env demo_next ''a'' Cancelled = Inr []"
    by (simp add: candidate_events_def team_terminal_claim_def)
  show ?thesis
    using a t n c demo_node_event
    by (simp add: transition_node_def validate_executor_domain_events_def status_of_def demo_one_fields sm_get_def
        lift_transition_def map_err_def attempt_of_def append_graph_event_retrying_lineage_conflicts_def
        append_graph_event_def demo_node_input_def demo_event_def demo_next_fields demo_nat_str starts_with_def Let_def ss_of_list_def)
qed

subsection \<open>The hypotheses of the properties hold of the run\<close>

lemma demo_facts:
  "other_writers demo_env (\<lambda>_ st. st)" "store_inv (cst_store demo_start)" "sm_wf (cst_hot demo_start)"
  "hot_get (cst_hot demo_start) (g_id demo_graph) = None" "distinct (map n_id (g_nodes demo_graph))"
  "\<not> rcp_duplicate demo_rcp1" "\<not> rcp_duplicate demo_rcp2" "g_id demo_graph = ''g''"
  using commit_request_fields(5) [OF demo_commit1] commit_request_fields(5) [OF demo_commit2]
  by (simp_all add: other_writers_def demo_start_def empty_store_inv hot_get_def demo_graph_def)

lemma demo_run: "commit_run demo_env (demo_cst1, demo_one) (demo_cst2, demo_two)"
  using commit_step.transition [OF demo_transition demo_facts(1)] demo_facts(7) by auto

lemma demo_payloads: "map ev_payload (s_events demo_st2) = map (\<lambda>ti. in_payload (ti_event ti)) (rq_events demo_rq1 @ rq_events demo_rq2)"
  using commit_request_fields(1) [OF demo_commit1] commit_request_fields(1) [OF demo_commit2]
  by (simp add: new_events_def demo_rq1_def demo_rq2_def empty_store_def Let_def split: prod.splits)

abbreviation demo_payload :: "rstring \<Rightarrow> json" where
  "demo_payload tag \<equiv> JObject [(''type'', JString tag), (''_runtime_activity_binding'', JNull)]"

lemma demo_payload_of:
  "payload_of demo_codec ev (demo_payload ''planned'') \<Longrightarrow> ev = EvPlanned demo_planned"
  "payload_of demo_codec ev (demo_payload ''transitioned'') \<Longrightarrow> ev = demo_event"
  "\<not> payload_of demo_codec ev (in_payload (ti_event demo_node_input))"
  by (auto simp: payload_of_def demo_codec_def demo_node_input_def split: if_splits)

lemma demo_journal_decodes: "journal_decodes (ce_codec demo_env) (cst_store demo_cst2)"
  unfolding journal_decodes_def
proof (intro ballI allI impI)
  fix r ev
  assume r: "r \<in> set (s_events (cst_store demo_cst2))" and p: "payload_of (ce_codec demo_env) ev (ev_payload r)"
  have c: "ce_codec demo_env = demo_codec" by (simp add: demo_env_def)
  have "ev_payload r \<in> set (map ev_payload (s_events demo_st2))" using r by (simp add: demo_cst2_def)
  then consider "ev_payload r = demo_payload ''planned''" | "ev_payload r = demo_payload ''transitioned''"
    | "ev_payload r = in_payload (ti_event demo_node_input)"
    unfolding demo_payloads by (auto simp: demo_rq1_def demo_rq2_def demo_root_input_def)
  then show "gc_decode_event (ce_codec demo_env) (ev_payload r) = Inr ev
      \<and> (event_delta ev \<noteq> None \<longrightarrow> json_get (gc_encode_event (ce_codec demo_env) ev) ''graph'' = None)"
  proof cases
    case 1
    then have "ev = EvPlanned demo_planned" using p demo_payload_of(1) by (simp add: c)
    then show ?thesis using 1 by (simp add: c demo_codec_def)
  next
    case 2
    then have "ev = demo_event" using p demo_payload_of(2) by (simp add: c)
    then show ?thesis using 2 by (simp add: c demo_encode) (simp add: demo_codec_def)
  qed (use p demo_payload_of(3) c in simp)
qed

lemma demo_store_inv: "store_inv demo_st1"
  using append_inner_inv [OF empty_store_inv] demo_append1 demo_commit1 by metis

lemma demo_revision: "stream_revision (cst_store demo_cst2) ''g'' \<le> u64_max"
proof -
  have "stream_revision demo_st1 ''g'' = 1"
    using demo_st1_single by (auto simp: stream_revision_def list_stream_def matching_def)
  moreover have "append_inner sample_env (\<lambda>_. ''u'') (\<lambda>_. 0) demo_rq2 None demo_st1 = Inr (demo_st2, demo_rcp2)"
    by (simp add: demo_append2 demo_commit2)
  note append_inner_stream(2) [OF demo_store_inv this demo_facts(7), of "''g''"]
  ultimately show ?thesis
    by (simp add: demo_cst2_def demo_rq2_def of_stream_def demo_root_input_def demo_node_input_def u64_max_def)
qed

lemma demo_commit_inv: "commit_inv demo_env (demo_cst1, demo_one)"
proof -
  have run: "(store_step (ce_store demo_env))\<^sup>*\<^sup>* (cst_store demo_cst1) (cst_store demo_cst2)"
    by (rule commit_run_store [OF demo_run]) (simp add: demo_cst1_def demo_store_inv)
  have "journal_decodes (ce_codec demo_env) (cst_store demo_cst1)"
    by (rule journal_decodes_mono [OF demo_journal_decodes run]) (simp add: demo_cst1_def demo_store_inv)
  from register_inv(1) [OF demo_register demo_facts(1,2) _ demo_facts(3-5) this] show ?thesis
    by (simp add: demo_facts)
qed

section \<open>Witnesses\<close>


theorem committed_terminal_absorbing_witness:
  "sm_get (g_node_statuses demo_two) ''a'' = Some Cancelled"
proof -
  have "is_terminal Cancelled" "sm_get (g_node_statuses demo_two) ''a'' = Some Cancelled"
    by (simp_all add: is_terminal_def demo_two_def demo_next_fields sm_get_def)
  then show ?thesis
    using committed_terminal_absorbing [OF demo_register demo_facts(1,2) _ demo_facts(3-5), of demo_cst2 demo_two
        demo_cst2 demo_two "''a''" Cancelled]
      demo_run demo_journal_decodes demo_revision demo_facts(6,8) by simp
qed



end
