(* ===== verification/Recovery_Refinement.thy ===== *)
theory Recovery_Refinement
  imports Commit_Witness
begin

text \<open>
  Recovery after a restart, on top of the relation between journal, hot registry and graph: what
  \<open>recover\<close> commits, that the recovered graph is durable, and that recovering again changes nothing.
\<close>

lemma recover_fold_statuses:
  assumes "try_fold (recover_node reg g) s (g_nodes g) = Inr s'"
  shows "\<forall>n\<in>set (g_nodes g). sm_get (g_node_statuses g) (n_id n) \<noteq> None"
proof -
  have "\<forall>n\<in>set nodes. sm_get (g_node_statuses g) (n_id n) \<noteq> None"
    if "try_fold (recover_node reg g) s nodes = Inr s'" for nodes s
    using that
  proof (induction nodes arbitrary: s)
    case (Cons n nodes)
    then show ?case
      by (cases s) (auto simp: result_simps recover_node_def split: option.splits)
  qed simp
  then show ?thesis using assms by blast
qed

text \<open>The fold does nothing to a graph in which no node runs.\<close>
lemma recover_fold_idle:
  assumes "\<forall>n\<in>set nodes. \<exists>s. sm_get (g_node_statuses g) (n_id n) = Some s \<and> s \<noteq> Running"
  shows "try_fold (recover_node reg g) s nodes = Inr s"
  using assms
proof (induction nodes arbitrary: s)
  case (Cons n nodes)
  have "recover_node reg g s n = Inr s" using Cons.prems by (cases s) (auto simp: recover_node_def)
  then show ?case using Cons by simp
qed simp

lemma recover_idle:
  assumes "commit_inv env (cst, g)"
    and "\<forall>n\<in>set (g_nodes g). \<exists>s. sm_get (g_node_statuses g) (n_id n) = Some s \<and> s \<noteq> Running"
  shows "\<exists>cst'. recover env uuids now reg verify (g_id g) cst = (cst', Inr g) \<and> cst_store cst' = cst_store cst"
proof -
  obtain hot r where l: "load_snapshot (ce_codec env) verify (ce_evict env (cst_hot cst)) (g_id g)
      (cst_store cst) (cst_hot cst) = (hot, r)" by (metis surj_pair)
  have "r = Inr g" by (rule load_snapshot_inv(1) [OF assms(1) l])
  then show ?thesis using l recover_fold_idle [OF assms(2)] by (simp add: recover_def)
qed

lemma commit_recovery_fresh:
  assumes "commit_recovery env uuids now g m recovered blocked cst = Inr (cst', rc)"
    and "sm_get (s_transactions (cst_store cst)) (g_id g @ '':recovery:'' @ nat_str (sat_add64 (g_revision g) 1)) = None"
  shows "\<not> rcp_duplicate (crc_transaction rc)"
    "crc_graph rc = with_commit_cursor (rcp_commit_cursor (crc_transaction rc))
       (m \<lparr> g_revision := sat_add64 (g_revision g) 1 \<rparr>)"
proof -
  let ?n = "m \<lparr> g_revision := sat_add64 (g_revision g) 1 \<rparr>"
  obtain rq events where q: "graph_request env (cst_store cst) ?n (g_revision g)
      (g_id g @ '':recovery:'' @ nat_str (sat_add64 (g_revision g) 1))
      (EvRecovered recovered blocked (between g ?n)) events [] = Inr rq"
    and a: "append_inner (ce_store env) uuids now rq (find_terminal env events) (cst_store cst)
      = Inr (cst_store cst', crc_transaction rc)"
    and c: "crc_graph rc = with_commit_cursor (rcp_commit_cursor (crc_transaction rc)) ?n"
    using assms(1)
    by (auto simp: commit_recovery_def append_graph_event_def Let_def result_simps
        append_graph_event_with_expected_domain_revisions_def)
  show "crc_graph rc = with_commit_cursor (rcp_commit_cursor (crc_transaction rc)) ?n" by (rule c)
  show "\<not> rcp_duplicate (crc_transaction rc)"
    using append_inner_ok(2) [OF a] assms(2) graph_request_ok(3) [OF q] commit_request_fields(5) by auto
qed

text \<open>What an accepted recovery commits: the result of the loop over the nodes, and nothing else.\<close>
lemma recover_commits:
  assumes inv: "commit_inv env (cst, g)"
    and r: "recover env uuids now reg verify (g_id g) cst = (cst', Inr g')"
    and fresh: "sm_get (s_transactions (cst_store cst))
      (g_id g @ '':recovery:'' @ nat_str (sat_add64 (g_revision g) 1)) = None"
    and jd: "journal_decodes (ce_codec env) (cst_store cst')"
    and b: "stream_revision (cst_store cst') (g_id g) \<le> u64_max"
  obtains m recovered blocked where "try_fold (recover_node reg g) (g, [], []) (g_nodes g) = Inr (m, recovered, blocked)"
    "commit_inv env (cst', g')" "g_id g' = g_id g" "g_nodes g' = g_nodes g" "g_node_results g' = g_node_results g"
    "g_node_statuses g' = g_node_statuses m"
    "rc_node_attempts (g_recovery_cursor g') = rc_node_attempts (g_recovery_cursor g)"
proof -
  let ?st = "\<lambda>x. sm_get (g_node_statuses x)"
  have ok: "distinct (map n_id (g_nodes g))" "sm_wf (g_node_statuses g)"
    using inv by (auto simp: commit_inv_def graph_ok_def)
  obtain hot l where l: "load_snapshot (ce_codec env) verify (ce_evict env (cst_hot cst)) (g_id g)
      (cst_store cst) (cst_hot cst) = (hot, l)" by (metis surj_pair)
  note L = load_snapshot_inv [OF inv l]
  let ?cst = "cst \<lparr> cst_hot := hot \<rparr>"
  obtain m recovered blocked where f: "try_fold (recover_node reg g) (g, [], []) (g_nodes g) = Inr (m, recovered, blocked)"
    using r l L(1) by (auto simp: recover_def split: sum.splits)
  note F = recover_fold [OF f ok]
  have fields: "g_nodes m = g_nodes g" "g_node_results m = g_node_results g" "g_recovery_cursor m = g_recovery_cursor g"
    by (subst F(1), simp)+
  have "commit_inv env (cst', g') \<and> g_id g' = g_id g \<and> g_nodes g' = g_nodes g
      \<and> g_node_results g' = g_node_results g \<and> g_node_statuses g' = g_node_statuses m
      \<and> rc_node_attempts (g_recovery_cursor g') = rc_node_attempts (g_recovery_cursor g)"
  proof (cases "recovered = [] \<and> blocked = []")
    case True
    then have "\<not> running g n" if "n \<in> set (g_nodes g)" for n
      using F(5,6) that True by (fastforce simp: filter_empty_conv recovered_status_def split: if_splits)
    then have "?st m k = ?st g k" for k using F(3) F(4) [where k = k] by (cases "k \<in> n_id ` set (g_nodes g)") auto
    then have "g_node_statuses m = g_node_statuses g" using sm_wf_ext [OF F(2) ok(2)] by blast
    then show ?thesis using r l L f True by (simp add: recover_def)
  next
    case False
    obtain rc where c: "commit_recovery env uuids now g m recovered blocked ?cst = Inr (cst', rc)" "g' = crc_graph rc"
      using r l L(1) f False by (auto simp: recover_def split: sum.splits)
    have fr: "sm_get (s_transactions (cst_store ?cst)) (g_id g @ '':recovery:'' @ nat_str (sat_add64 (g_revision g) 1)) = None"
      using fresh by simp
    note R = commit_recovery_fresh [OF c(1) fr]
    have "commit_step env (?cst, g) (cst', g')" unfolding c(2) by (rule commit_step.recovery [OF f c(1) R(1)])
    from commit_step_inv [OF this L(2) jd b] show ?thesis
      by (simp add: c(2) R(2) fields with_commit_cursor_def)
  qed
  then show thesis using that [OF f] by blast
qed

section \<open>Properties\<close>

text \<open>
  C7: recovery after a restart.  Every node that was running becomes ready again when its executor
  is registered and is blocked otherwise; every other node keeps its status; results and attempt
  counters are untouched, so a crash does not consume a retry.  The recovered graph is the one the
  journal replays to, and recovering again returns it without writing to the store.
\<close>
theorem recover_correct:
  assumes inv: "commit_inv env (cst, g)"
    and r: "recover env uuids now reg verify (g_id g) cst = (cst', Inr g')"
    and fresh: "sm_get (s_transactions (cst_store cst))
      (g_id g @ '':recovery:'' @ nat_str (sat_add64 (g_revision g) 1)) = None"
    and jd: "journal_decodes (ce_codec env) (cst_store cst')"
    and b: "stream_revision (cst_store cst') (g_id g) \<le> u64_max"
  shows "(\<forall>n\<in>set (g_nodes g). sm_get (g_node_statuses g') (n_id n) =
        (if running g n then Some (recovered_status reg n) else sm_get (g_node_statuses g) (n_id n)))
    \<and> g_nodes g' = g_nodes g \<and> g_node_results g' = g_node_results g
    \<and> rc_node_attempts (g_recovery_cursor g') = rc_node_attempts (g_recovery_cursor g)
    \<and> durable_graph env (cst_store cst') (g_id g) = Inr g'
    \<and> (\<exists>cst''. recover env uuids' now' reg' verify' (g_id g) cst' = (cst'', Inr g')
          \<and> cst_store cst'' = cst_store cst')"
proof -
  obtain m recovered blocked where f: "try_fold (recover_node reg g) (g, [], []) (g_nodes g) = Inr (m, recovered, blocked)"
    and c: "commit_inv env (cst', g')" "g_id g' = g_id g" "g_nodes g' = g_nodes g" "g_node_results g' = g_node_results g"
      "g_node_statuses g' = g_node_statuses m" "rc_node_attempts (g_recovery_cursor g') = rc_node_attempts (g_recovery_cursor g)"
    by (rule recover_commits [OF assms])
  have ok: "distinct (map n_id (g_nodes g))" "sm_wf (g_node_statuses g)"
    using inv by (auto simp: commit_inv_def graph_ok_def)
  have st: "sm_get (g_node_statuses g') (n_id n) =
      (if running g n then Some (recovered_status reg n) else sm_get (g_node_statuses g) (n_id n))"
    if "n \<in> set (g_nodes g)" for n unfolding c(5) by (rule recover_fold(3) [OF f ok that])
  then have "\<exists>s. sm_get (g_node_statuses g') (n_id n) = Some s \<and> s \<noteq> Running" if "n \<in> set (g_nodes g)" for n
    using recover_fold_statuses [OF f] that by (auto simp: running_def recovered_status_def)
  then have "\<exists>cst''. recover env uuids' now' reg' verify' (g_id g') cst' = (cst'', Inr g') \<and> cst_store cst'' = cst_store cst'"
    using c by (intro recover_idle) auto
  then show ?thesis using c st by (auto simp: commit_inv_def)
qed

end
