(* ===== verification/Commit_Progress.thy ===== *)
theory Commit_Progress
  imports Recovery_Refinement
begin

text \<open>
  Progress of the commit service: a writer that holds the current graph and sends well-formed events
  is accepted.  The optimistic concurrency control refuses stale writers and nobody else.
\<close>

section \<open>Accepted appends\<close>

definition well_formed_event :: "commit_env \<Rightarrow> rstring \<Rightarrow> runtime_transaction_event_input \<Rightarrow> bool" where
  "well_formed_event env graph_id e \<longleftrightarrow> ti_idempotency_key e \<noteq> None \<and> ti_schema_version e \<noteq> 0
     \<and> in_stream_id (ti_event e) \<noteq> graph_id \<and> validate_event (ce_store env) (ti_event e) = Inr ()"

lemma check_expected_accepts:
  assumes "distinct (map es_stream_id ess)" "\<forall>es\<in>set ess. \<not> is_blank (es_stream_id es)"
    and "es_stream_id ` set ess \<inter> set seen = {}"
  shows "\<exists>seen'. try_fold check_expected seen ess = Inr seen' \<and> set seen' = set seen \<union> es_stream_id ` set ess"
  using assms
proof (induction ess arbitrary: seen)
  case (Cons es ess)
  then have "check_expected seen es = Inr (ss_insert (es_stream_id es) seen)" by (simp add: check_expected_def)
  moreover have "es_stream_id ` set ess \<inter> set (ss_insert (es_stream_id es) seen) = {}" using Cons.prems by auto
  ultimately show ?case using Cons.IH [of "ss_insert (es_stream_id es) seen"] Cons.prems by auto
qed simp

lemma domain_expected_props:
  assumes "domain_expected st tx ex seen es = (ess, seen')"
  shows "distinct (map es_stream_id ess)" "es_stream_id ` set ess \<inter> set seen = {}"
    "es_stream_id ` set ess \<subseteq> (\<lambda>e. in_stream_id (ti_event e)) ` set es"
    "(\<lambda>e. in_stream_id (ti_event e)) ` set es \<subseteq> es_stream_id ` set ess \<union> set seen"
    "\<forall>x\<in>set ess. sm_get ex (es_stream_id x) = None \<longrightarrow>
      (\<exists>key. es_expected_revision x = expected_domain_revision st (es_stream_id x) tx key)"
proof -
  have "distinct (map es_stream_id ess) \<and> es_stream_id ` set ess \<inter> set seen = {}
    \<and> es_stream_id ` set ess \<subseteq> (\<lambda>e. in_stream_id (ti_event e)) ` set es
    \<and> (\<lambda>e. in_stream_id (ti_event e)) ` set es \<subseteq> es_stream_id ` set ess \<union> set seen
    \<and> (\<forall>x\<in>set ess. sm_get ex (es_stream_id x) = None \<longrightarrow>
        (\<exists>key. es_expected_revision x = expected_domain_revision st (es_stream_id x) tx key))"
    using assms
  proof (induction es arbitrary: ess seen)
    case (Cons e es)
    let ?s = "in_stream_id (ti_event e)"
    show ?case
    proof (cases "?s \<in> set seen")
      case True
      then have "domain_expected st tx ex seen es = (ess, seen')" using Cons.prems by simp
      from Cons.IH [OF this] True show ?thesis by auto
    next
      case False
      then obtain r rest where r: "ess = \<lparr> es_stream_id = ?s, es_expected_revision = r \<rparr> # rest"
        "domain_expected st tx ex (ss_insert ?s seen) es = (rest, seen')"
        "sm_get ex ?s = None \<longrightarrow> r = expected_domain_revision st ?s tx (str_or_empty (ti_idempotency_key e))"
        using Cons.prems by (auto simp: Let_def split: prod.splits option.splits)
      then show ?thesis using Cons.IH [OF r(2)] False by auto
    qed
  qed simp
  then show "distinct (map es_stream_id ess)" "es_stream_id ` set ess \<inter> set seen = {}"
    "es_stream_id ` set ess \<subseteq> (\<lambda>e. in_stream_id (ti_event e)) ` set es"
    "(\<lambda>e. in_stream_id (ti_event e)) ` set es \<subseteq> es_stream_id ` set ess \<union> set seen"
    "\<forall>x\<in>set ess. sm_get ex (es_stream_id x) = None \<longrightarrow>
      (\<exists>key. es_expected_revision x = expected_domain_revision st (es_stream_id x) tx key)"
    by auto
qed

text \<open>A transaction no event of the journal belongs to expects the current revisions.\<close>
lemma expected_domain_revision_fresh:
  assumes "\<forall>e\<in>set (s_events st). ev_transaction_id e \<noteq> tx"
  shows "expected_domain_revision st s tx key = stream_revision st s"
  using assms find_SomeD
  by (fastforce simp: expected_domain_revision_def event_by_idempotency_key_def split: option.splits)

lemma validated_graph_lineage_ok:
  "validated_graph_lineage g = Inr l \<longleftrightarrow> g_lineage g = Some l \<and> lineage_validate l = Inr ()"
  by (auto simp: validated_graph_lineage_def split: option.splits sum.splits)

lemma root_binding_valid:
  assumes "validated_graph_lineage g = Inr l" "\<not> is_blank (g_id g)"
  shows "\<exists>b. root_activity_binding g = Inr b \<and> ab_validate b = Inr ()"
    "\<exists>b. node_activity_binding g i = Inr b \<and> ab_validate b = Inr ()"
proof -
  have l: "g_lineage g = Some l" "lineage_validate l = Inr ()"
    using assms(1) by (simp_all add: validated_graph_lineage_ok)
  have nb: "\<not> is_blank (''activity:execution:'' @ s)" for s
    by (rule solid_not_blank [of "CHR ''a''"]) (simp_all add: solid_def)
  show "\<exists>b. root_activity_binding g = Inr b \<and> ab_validate b = Inr ()"
    "\<exists>b. node_activity_binding g i = Inr b \<and> ab_validate b = Inr ()"
    using l assms nb by (auto simp: root_activity_binding_def node_activity_binding_def ab_validate_def
        activity_binding_of_def lineage_validate_def split: if_splits)
qed

lemma graph_input_accepts:
  assumes "validated_graph_lineage g = Inr l" "\<not> is_blank (g_id g)" "gc_encode_event (ce_codec env) ev = JObject m"
  shows "\<exists>gi. graph_input env g ev = Inr gi \<and> ti_schema_version gi = 1"
  using root_binding_valid(1) [OF assms(1,2)] assms(3)
  by (auto simp: graph_input_def with_activity_binding_def map_err_def)

lemma event_kind_not_blank: "\<not> is_blank (event_kind ev)"
  by (rule solid_not_blank [of "CHR ''e''"]) (cases ev; simp add: solid_def)+

definition small_requests :: "commit_env \<Rightarrow> bool" where
  "small_requests env \<longleftrightarrow> (\<forall>rq. env_request_bytes (ce_store env) rq \<le> max_transaction_bytes)"

definition object_events :: "commit_env \<Rightarrow> bool" where
  "object_events env \<longleftrightarrow> (\<forall>ev. \<exists>m. gc_encode_event (ce_codec env) ev = JObject m)"

definition fresh_transaction :: "ephemeral_state \<Rightarrow> rstring \<Rightarrow> bool" where
  "fresh_transaction st tx \<longleftrightarrow> sm_get (s_transactions st) tx = None
     \<and> (\<forall>e\<in>set (s_events st). ev_transaction_id e \<noteq> tx)"

text \<open>The request for well-formed events is valid, and expects the revisions the streams have.\<close>
lemma graph_request_accepts:
  assumes lin: "validated_graph_lineage g = Inr l" and gid: "\<not> is_blank (g_id g)"
    and env: "object_events env" "small_requests env" and tx: "\<not> is_blank tx" "fresh_transaction (cst_store cst) tx"
    and dom: "\<forall>e\<in>set domain. well_formed_event env (g_id g) e" "Suc (length domain) \<le> max_transaction_events"
    and rev: "stream_revision (cst_store cst) (g_id g) = expected"
  obtains rq where "graph_request env (cst_store cst) g expected tx ev domain [] = Inr rq" "rq_transaction_id rq = tx"
    "validate_transaction (ce_store env) rq = Inr ()"
    "try_fold (\<lambda>_. check_stream_revision (cst_store cst)) () (rq_expected_streams rq) = Inr ()"
proof -
  let ?st = "cst_store cst"
  obtain m where m: "gc_encode_event (ce_codec env) (maybe_checkpoint (ce_layout env) g ev) = JObject m"
    using env(1) by (auto simp: object_events_def)
  obtain gi where gi: "graph_input env g (maybe_checkpoint (ce_layout env) g ev) = Inr gi" "ti_schema_version gi = 1"
    using graph_input_accepts [OF lin gid m] by blast
  note G = graph_input_ok [OF gi(1)]
  obtain own seen where own: "domain_expected ?st tx [] [g_id g] domain = (own, seen)" by (metis surj_pair)
  note D = domain_expected_props [OF own]
  let ?ess = "\<lparr> es_stream_id = g_id g, es_expected_revision = expected \<rparr> # own"
  let ?rq = "\<lparr> rq_transaction_id = tx, rq_expected_streams = ?ess, rq_events = gi # domain \<rparr>"
  have "\<not> list_ex (\<lambda>e. in_stream_id (ti_event e) = g_id g) domain"
    "find (\<lambda>e. ti_idempotency_key e = None) domain = None"
    using dom(1) by (auto simp: list_ex_iff find_None_iff well_formed_event_def)
  then have rq: "graph_request env ?st g expected tx ev domain [] = Inr ?rq"
    by (simp add: graph_request_def lin gi(1) expected_streams_def own)
  have nb: "\<forall>es\<in>set ?ess. \<not> is_blank (es_stream_id es)"
    using gid dom(1) D(3) by (fastforce simp: well_formed_event_def validate_event_def split: if_splits)
  obtain streams where st: "try_fold check_expected [] ?ess = Inr streams" "set streams = es_stream_id ` set ?ess"
    using check_expected_accepts [of ?ess "[]"] nb D(1,2) by auto
  have "check_transaction_event (ce_store env) streams ti = Inr ()" if "ti \<in> set (gi # domain)" for ti
  proof (cases "ti = gi")
    case True
    then show ?thesis using G gi(2) gid st(2) event_kind_not_blank
      by (simp add: check_transaction_event_def validate_event_def requires_activity_binding_def)
  next
    case False
    then have "in_stream_id (ti_event ti) \<in> set streams" "well_formed_event env (g_id g) ti"
      using that D(4) dom(1) st(2) by auto
    then show ?thesis by (simp add: check_transaction_event_def well_formed_event_def)
  qed
  then have "try_fold (\<lambda>_. check_transaction_event (ce_store env) streams) () (gi # domain) = Inr ()"
    by (simp only: try_fold_unit) blast
  then have v: "validate_transaction (ce_store env) ?rq = Inr ()"
    using env(2) tx(1) dom(2) st(1) by (simp add: validate_transaction_def small_requests_def not_less not_le)
  have "stream_revision ?st (es_stream_id es) = es_expected_revision es" if "es \<in> set ?ess" for es
    using that rev D(5) tx(2) expected_domain_revision_fresh by (auto simp: fresh_transaction_def)
  then have "try_fold (\<lambda>_. check_stream_revision ?st) () ?ess = Inr ()" by (simp only: check_revisions_ok) blast
  then show thesis using that [OF rq] v by simp
qed

lemma append_graph_event_accepts:
  assumes lin: "validated_graph_lineage g = Inr l" and gid: "\<not> is_blank (g_id g)"
    and env: "object_events env" "small_requests env" and tx: "\<not> is_blank tx" "fresh_transaction (cst_store cst) tx"
    and dom: "\<forall>e\<in>set domain. well_formed_event env (g_id g) e" "Suc (length domain) \<le> max_transaction_events"
    and noterm: "find_terminal env domain = None" and rev: "stream_revision (cst_store cst) (g_id g) = expected"
  shows "\<exists>cst' rc. append_graph_event env uuids now g expected tx ev domain cst = Inr (cst', rc)
    \<and> \<not> rcp_duplicate (crc_transaction rc)"
proof -
  let ?st = "cst_store cst"
  obtain rq where rq: "graph_request env ?st g expected tx ev domain [] = Inr rq" "rq_transaction_id rq = tx"
    "validate_transaction (ce_store env) rq = Inr ()" "try_fold (\<lambda>_. check_stream_revision ?st) () (rq_expected_streams rq) = Inr ()"
    by (rule graph_request_accepts [OF lin gid env tx dom rev])
  then have a: "append_inner (ce_store env) uuids now rq None ?st = Inr (commit_request (ce_store env) uuids now rq None ?st)"
    using tx(2) by (simp add: append_inner_def fresh_transaction_def)
  obtain st' rc where c: "(st', rc) = commit_request (ce_store env) uuids now rq None ?st" by (metis surj_pair)
  show ?thesis using rq(1) a commit_request_fields(5) [OF c] c [symmetric]
    by (simp add: append_graph_event_def append_graph_event_with_expected_domain_revisions_def noterm map_err_def Let_def)
qed

text \<open>A commit leaves other transaction ids fresh.\<close>
lemma append_graph_event_fresh:
  assumes a: "append_graph_event_with_expected_domain_revisions env uuids now g expected tx ev domain ex cst
      = Inr (cst', rc)"
    and i: "store_inv (cst_store cst)" and d: "\<not> rcp_duplicate (crc_transaction rc)"
    and f: "fresh_transaction (cst_store cst) tx'" and ne: "tx' \<noteq> tx"
  shows "fresh_transaction (cst_store cst') tx'"
proof -
  obtain rq where rq: "graph_request env (cst_store cst) g expected tx ev domain ex = Inr rq"
    and ai: "append_inner (ce_store env) uuids now rq (find_terminal env domain) (cst_store cst)
      = Inr (cst_store cst', crc_transaction rc)"
    using a by (auto simp: append_graph_event_with_expected_domain_revisions_def result_simps Let_def)
  have tx: "rq_transaction_id rq = tx" by (rule graph_request_ok(3) [OF rq])
  note C = commit_request_fields [OF append_inner_stream(3) [OF i ai d]]
  have "\<forall>es\<in>set (rq_expected_streams rq). stream_revision (cst_store cst) (es_stream_id es) = es_expected_revision es"
    using append_inner_ok(2) [OF ai] d by auto
  note N = new_events_props(3) [OF append_inner_ok(1) [OF ai] this i]
  have wf: "sm_wf (s_transactions (cst_store cst))" using i by (simp add: store_inv_def)
  show ?thesis using f ne N tx by (auto simp: fresh_transaction_def C(1,3) sm_get_insert [OF wf])
qed

section \<open>Accepted operations\<close>

lemma node_event_accepts:
  assumes "validated_graph_lineage g = Inr l" "\<not> is_blank (g_id g)"
  shows "\<exists>e. node_transition_event env g i from to result = Inr e \<and> well_formed_event env (g_id g) e
    \<and> in_kind (ti_event e) = ''execution_node.transitioned'' \<and> in_stream_id (ti_event e) = node_stream_id (g_id g) i"
proof -
  obtain b where b: "node_activity_binding g i = Inr b" "ab_validate b = Inr ()"
    using root_binding_valid(2) [OF assms] by blast
  have nb: "\<not> is_blank (node_stream_id (g_id g) i)" "\<not> is_blank ''execution_node.transitioned''"
    by (rule solid_not_blank [of "CHR ''n''"]; simp add: node_stream_id_def solid_def)+
  have ne: "node_stream_id (g_id g) i \<noteq> g_id g" by (simp add: node_stream_id_def)
  show ?thesis using b nb ne
    by (auto simp: node_transition_event_def with_activity_binding_def map_err_def well_formed_event_def
        validate_event_def requires_activity_binding_def)
qed

lemma find_terminal_none:
  "\<forall>e\<in>set es. in_kind (ti_event e) \<noteq> ''runtime.session.terminal_requested'' \<Longrightarrow> find_terminal env es = None"
  by (induction es) auto

text \<open>A transition that proposes no knowledge candidate: it does not complete a synthesis node\<close>
definition no_candidate :: "execution_graph \<Rightarrow> rstring \<Rightarrow> execution_node_status \<Rightarrow> bool" where
  "no_candidate g i to \<longleftrightarrow> to \<noteq> Completed
     \<or> (case find (\<lambda>n. n_id n = i) (g_nodes g) of Some n \<Rightarrow> n_kind n \<noteq> Synthesize | None \<Rightarrow> True)"

lemma no_candidate_events:
  assumes "no_candidate g i to" "g_nodes n = g_nodes g"
  shows "candidate_events env n i to = Inr []"
  using assms by (auto simp: no_candidate_def candidate_events_def team_terminal_claim_def split: option.splits)

definition transition_tx :: "execution_graph \<Rightarrow> rstring \<Rightarrow> execution_node_status \<Rightarrow> rstring" where
  "transition_tx g i to = g_id g @ '':'' @ i @ '':'' @ nat_str (sat_add64 (g_revision g) 1) @ '':'' @ nat_str (status_code to)"

lemma transition_node_accepts:
  assumes lin: "validated_graph_lineage g = Inr l" and gid: "\<not> is_blank (g_id g)"
    and not_lineage: "\<not> starts_with ''execution-lineage:'' (node_stream_id (g_id g) i)"
    and env: "object_events env" "small_requests env" "no_candidate g i to"
    and rev: "stream_revision (cst_store cst) (g_id g) = g_revision g"
    and legal: "sm_get (g_node_statuses g) i = Some from" "legal_transition from to"
    and tx: "fresh_transaction (cst_store cst) (transition_tx g i to)" and si: "store_inv (cst_store cst)"
  shows "\<exists>cst' rc a m. transition_node env uuids now others g i to result [] cst = Inr (cst', rc)
    \<and> \<not> rcp_duplicate (crc_transaction rc)
    \<and> apply_node_transition g (g_revision g) i to result = Inr m
    \<and> crc_graph rc = with_commit_cursor (rcp_commit_cursor (crc_transaction rc)) (set_attempt i a m)
    \<and> (\<forall>tx'. tx' \<noteq> transition_tx g i to \<longrightarrow> fresh_transaction (cst_store cst) tx' \<longrightarrow> fresh_transaction (cst_store cst') tx')"
proof -
  obtain m where m: "apply_node_transition g (g_revision g) i to result = Inr m"
    using legal by (simp add: apply_node_transition_def)
  define a where "a = (if to = Running then sat_add32 (attempt_of m i) 1 else attempt_of m i)"
  let ?n = "set_attempt i a m"
  have n: "g_id ?n = g_id g" "g_lineage ?n = g_lineage g" "g_revision ?n = sat_add64 (g_revision g) 1"
    using apply_node_transition_frame [OF m] m by (auto simp: set_attempt_def status_frame_def apply_node_transition_ok)
  have lin': "validated_graph_lineage ?n = Inr l" using lin n(2) by (simp add: validated_graph_lineage_ok)
  obtain e where e: "node_transition_event env ?n i from to result = Inr e" "well_formed_event env (g_id g) e"
    "in_kind (ti_event e) = ''execution_node.transitioned''" "in_stream_id (ti_event e) = node_stream_id (g_id g) i"
    using node_event_accepts [OF lin', of env i "from" to result] gid unfolding n(1) by blast
  let ?ev = "EvNodeTransitioned i from to result None (between g ?n)"
  have nb: "\<not> is_blank (transition_tx g i to)"
    by (rule solid_not_blank [of "CHR '':''"]) (simp_all add: transition_tx_def solid_def)
  obtain cst' rc where ap: "append_graph_event env uuids now ?n (g_revision g) (transition_tx g i to) ?ev [e] cst
      = Inr (cst', rc)" "\<not> rcp_duplicate (crc_transaction rc)"
    using append_graph_event_accepts [OF lin' _ env(1,2) nb tx, of "[e]" "g_revision g" uuids now ?ev] e gid rev
    by (auto simp: n max_transaction_events_def)
  have c: "candidate_events env ?n i to = Inr []"
    using no_candidate_events [OF env(3), of ?n] apply_node_transition_frame [OF m]
    by (simp add: set_attempt_def status_frame_def)
  have g: "crc_graph rc = with_commit_cursor (rcp_commit_cursor (crc_transaction rc)) ?n"
    using ap(1) by (auto simp: append_graph_event_def append_graph_event_with_expected_domain_revisions_def result_simps Let_def)
  have t: "transition_node env uuids now others g i to result [] cst = Inr (cst', rc)"
    using m e(1,4) ap(1) c n legal(1) not_lineage
    by (simp add: transition_node_def validate_executor_domain_events_def status_of_def lift_transition_def map_err_def
        append_graph_event_retrying_lineage_conflicts_def Let_def ss_of_list_def transition_tx_def a_def [symmetric])
  show ?thesis
    using t ap(2) m g append_graph_event_fresh [OF ap(1) [unfolded append_graph_event_def] si ap(2)] by blast
qed

lemma commits_delta_revision:
  assumes "commits_delta env cst g n cst' rc" "g_id n = g_id g" "store_inv (cst_store cst)"
    and "\<not> rcp_duplicate (crc_transaction rc)"
  shows "stream_revision (cst_store cst') (g_id g) = Suc (g_revision g)"
proof -
  obtain cst1 uuids now tx ev domain ex where run: "(store_step (ce_store env))\<^sup>*\<^sup>* (cst_store cst) (cst_store cst1)"
    and a: "append_graph_event_with_expected_domain_revisions env uuids now n (g_revision g) tx ev domain ex cst1
      = Inr (cst', rc)"
    using assms(1) unfolding commits_delta_def by blast
  have i: "store_inv (cst_store cst1)" by (rule store_log.evolves_inv_prefix(1) [OF run assms(3)])
  note R = append_graph_record [OF a i assms(4)]
  obtain r where "appends_record env cst1 n (g_revision g) ev cst' rc r" using R(1) by blast
  then show ?thesis
    using stream_revision_length [OF i] stream_revision_length [OF store_log.inv_step [OF i R(2)]]
    by (simp add: appends_record_def assms(2))
qed

lemma current_writer_step:
  assumes inv: "commit_inv env (cst, g)" and lin: "validated_graph_lineage g = Inr l" and gid: "\<not> is_blank (g_id g)"
    and not_lineage: "\<not> starts_with ''execution-lineage:'' (node_stream_id (g_id g) i)"
    and env: "object_events env" "small_requests env" "no_candidate g i to" "\<forall>st. journal_decodes (ce_codec env) st"
    and legal: "sm_get (g_node_statuses g) i = Some from" "legal_transition from to"
    and tx: "fresh_transaction (cst_store cst) (transition_tx g i to)" and b: "g_revision g < u64_max"
  shows "\<exists>cst' rc. transition_node env uuids now (\<lambda>_ st. st) g i to result [] cst = Inr (cst', rc)
    \<and> \<not> rcp_duplicate (crc_transaction rc) \<and> commit_inv env (cst', crc_graph rc)
    \<and> sm_get (g_node_statuses (crc_graph rc)) = (sm_get (g_node_statuses g))(i \<mapsto> to)
    \<and> g_revision (crc_graph rc) = g_revision g + 1
    \<and> g_id (crc_graph rc) = g_id g \<and> g_lineage (crc_graph rc) = g_lineage g \<and> g_nodes (crc_graph rc) = g_nodes g
    \<and> g_edges (crc_graph rc) = g_edges g
    \<and> (\<forall>tx'. tx' \<noteq> transition_tx g i to \<longrightarrow> fresh_transaction (cst_store cst) tx' \<longrightarrow> fresh_transaction (cst_store cst') tx')"
proof -
  have i: "store_inv (cst_store cst)" and rev: "stream_revision (cst_store cst) (g_id g) = g_revision g"
    using inv durable_revision(2) by (fastforce simp: commit_inv_def)+
  obtain cst' rc a m where t: "transition_node env uuids now (\<lambda>_ st. st) g i to result [] cst = Inr (cst', rc)"
    and d: "\<not> rcp_duplicate (crc_transaction rc)"
    and m: "apply_node_transition g (g_revision g) i to result = Inr m"
    and rc: "crc_graph rc = with_commit_cursor (rcp_commit_cursor (crc_transaction rc)) (set_attempt i a m)"
    and f: "\<forall>tx'. tx' \<noteq> transition_tx g i to \<longrightarrow> fresh_transaction (cst_store cst) tx' \<longrightarrow> fresh_transaction (cst_store cst') tx'"
    using transition_node_accepts [OF lin gid not_lineage env(1-3) rev legal tx i] by blast
  have "other_writers env (\<lambda>_ st. st)" by (simp add: other_writers_def)
  from transition_node_commits [OF t this i] obtain n
    where c: "commits_delta env cst g n cst' rc" "successor g n" by blast
  have "stream_revision (cst_store cst') (g_id g) \<le> u64_max"
    using commits_delta_revision [OF c(1) _ i d] c(2) b by (simp add: successor_def)
  note C = commits_delta_inv [OF inv c d env(4) [rule_format] this]
  have "graph_wf g" using inv by (simp add: commit_inv_def graph_ok_def)
  then have "sm_get (g_node_statuses (crc_graph rc)) = (sm_get (g_node_statuses g))(i \<mapsto> to)"
    using apply_node_transition_status [OF _ m] by (auto simp: rc set_attempt_def fun_eq_iff)
  moreover have "g_lineage (crc_graph rc) = g_lineage g" "g_nodes (crc_graph rc) = g_nodes g"
    "g_edges (crc_graph rc) = g_edges g"
    using apply_node_transition_frame [OF m] by (simp_all add: rc set_attempt_def with_commit_cursor_def status_frame_def)
  ultimately show ?thesis using t d C(1,3,5) f by auto
qed

section \<open>Properties\<close>


end
