(* ===== verification/Graph_Codec.thy ===== *)
theory Graph_Codec
  imports Commit_Progress "HOL-Library.Countable"
begin

text \<open>
  Serialization of graph events exists.  Every type a graph event is made of is countable, so there
  is a codec with the laws the commit properties ask of serde: each event has an object payload, and
  every payload decodes to the event it encodes, whatever field is added to it.
\<close>

section \<open>Countable types\<close>

instance reality_boundary :: countable
  by countable_datatype

instance evidence_ref_ext :: (countable) countable
  by (rule countable_classI [of "\<lambda>r. to_nat (er_ref_type r, er_id r, er_source r, er_boundary r,
        er_confidence_bp r, evidence_ref.more r)"])
    (simp add: evidence_ref.equality)

instance workspace_object_kind :: countable
  by countable_datatype

instance workspace_path_identity_ext :: (countable) countable
  by (rule countable_classI [of "\<lambda>r. to_nat (wp_workspace_id r, wp_repository_id r,
        wp_workspace_relative_path r, wp_repository_relative_path r, wp_object_kind r,
        wp_observed_revision_or_digest r, workspace_path_identity.more r)"])
    (simp add: workspace_path_identity.equality)

instance workspace_access_mode :: countable
  by countable_datatype

instance evidence_coverage_kind :: countable
  by countable_datatype

instance workspace_scope_identity_ext :: (countable) countable
  by (rule countable_classI [of "\<lambda>r. to_nat (ws_access_mode r, ws_path r, ws_coverage r,
        workspace_scope_identity.more r)"])
    (simp add: workspace_scope_identity.equality)

instance evidence_target_identity :: countable
  by countable_datatype

instance evidence_obligation_kind :: countable
  by countable_datatype

instance evidence_observation_requirement :: countable
  by countable_datatype

instance evidence_obligation_ext :: (countable) countable
  by (rule countable_classI [of "\<lambda>r. to_nat (eo_obligation_id r, eo_kind r, eo_target r,
        eo_observation_requirement r, evidence_obligation.more r)"])
    (simp add: evidence_obligation.equality)

instance required_acceptance_ext :: (countable) countable
  by (rule countable_classI [of "\<lambda>r. to_nat (ra_criteria r, ra_evidence_obligations r,
        required_acceptance.more r)"])
    (simp add: required_acceptance.equality)

instance evidence_durability :: countable
  by countable_datatype

instance evidence_access_ref_ext :: (countable) countable
  by (rule countable_classI [of "\<lambda>r. to_nat (ea_evidence_ref r, ea_sha256 r, ea_bytes r,
        ea_media_type r, ea_durability r, ea_retrieval_selector r, ea_visibility_scope r,
        evidence_access_ref.more r)"])
    (simp add: evidence_access_ref.equality)

instance provider_model_observation_ext :: (countable) countable
  by (rule countable_classI [of "\<lambda>r. to_nat (pm_provider_invocation_id r, pm_obligation_ids r,
        pm_raw_ref r, pm_model_receipt_sha256 r, pm_raw_tokens r, pm_receipt_tokens r, pm_omitted_tokens
        r, pm_complete r, pm_provider_request_sequence r, pm_provider_attempt r, pm_model r,
        provider_model_observation.more r)"])
    (simp add: provider_model_observation.equality)

instance workspace_prior_state :: countable
  by countable_datatype

instance observed_evidence_provenance :: countable
  by countable_datatype

instance observed_evidence_ext :: (countable) countable
  by (rule countable_classI [of "\<lambda>r. to_nat (oe_obligation_id r, oe_target r,
        oe_observed_at_sequence r, oe_tool_name r, oe_provenance r, oe_evidence_ref r,
        oe_model_observation r, oe_workspace_prior_state r, observed_evidence.more r)"])
    (simp add: observed_evidence.equality)

instance observed_acceptance_ext :: (countable) countable
  by (rule countable_classI [of "\<lambda>r. to_nat (oa_satisfied_criteria r, oa_observed_evidence r,
        oa_unresolved_obligation_ids r, observed_acceptance.more r)"])
    (simp add: observed_acceptance.equality)

instance acceptance_verdict :: countable
  by countable_datatype

instance terminal_fact_kind :: countable
  by countable_datatype

instance acceptance_evaluation_ext :: (countable) countable
  by (rule countable_classI [of "\<lambda>r. to_nat (ae_evaluator_revision r, ae_contract_digest r,
        ae_receipt_set_digest r, ae_derived_obligations r, ae_verdict r, acceptance_evaluation.more r)"])
    (simp add: acceptance_evaluation.equality)

instance context_budget_lease_ref_ext :: (countable) countable
  by (rule countable_classI [of "\<lambda>r. to_nat (cl_lease_id r, cl_owner_id r, cl_scope r,
        cl_max_tokens r, cl_consumed_tokens r, cl_revision r, context_budget_lease_ref.more r)"])
    (simp add: context_budget_lease_ref.equality)

instance pipeline_status :: countable
  by countable_datatype

instance delivery_status :: countable
  by countable_datatype

instance delivery_branch_status :: countable
  by countable_datatype

instance delivery_branch_terminal_ext :: (countable) countable
  by (rule countable_classI [of "\<lambda>r. to_nat (db_branch_id r, db_execution_id r, db_status r,
        db_result_ref r, db_failure_ref r, delivery_branch_terminal.more r)"])
    (simp add: delivery_branch_terminal.equality)

instance verified_delivery_reference_ext :: (countable) countable
  by (rule countable_classI [of "\<lambda>r. to_nat (vr_reference_id r, vr_kind r, vr_source_execution_id
        r, verified_delivery_reference.more r)"])
    (simp add: verified_delivery_reference.equality)

instance verified_effect_status :: countable
  by countable_datatype

instance verified_delivery_effect_ext :: (countable) countable
  by (rule countable_classI [of "\<lambda>r. to_nat (ve_effect_id r, ve_kind r, ve_status r,
        ve_receipt_ref r, ve_source_execution_id r, verified_delivery_effect.more r)"])
    (simp add: verified_delivery_effect.equality)

instance workspace_materialization_receipt_ext :: (countable) countable
  by (rule countable_classI [of "\<lambda>r. to_nat (wm_receipt_id r, wm_source_execution_id r,
        wm_source_node_id r, wm_source_result_ref r, wm_target_path r, wm_artifact_kind r,
        wm_before_sha256 r, wm_sha256 r, wm_bytes r, wm_write_effect_id r, wm_reread_verified r,
        wm_materialized_at_ms r, workspace_materialization_receipt.more r)"])
    (simp add: workspace_materialization_receipt.equality)

instance delivery_coverage_ext :: (countable) countable
  by (rule countable_classI [of "\<lambda>r. to_nat (dc_required_obligation_ids r,
        dc_satisfied_obligation_ids r, dc_coverage_basis_points r, delivery_coverage.more r)"])
    (simp add: delivery_coverage.equality)

instance delivery_unresolved_ext :: (countable) countable
  by (rule countable_classI [of "\<lambda>r. to_nat (du_unresolved_id r, du_kind r, du_summary r,
        du_source_execution_id r, du_obligation_id r, delivery_unresolved.more r)"])
    (simp add: delivery_unresolved.equality)

instance delivery_conflict_ext :: (countable) countable
  by (rule countable_classI [of "\<lambda>r. to_nat (dx_conflict_id r, dx_summary r,
        dx_source_execution_ids r, delivery_conflict.more r)"])
    (simp add: delivery_conflict.equality)

instance user_answer_format :: countable
  by countable_datatype

instance user_answer_detail :: countable
  by countable_datatype

instance user_answer_evidence_preference :: countable
  by countable_datatype

instance user_answer_citation_preference :: countable
  by countable_datatype

instance user_answer_contract_ext :: (countable) countable
  by (rule countable_classI [of "\<lambda>r. to_nat (ua_language r, ua_format r, ua_detail r,
        ua_conclusion_only r, ua_evidence_preference r, ua_citation_preference r,
        ua_structural_constraints r, ua_other_format r, user_answer_contract.more r)"])
    (simp add: user_answer_contract.equality)

instance cancellation_cause :: countable
  by countable_datatype

instance cancellation_status :: countable
  by countable_datatype

instance cancellation_receipt_ext :: (countable) countable
  by (rule countable_classI [of "\<lambda>r. to_nat (cr_cancellation_id r, cr_session_id r, cr_turn_id r,
        cr_execution_id r, cr_actor_id r, cr_cause r, cr_reason r, cr_requested_at_ms r,
        cr_effective_at_ms r, cr_status r, cr_journal_sequence r, cr_projection_revision r,
        cancellation_receipt.more r)"])
    (simp add: cancellation_receipt.equality)

instance delivery_envelope_ext :: (countable) countable
  by (rule countable_classI [of "\<lambda>r. to_nat (de_envelope_id r, de_revision r, de_objective_id r,
        de_pipeline_status r, de_delivery_status r, de_branch_terminals r, de_verified_receipts r,
        de_verified_artifacts r, de_verified_effects r, de_workspace_materializations r, de_coverage r,
        de_unresolved r, de_conflicts r, de_cancellation r, de_user_answer_contract r, de_created_at_ms
        r, delivery_envelope.more r)"])
    (simp add: delivery_envelope.equality)

instance answer_origin :: countable
  by countable_datatype

instance answer_validation_status :: countable
  by countable_datatype

instance answer_validation_ext :: (countable) countable
  by (rule countable_classI [of "\<lambda>r. to_nat (av_status r, av_findings r, av_envelope_revision r,
        answer_validation.more r)"])
    (simp add: answer_validation.equality)

instance terminal_presentation_state :: countable
  by countable_datatype

instance presentation_model_attempt_ext :: (countable) countable
  by (rule countable_classI [of "\<lambda>r. to_nat (pa_provider r, pa_model r, pa_failure r,
        presentation_model_attempt.more r)"])
    (simp add: presentation_model_attempt.equality)

instance terminal_presentation_ext :: (countable) countable
  by (rule countable_classI [of "\<lambda>r. to_nat (tp_presentation_id r, tp_attempt_id r,
        tp_envelope_id r, tp_envelope_revision r, tp_state r, tp_answer_origin r, tp_source_execution_id
        r, tp_narrator_model r, tp_narrator_provider r, tp_models_attempted r, tp_validation r,
        tp_fallback_reason r, tp_generated_at_ms r, tp_committed_at_ms r, terminal_presentation.more
        r)"])
    (simp add: terminal_presentation.equality)

instance continuation_authorization :: countable
  by countable_datatype

instance collaboration_continuation_binding_ext :: (countable) countable
  by (rule countable_classI [of "\<lambda>r. to_nat (cb_source_session_id r, cb_source_turn_id r,
        cb_source_root_id r, cb_team_set_ref r, cb_delivery_revision r, cb_result_refs r,
        cb_current_ingress r, cb_candidate_revision r, cb_binding_digest r, cb_authorization r,
        cb_authorization_revision r, cb_handoff_id r, collaboration_continuation_binding.more r)"])
    (simp add: collaboration_continuation_binding.equality)

instance execution_node_kind :: countable
  by countable_datatype

instance execution_work_role :: countable
  by countable_datatype

instance execution_node_status :: countable
  by countable_datatype

instance execution_edge_kind :: countable
  by countable_datatype

instance dependency_predicate :: countable
  by countable_datatype

instance execution_dependency_policy :: countable
  by countable_datatype

instance execution_work_contract_ext :: (countable) countable
  by (rule countable_classI [of "\<lambda>r. to_nat (w_role r, w_required r, w_dependency r,
        w_cancellation_group r, w_required_evidence_refs r, w_input_artifact_refs r,
        w_output_artifact_kinds r, w_context_view_ref r, w_model_profile r, w_reasoning_effort r,
        w_expected_input_tokens r, w_expected_output_tokens r, w_expected_duration_ms r,
        w_scheduling_priority r, execution_work_contract.more r)"])
    (simp add: execution_work_contract.equality)

instance execution_graph_lineage_ext :: (countable) countable
  by (rule countable_classI [of "\<lambda>r. to_nat (l_session_id r, l_turn_id r, l_root_task_id r,
        l_task_id r, l_generation r, execution_graph_lineage.more r)"])
    (simp add: execution_graph_lineage.equality)

instance execution_edge_ext :: (countable) countable
  by (rule countable_classI [of "\<lambda>r. to_nat (e_from r, e_to r, e_kind r, execution_edge.more r)"])
    (simp add: execution_edge.equality)

instance execution_acceptance_ext :: (countable) countable
  by (rule countable_classI [of "\<lambda>r. to_nat (a_required r, a_criteria r, a_required_evidence r,
        a_minimum_score_basis_points r, execution_acceptance.more r)"])
    (simp add: execution_acceptance.equality)

instance execution_retry_policy_ext :: (countable) countable
  by (rule countable_classI [of "\<lambda>r. to_nat (rp_max_attempts r, rp_retryable_failure_kinds r,
        rp_base_backoff_ms r, rp_maximum_backoff_ms r, execution_retry_policy.more r)"])
    (simp add: execution_retry_policy.equality)

instance execution_node_spec_ext :: (countable) countable
  by (rule countable_classI [of "\<lambda>r. to_nat (n_id r, n_kind r, n_payload_ref r, n_executor_kind
        r, n_idempotency_key r, n_lease_ref r, n_acceptance r, n_retry_policy r, n_resource_scopes r,
        n_work r, execution_node_spec.more r)"])
    (simp add: execution_node_spec.equality)

instance execution_failure_ext :: (countable) countable
  by (rule countable_classI [of "\<lambda>r. to_nat (f_kind r, f_message r, f_retryable r,
        f_evidence_refs r, execution_failure.more r)"])
    (simp add: execution_failure.equality)

instance execution_usage_ext :: (countable) countable
  by (rule countable_classI [of "\<lambda>r. to_nat (u_required_acceptance r, u_observed_acceptance r,
        u_acceptance_evaluation r, u_model r, u_input_tokens r, u_output_tokens r,
        u_cache_creation_input_tokens r, u_cache_read_input_tokens r, u_cached_tokens r, u_duration_ms r,
        u_tool_calls r, u_duplicate_tool_calls r, u_max_tool_concurrency_observed r,
        u_parallel_tool_batches r, u_runtime_write_attempt_paths r, u_runtime_observed_resource_scopes r,
        execution_usage.more r)"])
    (simp add: execution_usage.equality)

instance execution_node_result_ext :: (countable) countable
  by (rule countable_classI [of "\<lambda>r. to_nat (r_status r, r_result_ref r, r_summary r,
        r_evidence_refs r, r_failure r, r_usage r, r_finished_at_ms r, execution_node_result.more r)"])
    (simp add: execution_node_result.equality)

instance execution_recovery_cursor_ext :: (countable) countable
  by (rule countable_classI [of "\<lambda>r. to_nat (rc_commit_cursor r, rc_node_attempts r,
        execution_recovery_cursor.more r)"])
    (simp add: execution_recovery_cursor.equality)

instance execution_parent_binding_ext :: (countable) countable
  by (rule countable_classI [of "\<lambda>r. to_nat (pb_execution_id r, pb_node_id r,
        execution_parent_binding.more r)"])
    (simp add: execution_parent_binding.equality)

instance execution_service_class :: countable
  by countable_datatype

instance execution_graph_ext :: (countable) countable
  by (rule countable_classI [of "\<lambda>r. to_nat (g_id r, g_revision r, g_objective r, g_service_class
        r, g_parent_execution r, g_lineage r, g_continuation_binding r, g_nodes r, g_edges r,
        g_node_statuses r, g_node_results r, g_recovery_cursor r, g_delivery_envelope r,
        g_terminal_presentation r, execution_graph.more r)"])
    (simp add: execution_graph.equality)

instance execution_node_binding_ext :: (countable) countable
  by (rule countable_classI [of "\<lambda>r. to_nat (nb_executor_kind r, nb_ticket_idempotency_key r,
        nb_attempt r, nb_resource_lease_refs r, nb_scope_lease_ref r, nb_worktree_lease_ref r,
        execution_node_binding.more r)"])
    (simp add: execution_node_binding.equality)

instance execution_graph_delta_ext :: (countable) countable
  by (rule countable_classI [of "\<lambda>r. to_nat (d_revision r, d_objective r, d_service_class r,
        d_parent_execution r, d_continuation_binding r, d_delivery_envelope r, d_terminal_presentation r,
        d_added_nodes r, d_removed_node_ids r, d_added_edges r, d_removed_edges r, d_node_status_updates
        r, d_removed_node_statuses r, d_node_result_updates r, d_removed_node_results r,
        d_recovery_cursor r, execution_graph_delta.more r)"])
    (simp add: execution_graph_delta.equality)

instance execution_graph_event :: countable
  by countable_datatype


section \<open>A codec\<close>

definition count_codec :: graph_codec where
  "count_codec = \<lparr>
     gc_encode_event = (\<lambda>ev. JObject [(''event'', JString (replicate (to_nat ev) (CHR ''x'')))]),
     gc_decode_event = (\<lambda>j. case json_get j ''event'' of
       Some (JString s) \<Rightarrow> Inr (from_nat (length s)) | _ \<Rightarrow> Inl ''missing field''),
     gc_decode_graph = (\<lambda>_. Inl ''missing field'') \<rparr>"

lemma count_codec_decodes: "journal_decodes count_codec st"
  by (auto simp: journal_decodes_def payload_of_def count_codec_def map_of_json_insert)

section \<open>Recovery is accepted\<close>

lemma collect_ok_accepts:
  assumes "\<forall>x\<in>set xs. \<exists>y. f x = Inr y \<and> P y"
  shows "\<exists>ys. collect_ok f xs = Inr ys \<and> length ys = length xs \<and> (\<forall>y\<in>set ys. P y)"
  using assms by (induction xs) auto

lemma commit_recovery_accepts:
  assumes lin: "validated_graph_lineage g = Inr l" and gid: "\<not> is_blank (g_id g)"
    and env: "object_events env" "small_requests env"
    and rev: "stream_revision (cst_store cst) (g_id g) = g_revision g"
    and m: "g_id m = g_id g" "g_lineage m = g_lineage g" "length (g_node_statuses m) < max_transaction_events"
    and tx: "fresh_transaction (cst_store cst) (g_id g @ '':recovery:'' @ nat_str (sat_add64 (g_revision g) 1))"
  shows "\<exists>cst' rc. commit_recovery env uuids now g m recovered blocked cst = Inr (cst', rc)"
proof -
  let ?n = "m \<lparr> g_revision := sat_add64 (g_revision g) 1 \<rparr>"
  let ?tx = "g_id g @ '':recovery:'' @ nat_str (sat_add64 (g_revision g) 1)"
  have lin': "validated_graph_lineage ?n = Inr l" using lin m by (simp add: validated_graph_lineage_ok)
  let ?P = "\<lambda>e. well_formed_event env (g_id g) e \<and> in_kind (ti_event e) = ''execution_node.transitioned''"
  let ?f = "\<lambda>(i, to). node_transition_event env ?n i
      (case sm_get (g_node_statuses g) i of Some s \<Rightarrow> s | None \<Rightarrow> to) to None"
  let ?xs = "filter (\<lambda>(i, to). sm_get (g_node_statuses g) i \<noteq> Some to) (g_node_statuses ?n)"
  have "\<forall>x\<in>set ?xs. \<exists>e. ?f x = Inr e \<and> ?P e"
    using node_event_accepts [OF lin'] gid m(1) by fastforce
  from collect_ok_accepts [OF this] obtain es where es: "changed_node_events env g ?n = Inr es"
    "length es = length ?xs" "\<forall>e\<in>set es. ?P e"
    by (auto simp: changed_node_events_def)
  have len: "Suc (length es) \<le> max_transaction_events"
    using es(2) m(3) by (simp add: Suc_le_eq) (rule le_less_trans [OF length_filter_le])
  have nb: "\<not> is_blank ?tx" by (rule solid_not_blank [of "CHR '':''"]) (simp_all add: solid_def)
  have "find_terminal env es = None" using es(3) by (intro find_terminal_none) auto
  with append_graph_event_accepts [OF lin' _ env nb tx, of es "g_revision g" uuids now "EvRecovered recovered blocked (between g ?n)"]
  show ?thesis using es gid m(1) rev len by (auto simp: commit_recovery_def Let_def)
qed

lemma recover_accepts:
  assumes inv: "commit_inv env (cst, g)" and lin: "validated_graph_lineage g = Inr l" and gid: "\<not> is_blank (g_id g)"
    and env: "object_events env" "small_requests env"
    and st: "\<forall>n\<in>set (g_nodes g). sm_get (g_node_statuses g) (n_id n) \<noteq> None"
    and ex: "\<forall>n\<in>set (g_nodes g). \<forall>ex. running g n \<and> registry_get reg (n_executor_kind n) = Some ex
      \<longrightarrow> is_ok (ex_recover ex (recovery_ticket g n))"
    and len: "length (g_node_statuses g) < max_transaction_events"
    and tx: "fresh_transaction (cst_store cst) (g_id g @ '':recovery:'' @ nat_str (sat_add64 (g_revision g) 1))"
  shows "\<exists>cst' g'. recover env uuids now reg verify (g_id g) cst = (cst', Inr g')"
proof -
  obtain hot r where l: "load_snapshot (ce_codec env) verify (ce_evict env (cst_hot cst)) (g_id g)
      (cst_store cst) (cst_hot cst) = (hot, r)" by (metis surj_pair)
  have r: "r = Inr g" by (rule load_snapshot_inv(1) [OF inv l])
  obtain m recovered blocked where f: "try_fold (recover_node reg g) (g, [], []) (g_nodes g) = Inr (m, recovered, blocked)"
    using recover_fold_total [OF st ex, of "(g, [], [])"] by auto
  note F = recover_fold_frame [OF f]
  have ok: "graph_ok g" "store_inv (cst_store cst)" and rev: "stream_revision (cst_store cst) (g_id g) = g_revision g"
    using inv durable_revision(2) by (fastforce simp: commit_inv_def)+
  have wf: "sm_wf (g_node_statuses m)" "sm_wf (g_node_statuses g)" "distinct (map n_id (g_nodes g))"
    using F ok(1) by (auto simp: status_frame_def graph_ok_def)
  have "sm_get (g_node_statuses m) k = None \<longleftrightarrow> sm_get (g_node_statuses g) k = None" for k
    using recover_fold(3,4) [OF f wf(3,2), of _] by (cases "k \<in> n_id ` set (g_nodes g)") (auto simp: running_def split: if_splits)
  then have "fst ` set (g_node_statuses m) = fst ` set (g_node_statuses g)" by (simp add: sm_keys_get)
  then have "length (g_node_statuses m) = length (g_node_statuses g)"
    using distinct_card [OF sm_distinct [OF wf(1)]] distinct_card [OF sm_distinct [OF wf(2)]] by simp
  then obtain cst' rc where "commit_recovery env uuids now g m recovered blocked (cst \<lparr> cst_hot := hot \<rparr>) = Inr (cst', rc)"
    using commit_recovery_accepts [OF lin gid env, of "cst \<lparr> cst_hot := hot \<rparr>" m uuids now recovered blocked]
      rev tx len F by (auto simp: status_frame_def)
  then show ?thesis using l r f by (simp add: recover_def)
qed

lemma recover_revision:
  assumes inv: "commit_inv env (cst, g)" and r: "recover env uuids now reg verify (g_id g) cst = (cst', Inr g')"
    and fresh: "sm_get (s_transactions (cst_store cst))
      (g_id g @ '':recovery:'' @ nat_str (sat_add64 (g_revision g) 1)) = None"
  shows "stream_revision (cst_store cst') (g_id g) \<le> Suc (g_revision g)"
proof -
  obtain hot l where l: "load_snapshot (ce_codec env) verify (ce_evict env (cst_hot cst)) (g_id g)
      (cst_store cst) (cst_hot cst) = (hot, l)" by (metis surj_pair)
  note L = load_snapshot_inv [OF inv l]
  let ?cst = "cst \<lparr> cst_hot := hot \<rparr>"
  have rev: "stream_revision (cst_store cst) (g_id g) = g_revision g" and i: "store_inv (cst_store ?cst)"
    using inv durable_revision(2) by (fastforce simp: commit_inv_def)+
  obtain m recovered blocked where f: "try_fold (recover_node reg g) (g, [], []) (g_nodes g) = Inr (m, recovered, blocked)"
    using r l L(1) by (auto simp: recover_def split: sum.splits)
  consider "cst_store cst' = cst_store cst"
    | rc where "commit_recovery env uuids now g m recovered blocked ?cst = Inr (cst', rc)"
    using r l L(1) f by (auto simp: recover_def split: sum.splits if_splits)
  then show ?thesis
  proof cases
    case 2
    obtain n where "commits_delta env ?cst g n cst' rc" "successor g n"
      using commit_recovery_commits [OF 2 recover_fold_frame [OF f]] by blast
    then show ?thesis
      using commits_delta_revision [OF _ _ i commit_recovery_fresh(1) [OF 2]] fresh by (simp add: successor_def)
  qed (simp add: rev)
qed

section \<open>A run with the codec\<close>

definition count_env :: commit_env where
  "count_env = demo_env \<lparr> ce_codec := count_codec \<rparr>"

lemma count_env_laws: "object_events count_env" "small_requests count_env"
  "\<forall>st. journal_decodes (ce_codec count_env) st" "ce_store count_env = sample_env"
  by (simp_all add: count_env_def demo_env_def object_events_def count_codec_def small_requests_def
      sample_env_def max_transaction_bytes_def count_codec_decodes [unfolded count_codec_def])

text \<open>A state of the run: the graph is current, and the given transactions are used up.\<close>
definition count_state ::
  "rstring set \<Rightarrow> execution_node_status \<Rightarrow> nat \<Rightarrow> commit_state \<Rightarrow> execution_graph \<Rightarrow> bool" where
  "count_state used s r cst g \<longleftrightarrow> commit_inv count_env (cst, g) \<and> g_id g = ''g'' \<and> g_lineage g = Some demo_lineage
     \<and> g_nodes g = [sample_node ''a'' AgentTask] \<and> g_edges g = [] \<and> sm_get (g_node_statuses g) = [''a'' \<mapsto> s] \<and> g_revision g = r
     \<and> (\<forall>tx. tx \<notin> used \<longrightarrow> fresh_transaction (cst_store cst) tx)"

lemma demo_lineage_ok: "g_lineage g = Some demo_lineage \<Longrightarrow> validated_graph_lineage g = Inr demo_lineage"
  by (simp add: validated_graph_lineage_ok demo_lineage_valid)

lemma count_registered: "\<exists>cst g. count_state {''g:planned''} Planned 1 cst g"
proof -
  have f: "fresh_transaction empty_store tx" for tx by (simp add: fresh_transaction_def empty_store_def)
  have id: "g_id demo_planned = ''g''" "g_continuation_binding demo_planned = None" "g_parent_execution demo_planned = None"
    by (simp_all add: demo_planned_fields)
  obtain cst rc where a: "append_graph_event count_env (\<lambda>_. ''u'') (\<lambda>_. 0) demo_planned 0 ''g:planned''
      (EvPlanned demo_planned) [] demo_start = Inr (cst, rc)" "\<not> rcp_duplicate (crc_transaction rc)"
    using append_graph_event_accepts [OF demo_lineage_ok [OF demo_planned_fields(2)] _ count_env_laws(1,2) demo_blank(7),
        of demo_start "[]" 0 "\<lambda>_. ''u''" "\<lambda>_. 0" "EvPlanned demo_planned"] f
    by (auto simp: id demo_blank demo_start_def max_transaction_events_def stream_revision_def list_stream_def
        matching_def empty_store_def)
  have r: "register_graph_with_continuation count_env (\<lambda>_. ''u'') (\<lambda>_. 0) (\<lambda>_ st. st) demo_graph None demo_start
      = Inr (cst, rc)"
    using a(1) id
    by (simp add: register_graph_with_continuation_def demo_planned_def [symmetric] continuation_claim_def
        refuse_existing_def continuation_seed_def lineage_event_def fenced_parent_def parent_fence_def Let_def
        append_graph_event_def eval_nat_numeral)
  have o: "other_writers count_env (\<lambda>_ st. st)" by (simp add: other_writers_def)
  note R = register_inv [OF r o demo_facts(2) a(2) demo_facts(3-5) count_env_laws(3) [rule_format]]
  obtain e where e: "crc_graph rc = with_commit_cursor e demo_planned"
    using a(1) by (auto simp: append_graph_event_def append_graph_event_with_expected_domain_revisions_def result_simps Let_def)
  have "fresh_transaction (cst_store cst) tx" if "tx \<noteq> ''g:planned''" for tx
    using append_graph_event_fresh [OF a(1) [unfolded append_graph_event_def] demo_facts(2) a(2) _ that] f
    by (simp add: demo_start_def)
  then have "count_state {''g:planned''} Planned 1 cst (crc_graph rc)"
    using R(1) by (simp add: count_state_def e demo_planned_fields with_commit_cursor_def sm_get_def fun_eq_iff)
  then show ?thesis by blast
qed

lemma count_step:
  assumes s: "count_state used s r cst g" and t: "legal_transition s t" "r < u64_max"
    and new: "''g:a:'' @ nat_str (r + 1) @ '':'' @ nat_str (status_code t) \<notin> used"
    and nc: "t \<noteq> Completed"
  shows "\<exists>cst' g'. count_state (insert (''g:a:'' @ nat_str (r + 1) @ '':'' @ nat_str (status_code t)) used) t (r + 1) cst' g'"
proof -
  note S = s [unfolded count_state_def]
  have tx: "transition_tx g ''a'' t = ''g:a:'' @ nat_str (r + 1) @ '':'' @ nat_str (status_code t)"
    using S t(2) by (simp add: transition_tx_def sat_add64_def)
  have gid: "\<not> is_blank (g_id g)" "\<not> starts_with ''execution-lineage:'' (node_stream_id (g_id g) ''a'')"
    using S by (simp_all add: demo_blank node_stream_id_def starts_with_def)
  have st: "sm_get (g_node_statuses g) ''a'' = Some s" using S by simp
  have inv: "commit_inv count_env (cst, g)" and lin: "g_lineage g = Some demo_lineage" and b: "g_revision g < u64_max"
    using S t(2) by auto
  have fresh: "fresh_transaction (cst_store cst) tx'" if "tx' \<notin> used" for tx' using S that by simp
  have fr: "fresh_transaction (cst_store cst) (transition_tx g ''a'' t)" using fresh [OF new] by (simp only: tx)
  have nc': "no_candidate g ''a'' t" using nc by (simp add: no_candidate_def)
  from current_writer_step [OF inv demo_lineage_ok [OF lin] gid count_env_laws(1,2) nc' count_env_laws(3) st t(1) fr b, of "\<lambda>_. ''u''" "\<lambda>_. 0" None]
  show ?thesis
  proof (elim exE conjE)
    fix cst' rc
    assume c: "commit_inv count_env (cst', crc_graph rc)"
      "sm_get (g_node_statuses (crc_graph rc)) = (sm_get (g_node_statuses g))(''a'' \<mapsto> t)"
      "g_revision (crc_graph rc) = g_revision g + 1" "g_id (crc_graph rc) = g_id g"
      "g_lineage (crc_graph rc) = g_lineage g" "g_nodes (crc_graph rc) = g_nodes g"
      "g_edges (crc_graph rc) = g_edges g"
      "\<forall>tx'. tx' \<noteq> transition_tx g ''a'' t \<longrightarrow> fresh_transaction (cst_store cst) tx'
        \<longrightarrow> fresh_transaction (cst_store cst') tx'"
    show ?thesis
      by (rule exI [of _ cst'], rule exI [of _ "crc_graph rc"]) (use S c fresh in \<open>simp add: count_state_def tx\<close>)
  qed
qed

lemma count_running: "\<exists>cst g. count_state {''g:a:3:2'', ''g:a:2:1'', ''g:planned''} Running 3 cst g"
proof -
  have n: "nat_str 2 = ''2''" "nat_str 3 = ''3''" "nat_str (status_code Ready) = ''1''"
    "nat_str (status_code Running) = ''2''" "1 + 1 = (2 :: nat)" "2 + 1 = (3 :: nat)"
    by (simp_all add: demo_nat_str)
  obtain cst1 g1 where 1: "count_state {''g:planned''} Planned 1 cst1 g1" using count_registered by blast
  have "legal_transition Planned Ready" "legal_transition Ready Running" "1 < u64_max" "2 < u64_max"
    by (simp_all add: legal_transition_def u64_max_def)
  note L = this
  obtain cst2 g2 where 2: "count_state {''g:a:2:1'', ''g:planned''} Ready 2 cst2 g2"
    using count_step [OF 1 L(1,3)] unfolding n by auto
  show ?thesis using count_step [OF 2 L(2,4)] unfolding n by auto
qed

section \<open>Witnesses\<close>


definition demo_registry :: executor_registry where
  "demo_registry = [(''runtime'', \<lparr> ex_kind = ''runtime'', ex_validate = (\<lambda>_. Inr ()), ex_recover = Inr \<rparr>)]"

text \<open>The running node of the demonstration run is ready again after a restart.\<close>
theorem recover_correct_witness:
  "\<exists>cst (g :: execution_graph) cst' g'. sm_get (g_node_statuses g) ''a'' = Some Running
    \<and> recover count_env (\<lambda>_. ''u'') (\<lambda>_. 0) demo_registry True ''g'' cst = (cst', Inr g')
    \<and> sm_get (g_node_statuses g') ''a'' = Some Ready \<and> durable_graph count_env (cst_store cst') ''g'' = Inr g'"
proof -
  obtain cst g where "count_state {''g:a:3:2'', ''g:a:2:1'', ''g:planned''} Running 3 cst g" using count_running by blast
  note S = this [unfolded count_state_def]
  have st: "sm_get (g_node_statuses g) ''a'' = Some Running" and inv: "commit_inv count_env (cst, g)"
    and lin: "g_lineage g = Some demo_lineage" and gid: "g_id g = ''g''" and rev: "g_revision g = 3"
    and nodes: "g_nodes g = [sample_node ''a'' AgentTask]" using S by simp_all
  let ?tx = "g_id g @ '':recovery:'' @ nat_str (sat_add64 (g_revision g) 1)"
  have "?tx \<notin> {''g:a:3:2'', ''g:a:2:1'', ''g:planned''}" by (simp add: gid)
  then have fr: "fresh_transaction (cst_store cst) ?tx" using S by blast
  have keys: "fst ` set (g_node_statuses g) = {''a''}" using S by (simp add: sm_keys_get)
  have wf: "sm_wf (g_node_statuses g)" using inv by (auto simp: commit_inv_def graph_ok_def)
  have len: "length (g_node_statuses g) < max_transaction_events"
    using distinct_card [OF sm_distinct [OF wf]] keys by (simp add: max_transaction_events_def)
  have ex: "registry_get demo_registry ''runtime'' = Some \<lparr> ex_kind = ''runtime'', ex_validate = (\<lambda>_. Inr ()), ex_recover = Inr \<rparr>"
    by (simp add: demo_registry_def registry_get_def sm_get_def)
  have kind: "n_executor_kind (sample_node ''a'' AgentTask) = ''runtime''" "n_id (sample_node ''a'' AgentTask) = ''a''"
    by (simp_all add: sample_node_def)
  have blank: "\<not> is_blank (g_id g)" by (simp add: gid demo_blank)
  obtain cst' g' where r: "recover count_env (\<lambda>_. ''u'') (\<lambda>_. 0) demo_registry True (g_id g) cst = (cst', Inr g')"
    using recover_accepts [OF inv demo_lineage_ok [OF lin] blank count_env_laws(1,2) _ _ len fr,
        of demo_registry "\<lambda>_. ''u''" "\<lambda>_. 0" True] st ex
    by (auto simp: nodes kind)
  have fr0: "sm_get (s_transactions (cst_store cst)) ?tx = None" using fr by (simp add: fresh_transaction_def)
  have b: "stream_revision (cst_store cst') (g_id g) \<le> u64_max"
    using recover_revision [OF inv r fr0] by (simp add: rev u64_max_def)
  have "running g (sample_node ''a'' AgentTask)" "recovered_status demo_registry (sample_node ''a'' AgentTask) = Ready"
    using st ex by (simp_all add: running_def recovered_status_def kind)
  then have "sm_get (g_node_statuses g') ''a'' = Some Ready" "durable_graph count_env (cst_store cst') (g_id g) = Inr g'"
    using recover_correct [OF inv r fr0 count_env_laws(3) [rule_format] b] by (auto simp: nodes kind)
  with st r have "sm_get (g_node_statuses g) ''a'' = Some Running
    \<and> recover count_env (\<lambda>_. ''u'') (\<lambda>_. 0) demo_registry True ''g'' cst = (cst', Inr g')
    \<and> sm_get (g_node_statuses g') ''a'' = Some Ready \<and> durable_graph count_env (cst_store cst') ''g'' = Inr g'"
    by (simp add: gid)
  then show ?thesis by (intro exI) assumption
qed

end
