(* ===== verification/Dependencies.thy ===== *)
theory Dependencies
  imports Graph_Codec
begin

text \<open>
  When a planned node may start: the dependency policies of the graph runner,
  runtime/src/execution_core/graph/runner.rs (\<open>dependency_target\<close>, \<open>evidence_ready_target\<close> and what
  they read), the cancellation of optional work after a quorum, the deadline of a node and the run
  report.  A status that the code reads by indexing and that is not there is a panic, \<open>None\<close>.
\<close>

section \<open>Verdicts and facts of a result\<close>

definition evaluator_revision :: nat where
  "evaluator_revision = 2"

definition derived_acceptance_verdict :: "execution_node_result \<Rightarrow> acceptance_verdict" where
  "derived_acceptance_verdict r =
    (if (case r_failure r of
           Some f \<Rightarrow> f_kind f = ''agent_backend''
             \<and> str_contains ''Runtime rejected Agent terminal result'' (f_message f)
         | None \<Rightarrow> False)
     then FrameworkInvalid
     else (case u_acceptance_evaluation (r_usage r) of
         Some e \<Rightarrow> if ae_evaluator_revision e = evaluator_revision then ae_verdict e else Unresolved
       | None \<Rightarrow> Unresolved))"

fun has_terminal_fact_kind :: "execution_node_result \<Rightarrow> terminal_fact_kind \<Rightarrow> bool" where
  "has_terminal_fact_kind r CommittedEffect =
    (list_ex (\<lambda>e. oe_workspace_prior_state e \<noteq> None) (oa_observed_evidence (u_observed_acceptance (r_usage r)))
     \<or> list_ex (\<lambda>a. er_ref_type (ea_evidence_ref a) = ''runtime_change'') (r_evidence_refs r))"
| "has_terminal_fact_kind r ObservedEvidence =
    (oa_observed_evidence (u_observed_acceptance (r_usage r)) \<noteq> []
     \<or> list_ex ea_is_durable (r_evidence_refs r))"
| "has_terminal_fact_kind r Artifact =
    list_ex (\<lambda>a. er_ref_type (ea_evidence_ref a) = ''artifact'' \<or> ea_is_durable a) (r_evidence_refs r)"
| "has_terminal_fact_kind r AcceptanceVerdict = (derived_acceptance_verdict r \<noteq> Unresolved)"

section \<open>Predecessors\<close>

record dependency_predecessor =
  dp_status :: execution_node_status
  dp_result :: "execution_node_result option"

definition verified_predecessor_status ::
  "execution_graph \<Rightarrow> rstring \<Rightarrow> rstring list \<Rightarrow> execution_node_status option" where
  "verified_predecessor_status g predecessor_id required =
    (case sm_get (g_node_statuses g) predecessor_id of
       None \<Rightarrow> None
     | Some status \<Rightarrow>
         if status \<noteq> Completed \<or> required = [] then Some status
         else if (case sm_get (g_node_results g) predecessor_id of
             Some r \<Rightarrow> list_all (\<lambda>req. list_ex (\<lambda>a. er_id (ea_evidence_ref a) = req
                 \<or> ea_retrieval_selector a = req
                 \<or> er_ref_type (ea_evidence_ref a) @ '':'' @ er_id (ea_evidence_ref a) = req)
               (r_evidence_refs r)) required
           | None \<Rightarrow> False)
         then Some status else Some Failed)"

fun collect_some :: "('a \<Rightarrow> 'b option) \<Rightarrow> 'a list \<Rightarrow> 'b list option" where
  "collect_some f [] = Some []"
| "collect_some f (x # xs) = (case f x of None \<Rightarrow> None | Some y \<Rightarrow> map_option (\<lambda>ys. y # ys) (collect_some f xs))"

definition dependency_predecessors ::
  "execution_graph \<Rightarrow> execution_node_spec \<Rightarrow> dependency_predecessor list option" where
  "dependency_predecessors g n =
    (let required = (case n_work n of Some w \<Rightarrow> w_required_evidence_refs w | None \<Rightarrow> []) in
     collect_some (\<lambda>e. map_option (\<lambda>s. \<lparr> dp_status = s, dp_result = sm_get (g_node_results g) (e_from e) \<rparr>)
         (verified_predecessor_status g (e_from e) required))
       (filter (\<lambda>e. is_dependency (e_kind e) \<and> e_to e = n_id n) (g_edges g)))"

section \<open>Policies\<close>

datatype evidence_ready_outcome = ErSatisfied | ErWaiting | ErBlocked

definition evidence_ready_satisfaction ::
  "dependency_predicate \<Rightarrow> dependency_predecessor \<Rightarrow> evidence_ready_outcome" where
  "evidence_ready_satisfaction p d =
    (if \<not> is_terminal (dp_status d) then ErWaiting
     else (case dp_result d of
         None \<Rightarrow> ErBlocked
       | Some r \<Rightarrow>
           if dp_status d \<notin> set (pred_accepted_execution_statuses p) then ErBlocked
           else if derived_acceptance_verdict r \<notin> set (pred_accepted_acceptance_verdicts p) then ErBlocked
           else if pred_require_committed_effect p \<and> \<not> has_terminal_fact_kind r CommittedEffect then ErBlocked
           else if \<not> list_all (has_terminal_fact_kind r) (pred_required_fact_kinds p) then ErBlocked
           else ErSatisfied))"

definition evidence_ready_target ::
  "dependency_predicate \<Rightarrow> dependency_predecessor list \<Rightarrow> execution_node_status option" where
  "evidence_ready_target p ds =
    (let required = pred_minimum p;
         satisfied = length (filter (\<lambda>d. evidence_ready_satisfaction p d = ErSatisfied) ds);
         waiting = length (filter (\<lambda>d. evidence_ready_satisfaction p d = ErWaiting) ds)
     in if required = 0 then Some Ready
        else if satisfied \<ge> required then Some Ready
        else if satisfied + waiting \<ge> required then None
        else Some Blocked)"

definition counted_target :: "nat \<Rightarrow> dependency_predecessor list \<Rightarrow> execution_node_status option" where
  "counted_target required ds =
    (let completed = length (filter (\<lambda>d. dp_status d = Completed) ds);
         possible = completed + length (filter (\<lambda>d. \<not> is_terminal (dp_status d)) ds)
     in if completed \<ge> required then Some Ready
        else if possible < required then Some Blocked else None)"

fun dependency_target ::
  "execution_dependency_policy \<Rightarrow> dependency_predecessor list \<Rightarrow> execution_node_status option" where
  "dependency_target Finally ds = (if list_all (\<lambda>d. is_terminal (dp_status d)) ds then Some Ready else None)"
| "dependency_target (EvidenceReady p _) ds = evidence_ready_target p ds"
| "dependency_target All ds = counted_target (length ds) ds"
| "dependency_target (Any _) ds = counted_target 1 ds"
| "dependency_target (Quorum minimum _) ds = counted_target minimum ds"

definition node_dependency :: "execution_node_spec \<Rightarrow> execution_dependency_policy" where
  "node_dependency n = (case n_work n of Some w \<Rightarrow> w_dependency w | None \<Rightarrow> All)"

text \<open>What the runner decides for a planned node of a graph\<close>
definition node_target :: "execution_graph \<Rightarrow> execution_node_spec \<Rightarrow> execution_node_status option option" where
  "node_target g n = map_option (dependency_target (node_dependency n)) (dependency_predecessors g n)"

section \<open>Tail cancellation, deadlines, reports\<close>

definition tail_cancellations_of :: "execution_graph \<Rightarrow> execution_node_spec \<Rightarrow> rstring list" where
  "tail_cancellations_of g consumer =
    (if sm_get (g_node_statuses g) (n_id consumer) \<noteq> Some Ready then []
     else case n_work consumer of None \<Rightarrow> []
     | Some w \<Rightarrow>
         if \<not> cancel_remaining (w_dependency w) then []
         else case w_cancellation_group w of None \<Rightarrow> []
         | Some grp \<Rightarrow>
             filter (\<lambda>i. (case find (\<lambda>n. n_id n = i) (g_nodes g) of
                   None \<Rightarrow> False
                 | Some p \<Rightarrow> (case n_work p of None \<Rightarrow> False
                     | Some pw \<Rightarrow> \<not> w_required pw \<and> w_cancellation_group pw = Some grp))
                 \<and> (case sm_get (g_node_statuses g) i of Some s \<Rightarrow> \<not> is_terminal s | None \<Rightarrow> False))
               (map e_from (filter (\<lambda>e. is_dependency (e_kind e) \<and> e_to e = n_id consumer) (g_edges g))))"

definition quorum_tail_cancellations :: "execution_graph \<Rightarrow> rstring sset" where
  "quorum_tail_cancellations g = ss_of_list (concat (map (tail_cancellations_of g) (g_nodes g)))"

record execution_run_report =
  rr_graph_id :: rstring
  rr_revision :: nat
  rr_completed :: nat
  rr_failed :: nat
  rr_blocked :: nat
  rr_cancelled :: nat
  rr_waiting :: nat

definition count_status :: "execution_graph \<Rightarrow> execution_node_status \<Rightarrow> nat" where
  "count_status g s = length (filter (\<lambda>t. t = s) (sm_values (g_node_statuses g)))"

definition report :: "execution_graph \<Rightarrow> execution_run_report" where
  "report g = \<lparr> rr_graph_id = g_id g, rr_revision = g_revision g, rr_completed = count_status g Completed,
     rr_failed = count_status g Failed, rr_blocked = count_status g Blocked, rr_cancelled = count_status g Cancelled,
     rr_waiting = count_status g WaitingInput + count_status g WaitingApproval + count_status g WaitingExternal
       + count_status g Paused \<rparr>"

text \<open>\<open>current_report\<close>: the report and whether the graph is quiescent, on the graph that was loaded\<close>
definition actionable :: "execution_graph \<Rightarrow> execution_node_spec \<Rightarrow> bool option" where
  "actionable g n = (case sm_get (g_node_statuses g) (n_id n) of
     None \<Rightarrow> None
   | Some s \<Rightarrow> if s = Ready \<or> s = Running then Some True
       else if s \<noteq> Planned then Some False
       else map_option (\<lambda>t. t \<noteq> None) (node_target g n))"

fun any_some :: "('a \<Rightarrow> bool option) \<Rightarrow> 'a list \<Rightarrow> bool option" where
  "any_some f [] = Some False"
| "any_some f (x # xs) = (case f x of None \<Rightarrow> None | Some True \<Rightarrow> Some True | Some False \<Rightarrow> any_some f xs)"

definition current_report :: "execution_graph \<Rightarrow> (execution_run_report \<times> bool) option" where
  "current_report g = map_option (\<lambda>has_actionable. (report g, \<not> has_actionable)) (any_some (actionable g) (g_nodes g))"

definition terminal_report :: "execution_graph \<Rightarrow> execution_run_report option" where
  "terminal_report g = (if list_all is_terminal (sm_values (g_node_statuses g)) then Some (report g) else None)"

section \<open>Decisions under evolution\<close>

text \<open>
  How the predecessors of a waiting node may change: a terminal one keeps its status and its result,
  any other one may become anything.
\<close>
definition evolves :: "dependency_predecessor list \<Rightarrow> dependency_predecessor list \<Rightarrow> bool" where
  "evolves ds ds' \<longleftrightarrow> list_all2 (\<lambda>d d'. is_terminal (dp_status d) \<longrightarrow> d' = d) ds ds'"

text \<open>A predicate that some predecessor can satisfy, and the policies that can come true\<close>
definition achievable :: "execution_dependency_policy \<Rightarrow> dependency_predecessor \<Rightarrow> bool" where
  "achievable p d \<longleftrightarrow> (case p of EvidenceReady q _ \<Rightarrow> evidence_ready_satisfaction q d = ErSatisfied
     | _ \<Rightarrow> dp_status d = Completed)"

lemma terminal_Completed [simp]: "is_terminal Completed" "is_terminal Failed" "is_terminal Blocked" "is_terminal Cancelled"
  "\<not> is_terminal Planned" "\<not> is_terminal Ready" "\<not> is_terminal Running"
  by (simp_all add: is_terminal_def)

lemma evidence_waiting_iff: "evidence_ready_satisfaction p d = ErWaiting \<longleftrightarrow> \<not> is_terminal (dp_status d)"
  by (auto simp: evidence_ready_satisfaction_def split: option.splits)

lemma filter_length_le2:
  assumes "list_all2 (\<lambda>x y. P x \<longrightarrow> Q y) xs ys"
  shows "length (filter P xs) \<le> length (filter Q ys)"
  using assms by (induction) (auto simp: le_SucI)

lemma count_disj:
  "\<forall>x\<in>set xs. \<not> (P x \<and> Q x) \<Longrightarrow> length (filter P xs) + length (filter Q xs) = length (filter (\<lambda>x. P x \<or> Q x) xs)"
  by (induction xs) auto

text \<open>Both kinds of counting decide by how many predecessors count and how many still may.\<close>
definition threshold :: "nat \<Rightarrow> (dependency_predecessor \<Rightarrow> bool) \<Rightarrow> dependency_predecessor list \<Rightarrow> execution_node_status option" where
  "threshold k P ds =
    (if k \<le> length (filter P ds) then Some Ready
     else if length (filter (\<lambda>d. P d \<or> \<not> is_terminal (dp_status d)) ds) < k then Some Blocked else None)"

lemma counted_threshold: "counted_target k ds = threshold k (\<lambda>d. dp_status d = Completed) ds"
  using count_disj [of ds "\<lambda>d. dp_status d = Completed" "\<lambda>d. \<not> is_terminal (dp_status d)"]
  by (auto simp: counted_target_def threshold_def Let_def)

lemma evidence_threshold:
  "evidence_ready_target p ds = threshold (pred_minimum p) (\<lambda>d. evidence_ready_satisfaction p d = ErSatisfied) ds"
proof -
  have "length (filter (\<lambda>d. evidence_ready_satisfaction p d = ErSatisfied) ds)
      + length (filter (\<lambda>d. evidence_ready_satisfaction p d = ErWaiting) ds)
    = length (filter (\<lambda>d. evidence_ready_satisfaction p d = ErSatisfied \<or> \<not> is_terminal (dp_status d)) ds)"
    unfolding evidence_waiting_iff [of p, symmetric] by (rule count_disj) simp
  then show ?thesis by (auto simp: evidence_ready_target_def threshold_def Let_def)
qed

text \<open>The number of predecessors a policy needs, and what counts\<close>
fun policy_needs :: "execution_dependency_policy \<Rightarrow> nat \<Rightarrow> nat" where
  "policy_needs All n = n"
| "policy_needs (Any _) n = 1"
| "policy_needs (Quorum minimum _) n = minimum"
| "policy_needs (EvidenceReady p _) n = pred_minimum p"
| "policy_needs Finally n = n"

lemma dependency_threshold:
  "p \<noteq> Finally \<Longrightarrow> dependency_target p ds = threshold (policy_needs p (length ds)) (achievable p) ds"
  by (cases p) (simp_all add: counted_threshold evidence_threshold achievable_def [abs_def])

lemma achievable_terminal: "achievable p d \<Longrightarrow> is_terminal (dp_status d)"
  by (auto simp: achievable_def evidence_ready_satisfaction_def split: execution_dependency_policy.splits if_splits)

lemma threshold_evolves:
  assumes "evolves ds ds'" "threshold k (achievable p) ds = Some t"
  shows "threshold k (achievable p) ds' = Some t"
proof -
  have up: "length (filter (achievable p) ds) \<le> length (filter (achievable p) ds')"
    by (rule filter_length_le2) (use assms(1) achievable_terminal in \<open>fastforce simp: evolves_def elim!: list_all2_mono\<close>)
  have "list_all2 (\<lambda>y x. achievable p y \<or> \<not> is_terminal (dp_status y) \<longrightarrow> achievable p x \<or> \<not> is_terminal (dp_status x)) ds' ds"
    unfolding list_all2_conv_all_nth using assms(1) by (auto simp: evolves_def list_all2_conv_all_nth)
  note down = filter_length_le2 [OF this]
  have le: "length (filter (achievable p) ds') \<le> length (filter (\<lambda>d. achievable p d \<or> \<not> is_terminal (dp_status d)) ds')"
    by (induction ds') auto
  show ?thesis using assms(2) up down le by (auto simp: threshold_def split: if_splits)
qed

lemma dependency_target_evolves:
  assumes "evolves ds ds'" "dependency_target p ds = Some t"
  shows "dependency_target p ds' = Some t"
proof (cases "p = Finally")
  case True
  have "list_all (\<lambda>d. is_terminal (dp_status d)) ds \<Longrightarrow> ds' = ds"
    using assms(1) by (auto simp: evolves_def list_all2_conv_all_nth list_all_length intro: nth_equalityI)
  then show ?thesis using assms(2) True by (auto split: if_splits)
next
  case False
  have "length ds' = length ds" using assms(1) by (simp add: evolves_def list_all2_conv_all_nth)
  then show ?thesis using threshold_evolves [OF assms(1)] assms(2) by (simp add: dependency_threshold [OF False])
qed

text \<open>The best that can happen: every open predecessor comes to count.\<close>
definition best_case :: "dependency_predecessor \<Rightarrow> dependency_predecessor list \<Rightarrow> dependency_predecessor list" where
  "best_case d ds = map (\<lambda>e. if is_terminal (dp_status e) then e else d) ds"

lemma best_case_evolves: "evolves ds (best_case d ds)"
  by (simp add: evolves_def best_case_def list_all2_conv_all_nth)

lemma best_case_count:
  "achievable p d \<Longrightarrow> length (filter (achievable p) (best_case d ds))
    = length (filter (\<lambda>e. achievable p e \<or> \<not> is_terminal (dp_status e)) ds)"
  by (induction ds) (auto simp: best_case_def dest: achievable_terminal)

lemma dependency_best_case:
  assumes "dependency_target p ds \<noteq> Some Blocked" "achievable p d"
  shows "dependency_target p (best_case d ds) = Some Ready"
proof (cases "p = Finally")
  case True
  then show ?thesis using achievable_terminal [OF assms(2)] by (auto simp: best_case_def list_all_iff)
next
  case False
  have l: "length (best_case d ds) = length ds" by (simp add: best_case_def)
  have "length (filter (achievable p) ds) \<le> length (filter (\<lambda>e. achievable p e \<or> \<not> is_terminal (dp_status e)) ds)"
    by (induction ds) auto
  then show ?thesis using assms(1)
    unfolding dependency_threshold [OF False] threshold_def best_case_count [OF assms(2)] l
    by (auto split: if_splits)
qed

lemma dependency_decided:
  assumes "\<forall>d\<in>set ds. is_terminal (dp_status d)"
  shows "dependency_target p ds \<noteq> None"
proof (cases "p = Finally")
  case True
  then show ?thesis using assms by (simp add: list_all_iff)
next
  case False
  have "filter (\<lambda>d. achievable p d \<or> \<not> is_terminal (dp_status d)) ds = filter (achievable p) ds"
    using assms by (auto intro: filter_cong)
  then show ?thesis by (simp add: dependency_threshold [OF False] threshold_def)
qed

lemma dependency_target_range: "dependency_target p ds = Some t \<Longrightarrow> t = Ready \<or> t = Blocked"
  by (cases "p = Finally") (auto simp: dependency_threshold threshold_def split: if_splits)

section \<open>A settled graph\<close>

text \<open>No planned node can be decided: where the dependency loop of the runner stops.\<close>
definition settled :: "execution_graph \<Rightarrow> bool" where
  "settled g \<longleftrightarrow> list_all (\<lambda>n. sm_get (g_node_statuses g) (n_id n) = Some Planned \<longrightarrow> node_target g n = Some None) (g_nodes g)"

text \<open>Every node has a status.\<close>
definition statuses_total :: "execution_graph \<Rightarrow> bool" where
  "statuses_total g \<longleftrightarrow> list_all (\<lambda>n. sm_get (g_node_statuses g) (n_id n) \<noteq> None) (g_nodes g)"

lemma collect_some_total:
  "\<forall>x\<in>set xs. f x \<noteq> None \<Longrightarrow> collect_some f xs = Some (map (\<lambda>x. the (f x)) xs)"
  by (induction xs) auto

lemma verified_status_total:
  "sm_get (g_node_statuses g) i = Some s \<Longrightarrow> \<exists>t. verified_predecessor_status g i req = Some t \<and> (is_terminal t \<longleftrightarrow> is_terminal s)"
  by (auto simp: verified_predecessor_status_def split: option.splits)

lemma dependency_predecessors_terminal:
  assumes "\<forall>(u, v)\<in>set (dep_pairs g). v = n_id n \<longrightarrow> (\<exists>s. sm_get (g_node_statuses g) u = Some s \<and> is_terminal s)"
  shows "\<exists>ds. dependency_predecessors g n = Some ds \<and> (\<forall>d\<in>set ds. is_terminal (dp_status d))"
proof -
  have st: "\<exists>s. sm_get (g_node_statuses g) (e_from e) = Some s \<and> is_terminal s"
    if "e \<in> set (filter (\<lambda>e. is_dependency (e_kind e) \<and> e_to e = n_id n) (g_edges g))" for e
    using assms that by (force simp: dep_pairs_def dependency_edges_def)
  have v: "\<exists>t. verified_predecessor_status g (e_from e) req = Some t \<and> is_terminal t"
    if e: "e \<in> set (filter (\<lambda>e. is_dependency (e_kind e) \<and> e_to e = n_id n) (g_edges g))" for e req
    using st [OF e] verified_status_total by blast
  let ?es = "filter (\<lambda>e. is_dependency (e_kind e) \<and> e_to e = n_id n) (g_edges g)"
  let ?req = "case n_work n of Some w \<Rightarrow> w_required_evidence_refs w | None \<Rightarrow> []"
  let ?f = "\<lambda>e. map_option (\<lambda>s. \<lparr> dp_status = s, dp_result = sm_get (g_node_results g) (e_from e) \<rparr>)
    (verified_predecessor_status g (e_from e) ?req)"
  have f: "\<exists>d. ?f e = Some d \<and> is_terminal (dp_status d)" if "e \<in> set ?es" for e
    using v [OF that, of ?req] by auto
  then have "collect_some ?f ?es = Some (map (\<lambda>e. the (?f e)) ?es)" by (intro collect_some_total) blast
  moreover have "is_terminal (dp_status (the (?f e)))" if "e \<in> set ?es" for e
    using f [OF that] by (metis (lifting) option.sel)
  then have "\<forall>d\<in>set (map (\<lambda>e. the (?f e)) ?es). is_terminal (dp_status d)" by simp
  ultimately show ?thesis unfolding dependency_predecessors_def Let_def by blast
qed

lemma settled_not_stuck:
  assumes acy: "acyclic (set (dep_pairs g))" and ids: "\<forall>(u, v)\<in>set (dep_pairs g). u \<in> node_ids g"
    and total: "statuses_total g" and st: "settled g"
    and quiet: "\<forall>n\<in>set (g_nodes g). \<forall>s. sm_get (g_node_statuses g) (n_id n) = Some s \<longrightarrow> is_terminal s \<or> s = Planned"
  shows "\<forall>n\<in>set (g_nodes g). \<exists>s. sm_get (g_node_statuses g) (n_id n) = Some s \<and> is_terminal s"
proof (rule ccontr)
  assume "\<not> ?thesis"
  then have ne: "\<exists>i. i \<in> {n_id n |n. n \<in> set (g_nodes g) \<and> sm_get (g_node_statuses g) (n_id n) = Some Planned}"
    using total quiet by (force simp: statuses_total_def list_all_iff)
  have "wf (set (dep_pairs g))" by (rule finite_acyclic_wf [OF _ acy]) simp
  then obtain v where v: "v \<in> {n_id n |n. n \<in> set (g_nodes g) \<and> sm_get (g_node_statuses g) (n_id n) = Some Planned}"
    and least: "\<And>u. (u, v) \<in> set (dep_pairs g)
      \<Longrightarrow> u \<notin> {n_id n |n. n \<in> set (g_nodes g) \<and> sm_get (g_node_statuses g) (n_id n) = Some Planned}"
    using ne by (meson wf_eq_minimal)
  obtain n where n: "n \<in> set (g_nodes g)" "v = n_id n" "sm_get (g_node_statuses g) (n_id n) = Some Planned" using v by blast
  have "\<exists>s. sm_get (g_node_statuses g) u = Some s \<and> is_terminal s" if e: "(u, v) \<in> set (dep_pairs g)" for u
  proof -
    obtain m where m: "m \<in> set (g_nodes g)" "u = n_id m" using ids e by (fastforce simp: node_ids_def)
    obtain s where "sm_get (g_node_statuses g) u = Some s" using total m by (fastforce simp: statuses_total_def list_all_iff)
    then show ?thesis using quiet m least [OF e] by auto
  qed
  then obtain ds where ds: "dependency_predecessors g n = Some ds" "\<forall>d\<in>set ds. is_terminal (dp_status d)"
    using dependency_predecessors_terminal [of g n] n(2) by blast
  have "dependency_target (node_dependency n) ds = None"
    using st n ds(1) by (auto simp: settled_def list_all_iff node_target_def)
  then show False using dependency_decided [OF ds(2)] by simp
qed

section \<open>Properties\<close>

text \<open>
  C8: the dependency decision is exact.  A planned node becomes blocked exactly when no evolution
  of its predecessors could still make it ready; once it is ready it stays ready whatever its other
  predecessors do; and when all predecessors are terminal a decision is always taken.
\<close>
theorem dependency_decision_exact:
  assumes "achievable p d"
  shows "(dependency_target p ds = Some Blocked \<longleftrightarrow> (\<forall>ds'. evolves ds ds' \<longrightarrow> dependency_target p ds' \<noteq> Some Ready))
    \<and> (dependency_target p ds = Some Ready \<longrightarrow> (\<forall>ds'. evolves ds ds' \<longrightarrow> dependency_target p ds' = Some Ready))
    \<and> ((\<forall>d\<in>set ds. is_terminal (dp_status d)) \<longrightarrow> dependency_target p ds \<noteq> None)"
proof (intro conjI iffI impI allI)
  fix ds'
  assume "dependency_target p ds = Some Blocked" "evolves ds ds'"
  then show "dependency_target p ds' \<noteq> Some Ready" using dependency_target_evolves by fastforce
next
  assume "\<forall>ds'. evolves ds ds' \<longrightarrow> dependency_target p ds' \<noteq> Some Ready"
  then show "dependency_target p ds = Some Blocked"
    using dependency_best_case [OF _ assms] best_case_evolves by blast
next
  fix ds'
  assume "dependency_target p ds = Some Ready" "evolves ds ds'"
  then show "dependency_target p ds' = Some Ready" by (rule dependency_target_evolves [rotated])
next
  assume "\<forall>d\<in>set ds. is_terminal (dp_status d)"
  then show "dependency_target p ds \<noteq> None" by (rule dependency_decided)
qed

section \<open>Witnesses\<close>

definition sample_lane :: "execution_node_status \<Rightarrow> dependency_predecessor" where
  "sample_lane s = \<lparr> dp_status = s, dp_result = None \<rparr>"

theorem dependency_decision_exact_witness:
  "dependency_target (Quorum 2 True) [sample_lane Completed, sample_lane Failed, sample_lane Running] = None
   \<and> dependency_target (Quorum 2 True) [sample_lane Completed, sample_lane Completed, sample_lane Failed] = Some Ready"
proof -
  let ?before = "[sample_lane Completed, sample_lane Completed, sample_lane Running]"
  have "achievable (Quorum 2 True) (sample_lane Completed)" by (simp add: achievable_def sample_lane_def)
  note D = dependency_decision_exact [OF this, of ?before]
  have "dependency_target (Quorum 2 True) ?before = Some Ready" by (simp add: counted_target_def sample_lane_def)
  moreover have "evolves ?before [sample_lane Completed, sample_lane Completed, sample_lane Failed]"
    by (simp add: evolves_def sample_lane_def is_terminal_def)
  ultimately have "dependency_target (Quorum 2 True) [sample_lane Completed, sample_lane Completed, sample_lane Failed]
      = Some Ready" using D by blast
  then show ?thesis by (simp add: counted_target_def sample_lane_def)
qed

end
