(* ===== verification/Acceptance.thy ===== *)
theory Acceptance
  imports Dependencies
begin

text \<open>
  The acceptance verdict: runtime/src/context/acceptance_evaluator.rs and the matching of observed
  evidence with obligations in runtime/src/context/path_identity.rs (from
  \<open>require_provider_model_observation\<close> to \<open>observed_scope_satisfies\<close>).  The resolver that turns paths of
  a workspace into identities reads the file system and is not modelled; obligations and evidence are
  given.  The digests of JSON texts are the parameter \<open>acceptance_digests\<close>.
\<close>

section \<open>Matching evidence with obligations\<close>

definition path_contains :: "rstring \<Rightarrow> rstring \<Rightarrow> bool" where
  "path_contains parent child = (parent = ''.'' \<or> parent = child
     \<or> (case strip_prefix parent child of Some rest \<Rightarrow> starts_with ''/'' rest | None \<Rightarrow> False))"

definition observation_requirement_satisfied :: "evidence_obligation \<Rightarrow> observed_evidence \<Rightarrow> bool" where
  "observation_requirement_satisfied required observed =
    (eo_observation_requirement required \<noteq> ProviderModel \<or>
     (case oe_model_observation observed of
        None \<Rightarrow> False
      | Some a \<Rightarrow>
          let digest = (case strip_prefix ''sha256:'' (pm_model_receipt_sha256 a) of Some d \<Rightarrow> d | None \<Rightarrow> [])
          in pm_complete a \<and> pm_omitted_tokens a = 0 \<and> pm_provider_attempt a > 0
            \<and> \<not> is_blank (pm_provider_invocation_id a) \<and> \<not> is_blank (pm_model a)
            \<and> eo_obligation_id required \<in> set (pm_obligation_ids a)
            \<and> \<not> is_blank (er_ref_type (pm_raw_ref a)) \<and> \<not> is_blank (er_id (pm_raw_ref a))
            \<and> er_boundary (pm_raw_ref a) = Observed
            \<and> length digest = 64 \<and> list_all is_ascii_hexdigit digest))"

definition observed_scope_satisfies :: "workspace_scope_identity \<Rightarrow> workspace_scope_identity \<Rightarrow> bool" where
  "observed_scope_satisfies required observed =
    (let rp = ws_path required; op = ws_path observed;
         required_path = wp_workspace_relative_path rp; observed_path = wp_workspace_relative_path op in
     if ws_access_mode required \<noteq> ws_access_mode observed
        \<or> wp_workspace_id rp \<noteq> wp_workspace_id op \<or> wp_repository_id rp \<noteq> wp_repository_id op
        \<or> (case wp_observed_revision_or_digest rp of
             Some d \<Rightarrow> wp_observed_revision_or_digest op \<noteq> Some d | None \<Rightarrow> False)
     then False
     else if required_path = ''.'' then ws_access_mode observed = AccessRead
       \<and> ws_coverage observed \<in> {ExactContent, RecursiveContent, GlobDiscovery, DirectoryListing}
     else (case ws_coverage required of
         ExactContent \<Rightarrow> ws_coverage observed = ExactContent \<and> required_path = observed_path
       | ScopedContent \<Rightarrow> ws_coverage observed \<in> {ExactContent, RecursiveContent} \<and> path_contains required_path observed_path
       | DirectoryListing \<Rightarrow> ws_coverage observed = DirectoryListing \<and> required_path = observed_path
       | RecursiveContent \<Rightarrow> ws_coverage observed = RecursiveContent \<and> path_contains observed_path required_path
       | GlobDiscovery \<Rightarrow> ws_coverage observed = GlobDiscovery \<and> required_path = observed_path
       | WriteEffect \<Rightarrow> ws_coverage observed = WriteEffect \<and> path_contains required_path observed_path))"

definition observed_evidence_satisfies :: "evidence_obligation \<Rightarrow> observed_evidence \<Rightarrow> bool" where
  "observed_evidence_satisfies required observed =
    (if oe_observed_at_sequence observed = 0 \<or> is_blank (oe_tool_name observed) then False
     else if \<not> observation_requirement_satisfied required observed then False
     else if (case oe_target observed of
         TargetWorkspace scope \<Rightarrow> ws_coverage scope \<in> {ExactContent, WriteEffect}
           \<and> wp_observed_revision_or_digest (ws_path scope) = None
       | _ \<Rightarrow> False)
     then False
     else (case (eo_target required, oe_target observed) of
         (TargetWorkspace r, TargetWorkspace ob) \<Rightarrow> observed_scope_satisfies r ob
       | (TargetNetwork r, TargetNetwork ob) \<Rightarrow> r = ''*'' \<or> r = ob
       | _ \<Rightarrow> False))"

section \<open>Reads after writes\<close>

definition scope_under :: "workspace_scope_identity \<Rightarrow> workspace_scope_identity \<Rightarrow> bool" where
  "scope_under child parent =
    (let c = ws_path child; p = ws_path parent;
         child_path = wp_workspace_relative_path c; parent_path = wp_workspace_relative_path p in
     wp_workspace_id c = wp_workspace_id p \<and> wp_repository_id c = wp_repository_id p
     \<and> (parent_path = [] \<or> child_path = parent_path
        \<or> starts_with parent_path child_path \<and> length parent_path < length child_path
          \<and> child_path ! length parent_path = CHR 0x2F))"

fun same_workspace_file :: "evidence_target_identity \<Rightarrow> evidence_target_identity \<Rightarrow> bool" where
  "same_workspace_file (TargetWorkspace l) (TargetWorkspace r) =
    (wp_workspace_id (ws_path l) = wp_workspace_id (ws_path r) \<and> wp_repository_id (ws_path l) = wp_repository_id (ws_path r)
     \<and> wp_workspace_relative_path (ws_path l) = wp_workspace_relative_path (ws_path r))"
| "same_workspace_file _ _ = False"

fun observed_write_matches_read :: "evidence_target_identity \<Rightarrow> evidence_target_identity \<Rightarrow> bool" where
  "observed_write_matches_read (TargetWorkspace w) (TargetWorkspace r) =
    (ws_access_mode w = AccessWrite \<and> ws_coverage w = WriteEffect \<and> ws_access_mode r = AccessRead \<and> ws_coverage r = ExactContent
     \<and> wp_workspace_id (ws_path w) = wp_workspace_id (ws_path r) \<and> wp_repository_id (ws_path w) = wp_repository_id (ws_path r)
     \<and> wp_workspace_relative_path (ws_path w) = wp_workspace_relative_path (ws_path r)
     \<and> wp_observed_revision_or_digest (ws_path w) \<noteq> None
     \<and> wp_observed_revision_or_digest (ws_path w) = wp_observed_revision_or_digest (ws_path r))"
| "observed_write_matches_read _ _ = False"

text \<open>The writes below a scope\<close>
definition write_under :: "workspace_scope_identity \<Rightarrow> observed_evidence \<Rightarrow> bool" where
  "write_under required observed = (oe_observed_at_sequence observed > 0 \<and> (case oe_target observed of
     TargetWorkspace scope \<Rightarrow> ws_access_mode scope = AccessWrite \<and> ws_coverage scope = WriteEffect \<and> scope_under scope required
   | _ \<Rightarrow> False))"

definition observed_verify_after_write_satisfies :: "evidence_obligation \<Rightarrow> observed_evidence list \<Rightarrow> bool" where
  "observed_verify_after_write_satisfies obligation evidence = (case eo_target obligation of
     TargetWorkspace required \<Rightarrow>
       let writes = filter (write_under required) evidence;
           terminal_writes = filter (\<lambda>w. \<not> list_ex (\<lambda>other. oe_observed_at_sequence other > oe_observed_at_sequence w
             \<and> same_workspace_file (oe_target other) (oe_target w)) writes) writes
       in if writes = [] then False
          else list_all (\<lambda>w. list_ex (\<lambda>r. oe_observed_at_sequence r > oe_observed_at_sequence w
             \<and> observed_write_matches_read (oe_target w) (oe_target r)
             \<and> observation_requirement_satisfied obligation r) evidence) terminal_writes
   | _ \<Rightarrow> False)"

definition observed_evidence_collection_satisfies :: "evidence_obligation \<Rightarrow> observed_evidence list \<Rightarrow> bool" where
  "observed_evidence_collection_satisfies obligation evidence =
    (if eo_kind obligation = ObVerifyAfterWrite then observed_verify_after_write_satisfies obligation evidence
     else list_ex (observed_evidence_satisfies obligation) evidence)"

definition require_provider_model_observation :: "required_acceptance \<Rightarrow> required_acceptance" where
  "require_provider_model_observation required = required \<lparr> ra_evidence_obligations := map (\<lambda>ob.
     let semantic_read = (case eo_target ob of
         TargetWorkspace scope \<Rightarrow> eo_kind ob \<in> {ObContentRead, ObVerifyUpstreamChange} \<and> ws_coverage scope = ExactContent
           \<or> eo_kind ob = ObVerifyAfterWrite
       | _ \<Rightarrow> False)
     in if semantic_read then ob \<lparr> eo_observation_requirement := ProviderModel \<rparr> else ob) (ra_evidence_obligations required) \<rparr>"

section \<open>The evaluator\<close>

record acceptance_digests =
  ad_required :: "required_acceptance \<Rightarrow> rstring"
  ad_observed :: "observed_acceptance \<Rightarrow> rstring"
  ad_evidence :: "observed_evidence \<Rightarrow> rstring"

record acceptance_receipt_snapshot =
  snap_required :: required_acceptance
  snap_satisfied_criteria :: "rstring list"
  snap_observed_evidence :: "observed_evidence list"

definition snapshot_from_terminal ::
  "acceptance_digests \<Rightarrow> required_acceptance \<Rightarrow> rstring list \<Rightarrow> observed_evidence list \<Rightarrow> acceptance_receipt_snapshot" where
  "snapshot_from_terminal dg required criteria evidence =
    \<lparr> snap_required = required, snap_satisfied_criteria = remdups_adj (sort criteria),
      snap_observed_evidence = dedup_by_key (ad_evidence dg) (sort_key (ad_evidence dg) evidence) \<rparr>"

definition effective_required :: "required_acceptance \<Rightarrow> rstring list \<Rightarrow> required_acceptance" where
  "effective_required required fallback_criteria =
    (if ra_is_empty required then \<lparr> ra_criteria = fallback_criteria, ra_evidence_obligations = [] \<rparr> else required)"

definition evaluate_snapshot ::
  "acceptance_digests \<Rightarrow> acceptance_receipt_snapshot \<Rightarrow> observed_acceptance \<times> acceptance_evaluation" where
  "evaluate_snapshot dg snapshot =
    (let required = snap_required snapshot;
         unresolved = map eo_obligation_id (filter (\<lambda>ob. \<not> observed_evidence_collection_satisfies ob (snap_observed_evidence snapshot))
           (ra_evidence_obligations required));
         observed = \<lparr> oa_satisfied_criteria = snap_satisfied_criteria snapshot, oa_observed_evidence = snap_observed_evidence snapshot,
           oa_unresolved_obligation_ids = unresolved \<rparr>;
         criteria_satisfied = list_all (\<lambda>c. c \<in> set (oa_satisfied_criteria observed)) (ra_criteria required);
         verdict = (if ra_is_empty required then Satisfied
           else if oa_is_empty observed then Unresolved
           else if criteria_satisfied \<and> unresolved = [] then Satisfied else Unsatisfied)
     in (observed, \<lparr> ae_evaluator_revision = evaluator_revision, ae_contract_digest = ad_required dg required,
          ae_receipt_set_digest = ad_observed dg observed,
          ae_derived_obligations = map eo_obligation_id (ra_evidence_obligations required), ae_verdict = verdict \<rparr>))"

definition evaluate_terminal ::
  "acceptance_digests \<Rightarrow> required_acceptance \<Rightarrow> rstring list \<Rightarrow> observed_evidence list \<Rightarrow> observed_acceptance \<times> acceptance_evaluation" where
  "evaluate_terminal dg required criteria evidence = evaluate_snapshot dg (snapshot_from_terminal dg required criteria evidence)"

definition evaluate_required ::
  "acceptance_digests \<Rightarrow> required_acceptance \<Rightarrow> rstring list \<Rightarrow> observed_evidence list \<Rightarrow> observed_acceptance" where
  "evaluate_required dg required criteria evidence = fst (evaluate_terminal dg required criteria evidence)"

definition framework_invalid ::
  "acceptance_digests \<Rightarrow> acceptance_receipt_snapshot \<Rightarrow> observed_acceptance \<times> acceptance_evaluation" where
  "framework_invalid dg snapshot = (case evaluate_snapshot dg snapshot of
     (observed, evaluation) \<Rightarrow> (observed, evaluation \<lparr> ae_verdict := FrameworkInvalid \<rparr>))"

section \<open>Only the set of receipts matters\<close>

lemma map_dedup_by_key: "map f (dedup_by_key f xs) = remdups_adj (map f xs)"
  by (induction f xs rule: dedup_by_key.induct) auto

lemma set_dedup_by_key: "inj_on f (set xs) \<Longrightarrow> set (dedup_by_key f xs) = set xs"
proof (induction f xs rule: dedup_by_key.induct)
  case (3 f x y ys)
  have same: "f y = f x \<Longrightarrow> y = x" using inj_onD [OF 3(3), of y x] by simp
  have "inj_on f (set (x # ys))" "inj_on f (set (y # ys))" using 3(3) by (auto intro: inj_on_subset)
  then show ?case using 3(1,2) same by auto
qed auto

lemma distinct_remdups_adj_sorted: "sorted xs \<Longrightarrow> distinct (remdups_adj xs)"
  by (induction xs rule: remdups_adj.induct) auto

lemma canonical_list:
  assumes "inj_on f (set xs)"
  shows "set (dedup_by_key f (sort_key f xs)) = set xs" "sorted (map f (dedup_by_key f (sort_key f xs)))"
    "distinct (map f (dedup_by_key f (sort_key f xs)))"
  using assms by (simp_all add: set_dedup_by_key map_dedup_by_key distinct_remdups_adj_sorted)

lemma canonical_list_unique:
  assumes "inj_on f (set xs)" "set ys = set xs"
  shows "dedup_by_key f (sort_key f ys) = dedup_by_key f (sort_key f xs)"
proof -
  have inj: "inj_on f (set ys)" using assms by simp
  note X = canonical_list [OF assms(1)] and Y = canonical_list [OF inj]
  have sets: "set (dedup_by_key f (sort_key f ys)) = set (dedup_by_key f (sort_key f xs))" unfolding X(1) Y(1) by (rule assms(2))
  have "map f (dedup_by_key f (sort_key f ys)) = map f (dedup_by_key f (sort_key f xs))"
    by (rule sorted_distinct_set_unique [OF Y(2,3) X(2,3)]) (simp only: set_map sets)
  moreover have "inj_on f (set (dedup_by_key f (sort_key f ys)) \<union> set (dedup_by_key f (sort_key f xs)))"
    unfolding sets X(1) using assms(1) by simp
  ultimately show ?thesis by (rule map_inj_on)
qed

lemma canonical_criteria: "set ys = set xs \<Longrightarrow> remdups_adj (sort ys) = remdups_adj (sort (xs :: rstring list))"
  by (intro sorted_distinct_set_unique) (simp_all add: distinct_remdups_adj_sorted)

lemma verify_after_write_iff:
  "observed_verify_after_write_satisfies ob evidence \<longleftrightarrow> (\<exists>scope. eo_target ob = TargetWorkspace scope
     \<and> (\<exists>w\<in>set evidence. write_under scope w)
     \<and> (\<forall>w\<in>set evidence. write_under scope w
          \<and> \<not> (\<exists>v\<in>set evidence. write_under scope v \<and> oe_observed_at_sequence v > oe_observed_at_sequence w
                \<and> same_workspace_file (oe_target v) (oe_target w))
          \<longrightarrow> (\<exists>r\<in>set evidence. oe_observed_at_sequence r > oe_observed_at_sequence w
                \<and> observed_write_matches_read (oe_target w) (oe_target r) \<and> observation_requirement_satisfied ob r)))"
proof (cases "eo_target ob")
  case (TargetWorkspace scope)
  have "filter (write_under scope) evidence = [] \<longleftrightarrow> \<not> (\<exists>w\<in>set evidence. write_under scope w)" by (auto simp: filter_empty_conv)
  then show ?thesis unfolding observed_verify_after_write_satisfies_def Let_def
    by (auto simp: TargetWorkspace list_all_iff list_ex_iff)
qed (simp_all add: observed_verify_after_write_satisfies_def)

lemma collection_satisfies_set:
  "set ys = set xs \<Longrightarrow> observed_evidence_collection_satisfies ob ys = observed_evidence_collection_satisfies ob xs"
  unfolding observed_evidence_collection_satisfies_def verify_after_write_iff by (simp add: list_ex_iff)

lemma collection_satisfies_Nil: "\<not> observed_evidence_collection_satisfies ob []"
  by (simp add: observed_evidence_collection_satisfies_def verify_after_write_iff)

text \<open>Evidence for anything but a read after a write is never lost.\<close>
lemma collection_satisfies_mono:
  "eo_kind ob \<noteq> ObVerifyAfterWrite \<Longrightarrow> set xs \<subseteq> set ys \<Longrightarrow> observed_evidence_collection_satisfies ob xs
    \<Longrightarrow> observed_evidence_collection_satisfies ob ys"
  by (auto simp: observed_evidence_collection_satisfies_def list_ex_iff)

text \<open>The runner reads the verdict of the evaluator, unless the runtime rejected the result.\<close>
lemma derived_verdict_of_evaluation:
  "r_failure r = None \<Longrightarrow> u_acceptance_evaluation (r_usage r) = Some (snd (evaluate_terminal dg required criteria evidence))
    \<Longrightarrow> derived_acceptance_verdict r = ae_verdict (snd (evaluate_terminal dg required criteria evidence))"
  by (simp add: derived_acceptance_verdict_def evaluate_terminal_def evaluate_snapshot_def Let_def)

section \<open>Properties\<close>

text \<open>
  C41: the verdict is exact and canonical.  A terminal result is accepted exactly when its contract is
  empty, or every criterion was reported as satisfied and every obligation is matched by the observed
  evidence; and the whole evaluation, digests included, depends only on the set of criteria and the set
  of receipts, not on their order or repetition, as long as the digest tells the receipts apart.
\<close>
theorem acceptance_verdict_exact:
  assumes "inj_on (ad_evidence dg) (set evidence)"
  shows "(ae_verdict (snd (evaluate_terminal dg required criteria evidence)) = Satisfied \<longleftrightarrow> ra_is_empty required
      \<or> set (ra_criteria required) \<subseteq> set criteria
        \<and> (\<forall>ob\<in>set (ra_evidence_obligations required). observed_evidence_collection_satisfies ob evidence))
    \<and> (\<forall>criteria' evidence'. set criteria' = set criteria \<and> set evidence' = set evidence
        \<longrightarrow> evaluate_terminal dg required criteria' evidence' = evaluate_terminal dg required criteria evidence)"
proof (intro conjI allI impI)
  let ?ev = "dedup_by_key (ad_evidence dg) (sort_key (ad_evidence dg) evidence)"
  let ?all = "\<forall>ob\<in>set (ra_evidence_obligations required). observed_evidence_collection_satisfies ob evidence"
  have sat: "observed_evidence_collection_satisfies ob ?ev = observed_evidence_collection_satisfies ob evidence" for ob
    by (rule collection_satisfies_set) (rule canonical_list(1) [OF assms])
  have un: "map eo_obligation_id (filter (\<lambda>ob. \<not> observed_evidence_collection_satisfies ob evidence)
      (ra_evidence_obligations required)) = [] \<longleftrightarrow> ?all" by (auto simp: filter_empty_conv)
  have empty: "?ev = [] \<longleftrightarrow> evidence = []" using canonical_list(1) [OF assms] by (metis set_empty)
  have crit: "remdups_adj (sort criteria) = [] \<longleftrightarrow> criteria = []" by (metis remdups_adj_set set_empty set_sort)
  have verdict: "ae_verdict (snd (evaluate_terminal dg required criteria evidence)) =
      (if ra_is_empty required then Satisfied else if criteria = [] \<and> evidence = [] \<and> ?all then Unresolved
       else if set (ra_criteria required) \<subseteq> set criteria \<and> ?all then Satisfied else Unsatisfied)"
    unfolding evaluate_terminal_def evaluate_snapshot_def snapshot_from_terminal_def Let_def
    by (simp only: sat un empty crit oa_is_empty_def list_all_iff subset_iff acceptance_receipt_snapshot.simps observed_acceptance.simps
      acceptance_evaluation.simps snd_conv set_sort remdups_adj_set Ball_def)
  have "\<not> (?all \<and> set (ra_criteria required) \<subseteq> set criteria)" if "criteria = []" "evidence = []" "\<not> ra_is_empty required"
    using that collection_satisfies_Nil by (auto simp: ra_is_empty_def)
  then show "ae_verdict (snd (evaluate_terminal dg required criteria evidence)) = Satisfied \<longleftrightarrow> ra_is_empty required
      \<or> set (ra_criteria required) \<subseteq> set criteria \<and> ?all"
    unfolding verdict by (simp split: if_split) blast
next
  fix criteria' evidence'
  assume "set criteria' = set criteria \<and> set evidence' = set evidence"
  then show "evaluate_terminal dg required criteria' evidence' = evaluate_terminal dg required criteria evidence"
    using canonical_criteria [of criteria' criteria] canonical_list_unique [OF assms, of evidence']
    by (simp add: evaluate_terminal_def snapshot_from_terminal_def)
qed

text \<open>
  C42: no stale verification.  If an obligation to verify writes is met, then every file that was written
  below its scope has an exact read that is later than all of these writes and whose digest is the one of
  the last of them.
\<close>
theorem verify_after_write_fresh:
  assumes "eo_kind ob = ObVerifyAfterWrite" "eo_target ob = TargetWorkspace scope"
    and "observed_evidence_collection_satisfies ob evidence" "w \<in> set evidence" "write_under scope w"
  shows "\<exists>r\<in>set evidence. \<exists>v\<in>set evidence. write_under scope v \<and> same_workspace_file (oe_target v) (oe_target w)
     \<and> observed_write_matches_read (oe_target v) (oe_target r) \<and> observation_requirement_satisfied ob r
     \<and> (\<forall>u\<in>set evidence. write_under scope u \<and> same_workspace_file (oe_target u) (oe_target w)
          \<longrightarrow> oe_observed_at_sequence u \<le> oe_observed_at_sequence v \<and> oe_observed_at_sequence v < oe_observed_at_sequence r)"
proof -
  let ?W = "{u \<in> set evidence. write_under scope u \<and> same_workspace_file (oe_target u) (oe_target w)}"
  have "w \<in> ?W" using assms(4,5) by (cases "oe_target w") (auto simp: write_under_def)
  then have W: "finite (oe_observed_at_sequence ` ?W)" "oe_observed_at_sequence ` ?W \<noteq> {}" by auto
  from Max_in [OF W] obtain v where max: "Max (oe_observed_at_sequence ` ?W) = oe_observed_at_sequence v" and v1: "v \<in> ?W"
    by (rule imageE)
  have v2: "oe_observed_at_sequence u \<le> oe_observed_at_sequence v" if "u \<in> ?W" for u
    using Max_ge [OF W(1) imageI [OF that]] unfolding max .
  note v = v1 v2
  have same: "same_workspace_file (oe_target u) (oe_target w)" if "same_workspace_file (oe_target u) (oe_target v)" for u
    using that v(1) by (cases "oe_target u"; cases "oe_target v"; cases "oe_target w") auto
  then have last: "\<not> (\<exists>u\<in>set evidence. write_under scope u \<and> oe_observed_at_sequence u > oe_observed_at_sequence v
      \<and> same_workspace_file (oe_target u) (oe_target v))" using v(2) by fastforce
  have "observed_verify_after_write_satisfies ob evidence"
    using assms(1,3) by (simp add: observed_evidence_collection_satisfies_def)
  then obtain r where "r \<in> set evidence" "oe_observed_at_sequence r > oe_observed_at_sequence v"
    "observed_write_matches_read (oe_target v) (oe_target r)" "observation_requirement_satisfied ob r"
    using v(1) last assms(2) unfolding verify_after_write_iff by auto
  then show ?thesis using v by blast
qed

text \<open>
  C43: an obligation on the whole workspace cannot be met.  The root is named by a dot; a write of the
  root is only matched by reads, and a verification of the root looks for writes below a directory with
  that name, which no normalised path has (the root itself is a directory and is not written).
\<close>
theorem root_obligation_never_met:
  assumes "eo_target ob = TargetWorkspace scope" "wp_workspace_relative_path (ws_path scope) = ''.''"
    and "eo_kind ob = ObVerifyAfterWrite \<or> ws_access_mode scope = AccessWrite"
    and "\<forall>e\<in>set evidence. \<forall>s. oe_target e = TargetWorkspace s \<and> ws_access_mode s = AccessWrite
      \<longrightarrow> wp_workspace_relative_path (ws_path s) \<noteq> ''.'' \<and> \<not> starts_with ''./'' (wp_workspace_relative_path (ws_path s))"
  shows "\<not> observed_evidence_collection_satisfies ob evidence"
proof (cases "eo_kind ob = ObVerifyAfterWrite")
  case True
  have "\<not> scope_under s scope" if "wp_workspace_relative_path (ws_path s) \<noteq> ''.''"
    "\<not> starts_with ''./'' (wp_workspace_relative_path (ws_path s))" for s
    using that assms(2) by (auto simp: scope_under_def starts_with_iff Let_def nth_append neq_Nil_conv)
  then have "\<not> write_under scope e" if "e \<in> set evidence" for e
    using that assms(4) by (cases "oe_target e") (auto simp: write_under_def)
  then show ?thesis using True assms(1) by (simp add: observed_evidence_collection_satisfies_def verify_after_write_iff)
next
  case False
  then have "\<not> observed_scope_satisfies scope s" for s
    using assms(2,3) by (auto simp: observed_scope_satisfies_def Let_def)
  then show ?thesis using False assms(1)
    by (auto simp: observed_evidence_collection_satisfies_def list_ex_iff observed_evidence_satisfies_def
      split: evidence_target_identity.splits if_splits)
qed

section \<open>Witnesses\<close>

definition sample_observation :: "evidence_target_identity \<Rightarrow> nat \<Rightarrow> observed_evidence" where
  "sample_observation target n = \<lparr> oe_obligation_id = [], oe_target = target, oe_observed_at_sequence = n, oe_tool_name = ''t'',
     oe_provenance = FreshExecution, oe_evidence_ref = None, oe_model_observation = None, oe_workspace_prior_state = None \<rparr>"

definition sample_obligation :: "evidence_obligation_kind \<Rightarrow> evidence_target_identity \<Rightarrow> evidence_obligation" where
  "sample_obligation kind target = \<lparr> eo_obligation_id = ''o'', eo_kind = kind, eo_target = target,
     eo_observation_requirement = RuntimeAcquisition \<rparr>"

definition sample_target :: "workspace_access_mode \<Rightarrow> evidence_coverage_kind \<Rightarrow> rstring \<Rightarrow> workspace_scope_identity" where
  "sample_target mode coverage path = \<lparr> ws_access_mode = mode, ws_path = \<lparr> wp_workspace_id = ''w'', wp_repository_id = ''r'',
     wp_workspace_relative_path = path, wp_repository_relative_path = path, wp_object_kind = File,
     wp_observed_revision_or_digest = Some ''d'' \<rparr>, ws_coverage = coverage \<rparr>"

definition sample_digests :: acceptance_digests where
  "sample_digests = \<lparr> ad_required = (\<lambda>_. []), ad_observed = (\<lambda>_. []), ad_evidence = oe_tool_name \<rparr>"

lemma sample_network_satisfied:
  "observed_evidence_collection_satisfies (sample_obligation ObNetworkEvidence (TargetNetwork ''*'')) [sample_observation (TargetNetwork ''x'') 1]"
  by code_simp

theorem acceptance_verdict_exact_witness:
  "ae_verdict (snd (evaluate_terminal sample_digests
      \<lparr> ra_criteria = [''c''], ra_evidence_obligations = [sample_obligation ObNetworkEvidence (TargetNetwork ''*'')] \<rparr>
      [''c'', ''c''] [sample_observation (TargetNetwork ''x'') 1])) = Satisfied"
proof -
  have "inj_on (ad_evidence sample_digests) (set [sample_observation (TargetNetwork ''x'') 1])" by simp
  note exact = conjunct1 [OF acceptance_verdict_exact [OF this]]
  show ?thesis by (rule iffD2 [OF exact]) (simp add: sample_network_satisfied del: One_nat_def)
qed

abbreviation sample_write where
  "sample_write \<equiv> sample_observation (TargetWorkspace (sample_target AccessWrite WriteEffect ''a'')) 1"

abbreviation sample_read where
  "sample_read \<equiv> sample_observation (TargetWorkspace (sample_target AccessRead ExactContent ''a'')) 2"

abbreviation sample_verification where
  "sample_verification \<equiv> sample_obligation ObVerifyAfterWrite (TargetWorkspace (sample_target AccessRead ScopedContent ''a''))"

lemma sample_verified:
  "observed_evidence_collection_satisfies sample_verification [sample_write, sample_read]"
  "write_under (sample_target AccessRead ScopedContent ''a'') sample_write"
  by code_simp+

theorem verify_after_write_fresh_witness:
  "\<exists>r\<in>set [sample_write, sample_read]. \<exists>v\<in>set [sample_write, sample_read].
     observed_write_matches_read (oe_target v) (oe_target r) \<and> observation_requirement_satisfied sample_verification r"
proof -
  have "eo_kind sample_verification = ObVerifyAfterWrite"
    "eo_target sample_verification = TargetWorkspace (sample_target AccessRead ScopedContent ''a'')"
    by (simp_all add: sample_obligation_def)
  from verify_after_write_fresh [OF this sample_verified(1) _ sample_verified(2)] show ?thesis by (meson list.set_intros(1))
qed

theorem root_obligation_never_met_witness:
  "\<not> observed_evidence_collection_satisfies (sample_obligation ObWriteEffect (TargetWorkspace (sample_target AccessWrite WriteEffect ''.'')))
      [sample_observation (TargetWorkspace (sample_target AccessWrite WriteEffect ''a'')) 1]"
  by (rule root_obligation_never_met [where scope = "sample_target AccessWrite WriteEffect ''.''"])
    (simp_all add: sample_obligation_def sample_target_def sample_observation_def starts_with_def)

end
