(* ===== verification/Runner.thy ===== *)
theory Runner
  imports Dependencies
begin

text \<open>
  The graph runner, runtime/src/execution_core/graph/runner.rs, as operations on the durable state:
  registration, the dependency loop, the pump snapshot, the commits that end a node (deadline,
  resource refusal, isolated failure, executor error, outcome, terminal wave) and commands.  An
  operation loads the graph through the state store and commits through the commit service; the
  coordination lock of a graph makes the part between the two one step.  The calls into a running
  executor (poll, cancel, cleanup hooks) and the table of active nodes are process-local: what they
  returned is an argument.
\<close>

section \<open>Errors and parameters\<close>

datatype runner_error =
  RuInvalidGraph validation_error
| RuExecutor node_executor_error
| RuCommit commit_error
| RuState state_store_error
| RuJoin rstring
| RuIllegalOutcome rstring execution_node_status
| RuNodeMissing rstring
| RuInvalidStartCommand
| RuResource rstring rstring
| RuResourceDeferred rstring rstring
| RuDeadlineExceeded rstring nat
| RuMutationBlocked rstring
| RuCommandSuperseded rstring
| RuSupervisorUnavailable rstring
| RuDriver rstring
| RuPanic
| RuOutOfRounds

fun status_debug :: "execution_node_status \<Rightarrow> rstring" where
  "status_debug Planned = ''Planned''"
| "status_debug Ready = ''Ready''"
| "status_debug Running = ''Running''"
| "status_debug WaitingInput = ''WaitingInput''"
| "status_debug WaitingApproval = ''WaitingApproval''"
| "status_debug WaitingExternal = ''WaitingExternal''"
| "status_debug Paused = ''Paused''"
| "status_debug Completed = ''Completed''"
| "status_debug Blocked = ''Blocked''"
| "status_debug Failed = ''Failed''"
| "status_debug Cancelled = ''Cancelled''"

fun transition_error_str :: "execution_transition_error \<Rightarrow> rstring" where
  "transition_error_str (StaleRevision e a) =
     ''execution graph revision mismatch: expected '' @ nat_str e @ '', actual '' @ nat_str a"
| "transition_error_str (NodeNotFound i) = ''execution node `'' @ i @ ''` does not exist''"
| "transition_error_str (Illegal i from to) = ''illegal execution transition for `'' @ i @ ''`: ''
     @ status_debug from @ '' -> '' @ status_debug to"

fun node_executor_error_str :: "node_executor_error \<Rightarrow> rstring" where
  "node_executor_error_str (DuplicateExecutor k) = ''executor kind `'' @ k @ ''` is already registered''"
| "node_executor_error_str (NeUnavailable k i) = ''executor `'' @ k @ ''` is unavailable for node `'' @ i @ ''`''"
| "node_executor_error_str (NeInvalid i r) = ''executor rejected node `'' @ i @ ''`: '' @ r"
| "node_executor_error_str (NeStart i r) = ''executor failed to start node `'' @ i @ ''`: '' @ r"
| "node_executor_error_str (NePoll i r) = ''executor failed while awaiting node `'' @ i @ ''`: '' @ r"
| "node_executor_error_str (NeCancel i r) = ''executor failed to cancel node `'' @ i @ ''`: '' @ r"
| "node_executor_error_str (NeRecover i r) = ''executor failed to recover node `'' @ i @ ''`: '' @ r"
| "node_executor_error_str (NeUncertain i r) =
     ''executor effect for node `'' @ i @ ''` has uncertain completion: '' @ r"

fun commit_error_str :: "commit_error \<Rightarrow> rstring" where
  "commit_error_str (CeEventStore e) = event_store_error_str e"
| "commit_error_str (CeTransition e) = transition_error_str e"
| "commit_error_str (CeSerialization e) = ''execution graph commit serialization failed: '' @ e"
| "commit_error_str (CeStaleRevision i e a) = ''execution graph `'' @ i @ ''` revision mismatch: expected ''
     @ nat_str e @ '', actual '' @ nat_str a"
| "commit_error_str (CeInvalidCommand r) = ''execution graph command is not valid in the current state: '' @ r"
| "commit_error_str (CeAlreadyAppliedSame i) =
     ''execution graph registration was already applied for continuation root `'' @ i @ ''`''"
| "commit_error_str (CeGraphStreamCollision i) =
     ''domain event attempted to mutate canonical graph stream `'' @ i @ ''`''"
| "commit_error_str (CeMissingDomainIdempotency i) =
     ''domain event for stream `'' @ i @ ''` has no stable idempotency key''"
| "commit_error_str (CeProtectedDomainScope s) = ''graph executor cannot emit protected domain scope `'' @ s @ ''`''"
| "commit_error_str (CeBlockingTask e) = ''execution commit blocking task failed: '' @ e"
| "commit_error_str (CeInvalidReplan r) = ''execution graph replan is invalid: '' @ r"

text \<open>
  The runner: its commit service, its registry, whether the state store checks the durable revision,
  the mutation gate, the parser of payloads, and the sources of ids, time and interleaved writers,
  which differ from one commit (one graph revision) to the next.  Panics and an exhausted round count
  are errors of their own.
\<close>
record runner_env =
  rn_commit :: commit_env
  rn_registry :: executor_registry
  rn_verify :: bool
  rn_gate :: "(rstring, unit) result"
  rn_parse_payload :: "rstring \<Rightarrow> (rstring, json) result"
  rn_uuids :: "nat \<Rightarrow> nat \<Rightarrow> rstring"
  rn_now :: "nat \<Rightarrow> nat \<Rightarrow> nat"
  rn_clock :: "nat \<Rightarrow> nat"
  rn_others :: "nat \<Rightarrow> nat \<Rightarrow> ephemeral_state \<Rightarrow> ephemeral_state"

type_synonym 'a run = "commit_state \<Rightarrow> commit_state \<times> (runner_error, 'a) result"

definition run_ok :: "'a \<Rightarrow> 'a run" where
  "run_ok x cst = (cst, Ok x)"

definition run_err :: "runner_error \<Rightarrow> 'a run" where
  "run_err e cst = (cst, Err e)"

definition run_bind :: "'a run \<Rightarrow> ('a \<Rightarrow> 'b run) \<Rightarrow> 'b run" where
  "run_bind m f cst = (case m cst of (cst', Inl e) \<Rightarrow> (cst', Err e) | (cst', Inr x) \<Rightarrow> f x cst')"

definition run_result :: "(runner_error, 'a) result \<Rightarrow> 'a run" where
  "run_result r cst = (cst, r)"

definition load_graph :: "runner_env \<Rightarrow> rstring \<Rightarrow> execution_graph run" where
  "load_graph rn graph_id cst =
    (case load_snapshot (ce_codec (rn_commit rn)) (rn_verify rn) (ce_evict (rn_commit rn) (cst_hot cst)) graph_id
        (cst_store cst) (cst_hot cst) of
       (hot, r) \<Rightarrow> (cst \<lparr> cst_hot := hot \<rparr>, map_err RuState r))"

definition run_commit ::
  "(commit_state \<Rightarrow> (commit_error, commit_state \<times> commit_receipt) result) \<Rightarrow> execution_graph run" where
  "run_commit f cst = (case f cst of
     Inl e \<Rightarrow> (cst, Err (RuCommit e))
   | Inr (cst', rc) \<Rightarrow> (cst', Ok (crc_graph rc)))"

definition commit_transition where
  "commit_transition rn g node_id to result domain =
     run_commit (transition_node (rn_commit rn) (rn_uuids rn (g_revision g)) (rn_now rn (g_revision g))
       (rn_others rn (g_revision g)) g node_id to result domain)"

section \<open>Registration\<close>

definition register_continuation :: "runner_env \<Rightarrow> execution_graph \<Rightarrow> json option \<Rightarrow> execution_graph run" where
  "register_continuation rn graph actor =
    run_bind (run_result (map_err RuMutationBlocked (rn_gate rn))) (\<lambda>_.
    run_bind (run_result (map_err RuInvalidGraph (validate_execution_graph graph))) (\<lambda>_.
    run_bind (run_result (map_err RuExecutor (validate_graph (rn_registry rn) graph))) (\<lambda>_ cst.
      case register_graph_with_continuation (rn_commit rn) (rn_uuids rn 0) (rn_now rn 0) (rn_others rn 0) graph actor cst of
        Inr (cst', rc) \<Rightarrow> (cst', Ok (crc_graph rc))
      | Inl (CeAlreadyAppliedSame graph_id) \<Rightarrow> load_graph rn graph_id cst
      | Inl e \<Rightarrow> (cst, Err (RuCommit e)))))"

section \<open>The dependency loop\<close>

text \<open>The nodes that are planned when a round starts; a node without status is a panic\<close>
definition planned_ids :: "execution_graph \<Rightarrow> rstring list option" where
  "planned_ids g = map_option (\<lambda>xs. map fst (filter (\<lambda>(_, s). s = Planned) xs))
     (collect_some (\<lambda>n. map_option (Pair (n_id n)) (sm_get (g_node_statuses g) (n_id n))) (g_nodes g))"

definition target_of :: "execution_graph \<Rightarrow> rstring \<Rightarrow> execution_node_status option option" where
  "target_of g node_id = (case find (\<lambda>n. n_id n = node_id) (g_nodes g) of
     Some n \<Rightarrow> node_target g n
   | None \<Rightarrow> Some (dependency_target All []))"

definition advance_node :: "runner_env \<Rightarrow> rstring \<Rightarrow> execution_graph \<times> bool \<Rightarrow> (execution_graph \<times> bool) run" where
  "advance_node rn node_id = (\<lambda>(g, moved). case target_of g node_id of
     None \<Rightarrow> run_err RuPanic
   | Some None \<Rightarrow> run_ok (g, moved)
   | Some (Some target) \<Rightarrow> run_bind (commit_transition rn g node_id target None []) (\<lambda>g'. run_ok (g', True)))"

fun advance_round :: "runner_env \<Rightarrow> rstring list \<Rightarrow> execution_graph \<times> bool \<Rightarrow> (execution_graph \<times> bool) run" where
  "advance_round rn [] st = run_ok st"
| "advance_round rn (i # is) st = run_bind (advance_node rn i st) (advance_round rn is)"

text \<open>The loop; \<open>None\<close> when the rounds given are not enough\<close>
fun advance_loop ::
  "runner_env \<Rightarrow> nat \<Rightarrow> execution_graph \<Rightarrow> commit_state \<Rightarrow> (commit_state \<times> (runner_error, execution_graph) result) option" where
  "advance_loop rn 0 g cst = None"
| "advance_loop rn (Suc k) g cst =
    (case planned_ids g of
       None \<Rightarrow> Some (cst, Err RuPanic)
     | Some is \<Rightarrow> (case advance_round rn is (g, False) cst of
         (cst', Inl e) \<Rightarrow> Some (cst', Err e)
       | (cst', Inr (g', moved)) \<Rightarrow> if moved then advance_loop rn k g' cst' else Some (cst', Ok g')))"

text \<open>
  A round that changes something decides a planned node, so one round per node and a last one
  suffice: \<open>RuOutOfRounds\<close> is never returned (lemma \<open>advance_loop_returns\<close>).
\<close>
definition advance_dependencies :: "runner_env \<Rightarrow> rstring \<Rightarrow> execution_graph run" where
  "advance_dependencies rn graph_id = run_bind (load_graph rn graph_id) (\<lambda>g cst.
     case advance_loop rn (Suc (length (g_node_statuses g))) g cst of
       Some r \<Rightarrow> r
     | None \<Rightarrow> (cst, Err RuOutOfRounds))"

definition converge_after_terminal_commit :: "runner_env \<Rightarrow> rstring \<Rightarrow> unit run" where
  "converge_after_terminal_commit rn graph_id =
    run_bind (load_graph rn graph_id) (\<lambda>g. run_bind (advance_dependencies rn (g_id g)) (\<lambda>_. run_ok ()))"

section \<open>Results of nodes that did not finish\<close>

definition stopped_result ::
  "execution_node_status \<Rightarrow> rstring option \<Rightarrow> rstring option \<Rightarrow> execution_failure \<Rightarrow> nat \<Rightarrow> execution_node_result" where
  "stopped_result s result_ref summary failure clock = \<lparr> r_status = s, r_result_ref = result_ref, r_summary = summary,
     r_evidence_refs = [], r_failure = Some failure, r_usage = usage_default, r_finished_at_ms = clock \<rparr>"

fun json_as_u64 :: "json \<Rightarrow> nat option" where
  "json_as_u64 (JNumber t) = (if t \<noteq> [] \<and> list_all (\<lambda>c. 48 \<le> (of_char c :: nat) \<and> of_char c \<le> (57 :: nat)) t
     then let n = fold (\<lambda>c n. 10 * n + (of_char c - 48)) t 0 in if n \<le> u64_max then Some n else None
     else None)"
| "json_as_u64 _ = None"

definition execution_deadline_at_ms :: "runner_env \<Rightarrow> execution_node_spec \<Rightarrow> (runner_error, nat option) result" where
  "execution_deadline_at_ms rn n =
    (if n_kind n \<noteq> AgentTask then Ok None
     else and_then (map_err (\<lambda>e. RuResource (n_id n) (''durable execution payload is invalid: '' @ e))
         (rn_parse_payload rn (n_payload_ref n))) (\<lambda>payload.
       case (case json_get payload ''deadline_at_ms'' of Some v \<Rightarrow> json_as_u64 v | None \<Rightarrow> None) of
         None \<Rightarrow> Err (RuResource (n_id n) ''AgentTask has no Runtime-issued absolute deadline'')
       | Some d \<Rightarrow> if d = 0 then Err (RuResource (n_id n) ''AgentTask has no Runtime-issued absolute deadline'')
           else if d = u64_max then Ok None else Ok (Some d)))"

definition deadline_exceeded_outcome :: "rstring \<Rightarrow> nat \<Rightarrow> nat \<Rightarrow> node_execution_outcome" where
  "deadline_exceeded_outcome node_id deadline_at_ms clock = outcome_new (stopped_result Cancelled
     (Some (''execution-deadline:'' @ node_id @ '':'' @ nat_str deadline_at_ms))
     (Some ''Execution branch stopped at its durable wall-clock deadline'')
     \<lparr> f_kind = ''execution_deadline_exceeded'',
       f_message = ''execution node `'' @ node_id @ ''` exceeded absolute deadline `'' @ nat_str deadline_at_ms @ ''`'',
       f_retryable = False, f_evidence_refs = [] \<rparr> clock)"

definition terminalize_deadline_node :: "runner_env \<Rightarrow> rstring \<Rightarrow> rstring \<Rightarrow> nat \<Rightarrow> unit run" where
  "terminalize_deadline_node rn graph_id node_id deadline_at_ms = run_bind (load_graph rn graph_id) (\<lambda>current.
     if sm_get (g_node_statuses current) node_id \<notin> {Some Ready, Some Running} then run_ok ()
     else let outcome = deadline_exceeded_outcome node_id deadline_at_ms (rn_clock rn (g_revision current))
       in run_bind (commit_transition rn current node_id (r_status (oc_result outcome)) (Some (oc_result outcome)) [])
            (\<lambda>_. run_ok ()))"

definition block_unstarted_resource_node :: "runner_env \<Rightarrow> rstring \<Rightarrow> rstring \<Rightarrow> rstring \<Rightarrow> unit run" where
  "block_unstarted_resource_node rn graph_id node_id reason = run_bind (load_graph rn graph_id) (\<lambda>current.
     if sm_get (g_node_statuses current) node_id \<noteq> Some Ready then run_ok ()
     else run_bind (commit_transition rn current node_id Blocked (Some (stopped_result Blocked None None
         \<lparr> f_kind = ''resource_acquisition_failed'', f_message = reason, f_retryable = False, f_evidence_refs = [] \<rparr>
         (rn_clock rn (g_revision current)))) []) (\<lambda>_. run_ok ()))"

definition isolate_node_failure :: "runner_env \<Rightarrow> rstring \<Rightarrow> rstring \<Rightarrow> rstring \<Rightarrow> unit run" where
  "isolate_node_failure rn graph_id node_id reason = run_bind (load_graph rn graph_id) (\<lambda>current.
     if sm_get (g_node_statuses current) node_id \<notin> {Some Ready, Some Running, Some Planned} then run_ok ()
     else run_bind (commit_transition rn current node_id Failed (Some (stopped_result Failed None None
         \<lparr> f_kind = ''node_execution_isolated_failure'', f_message = reason, f_retryable = True, f_evidence_refs = [] \<rparr>
         (rn_clock rn (g_revision current)))) []) (\<lambda>_. run_ok ()))"

fun executor_error_node_id :: "node_executor_error \<Rightarrow> rstring" where
  "executor_error_node_id (DuplicateExecutor kind) = kind"
| "executor_error_node_id (NeUnavailable _ i) = i"
| "executor_error_node_id (NeInvalid i _) = i"
| "executor_error_node_id (NeStart i _) = i"
| "executor_error_node_id (NePoll i _) = i"
| "executor_error_node_id (NeCancel i _) = i"
| "executor_error_node_id (NeRecover i _) = i"
| "executor_error_node_id (NeUncertain i _) = i"

definition is_uncertain :: "node_executor_error \<Rightarrow> bool" where
  "is_uncertain e = (case e of NeUncertain _ _ \<Rightarrow> True | _ \<Rightarrow> False)"

definition failed_result :: "node_executor_error \<Rightarrow> nat \<Rightarrow> execution_node_result" where
  "failed_result e clock = stopped_result (if is_uncertain e then Blocked else Failed) None None
     \<lparr> f_kind = (if is_uncertain e then ''effect_completion_uncertain'' else ''executor_error''),
       f_message = node_executor_error_str e, f_retryable = False, f_evidence_refs = [] \<rparr> clock"

section \<open>Ending a node\<close>

definition validate_outcome :: "rstring \<Rightarrow> node_execution_outcome \<Rightarrow> (runner_error, unit) result" where
  "validate_outcome node_id oc =
    (if r_status (oc_result oc) \<in> {Completed, Failed, Blocked, Cancelled, WaitingInput, WaitingApproval, WaitingExternal}
     then Ok () else Err (RuIllegalOutcome node_id (r_status (oc_result oc))))"

text \<open>\<open>resolve_pump_result\<close>: errors of the execution become commits, an outcome is passed on\<close>
definition settle_executor_error :: "runner_env \<Rightarrow> rstring \<Rightarrow> node_executor_error \<Rightarrow> unit run" where
  "settle_executor_error rn graph_id e = run_bind (load_graph rn graph_id) (\<lambda>current.
     let node_id = executor_error_node_id e; result = failed_result e (rn_clock rn (g_revision current)) in
     if sm_get (g_node_statuses current) node_id \<noteq> Some Running then run_ok ()
     else run_bind (commit_transition rn current node_id (r_status result) (Some result) [])
            (\<lambda>_. converge_after_terminal_commit rn graph_id))"

fun resolve_pump_result ::
  "runner_env \<Rightarrow> rstring \<Rightarrow> (runner_error, rstring \<times> node_execution_outcome) result
   \<Rightarrow> (rstring \<times> node_execution_outcome) option run" where
  "resolve_pump_result rn graph_id (Inr value) = run_ok (Some value)"
| "resolve_pump_result rn graph_id (Inl (RuCommandSuperseded _)) = run_ok None"
| "resolve_pump_result rn graph_id (Inl (RuDeadlineExceeded node_id deadline_at_ms)) =
    run_bind (terminalize_deadline_node rn graph_id node_id deadline_at_ms) (\<lambda>_.
    run_bind (converge_after_terminal_commit rn graph_id) (\<lambda>_. run_ok None))"
| "resolve_pump_result rn graph_id (Inl (RuResource node_id reason)) =
    run_bind (block_unstarted_resource_node rn graph_id node_id reason) (\<lambda>_.
    run_bind (converge_after_terminal_commit rn graph_id) (\<lambda>_. run_ok None))"
| "resolve_pump_result rn graph_id (Inl (RuExecutor (NeStart node_id reason))) =
    run_bind (isolate_node_failure rn graph_id node_id (node_executor_error_str (NeStart node_id reason))) (\<lambda>_.
    run_bind (converge_after_terminal_commit rn graph_id) (\<lambda>_. run_ok None))"
| "resolve_pump_result rn graph_id (Inl (RuExecutor e)) =
    run_bind (settle_executor_error rn graph_id e) (\<lambda>_. run_ok None)"
| "resolve_pump_result rn graph_id (Inl e) = run_err e"

text \<open>The delivery facts of an outcome are put on the loaded graph before the transition.\<close>
definition with_outcome_facts :: "node_execution_outcome \<Rightarrow> execution_graph \<Rightarrow> execution_graph" where
  "with_outcome_facts oc g = g \<lparr>
     g_delivery_envelope := (case oc_delivery_envelope oc of Some e \<Rightarrow> Some e | None \<Rightarrow> g_delivery_envelope g),
     g_terminal_presentation := (case oc_terminal_presentation oc of Some p \<Rightarrow> Some p | None \<Rightarrow> g_terminal_presentation g) \<rparr>"

text \<open>The commit of one outcome (the path of \<open>finish_pump_node\<close> that is not batched)\<close>
definition commit_outcome :: "runner_env \<Rightarrow> rstring \<Rightarrow> rstring \<Rightarrow> node_execution_outcome \<Rightarrow> execution_graph option run" where
  "commit_outcome rn graph_id node_id oc = run_bind (load_graph rn graph_id) (\<lambda>g.
     if sm_get (g_node_statuses g) node_id \<noteq> Some Running then run_ok None
     else let current = with_outcome_facts oc g; r = g_revision g in
       run_bind (case oc_replan oc of
           Some p \<Rightarrow> run_commit (transition_node_with_replan (rn_commit rn) (rn_uuids rn r) (rn_now rn r) (rn_others rn r)
             current node_id (oc_result oc) (oc_domain_events oc) (rpl_nodes p) (rpl_edges p) (rpl_reason p))
         | None \<Rightarrow> commit_transition rn current node_id (r_status (oc_result oc)) (Some (oc_result oc)) (oc_domain_events oc))
         (\<lambda>g'. run_ok (Some g')))"

definition finish_outcome :: "runner_env \<Rightarrow> rstring \<Rightarrow> rstring \<Rightarrow> node_execution_outcome \<Rightarrow> unit run" where
  "finish_outcome rn graph_id node_id oc =
    run_bind (run_result (validate_outcome node_id oc)) (\<lambda>_.
    run_bind (run_result (case oc_replan oc of
        Some p \<Rightarrow> map_err RuExecutor (validate_nodes (rn_registry rn) (rpl_nodes p)) | None \<Rightarrow> Ok ())) (\<lambda>_.
    run_bind (commit_outcome rn graph_id node_id oc) (\<lambda>committed.
      if committed = None then run_ok () else converge_after_terminal_commit rn graph_id)))"

datatype terminal_commit_disposition = DpCommitted | DpSuperseded | DpFailed rstring

definition runner_error_str :: "runner_error \<Rightarrow> rstring" where
  "runner_error_str e = (case e of
     RuInvalidGraph v \<Rightarrow> validation_error_str v
   | RuExecutor x \<Rightarrow> node_executor_error_str x
   | RuCommit c \<Rightarrow> commit_error_str c
   | RuState s \<Rightarrow> state_store_error_str s
   | RuJoin r \<Rightarrow> ''execution node task failed to join: '' @ r
   | RuIllegalOutcome i s \<Rightarrow> ''executor returned illegal outcome `'' @ status_debug s @ ''` for node `'' @ i @ ''`''
   | RuNodeMissing i \<Rightarrow> ''execution graph projection is missing node `'' @ i @ ''`''
   | RuInvalidStartCommand \<Rightarrow> ''new execution graphs must be submitted with the Start command''
   | RuResource i r \<Rightarrow> ''execution resource acquisition failed for node `'' @ i @ ''`: '' @ r
   | RuResourceDeferred i r \<Rightarrow> ''execution resource admission deferred for node `'' @ i @ ''`: '' @ r
   | RuDeadlineExceeded i d \<Rightarrow> ''execution node `'' @ i @ ''` exceeded its durable deadline `'' @ nat_str d @ ''`''
   | RuMutationBlocked r \<Rightarrow> ''execution mutation is blocked: '' @ r
   | RuCommandSuperseded i \<Rightarrow> ''execution node `'' @ i @ ''` was superseded by a graph command''
   | RuSupervisorUnavailable r \<Rightarrow> ''runtime execution supervisor is unavailable: '' @ r
   | RuDriver r \<Rightarrow> ''runtime execution driver failed: '' @ r
   | RuPanic \<Rightarrow> [] | RuOutOfRounds \<Rightarrow> [])"

text \<open>
  The leader of a terminal wave commits every pending transition whose node still runs in one
  revision and answers every waiter, in the order they came.
\<close>
definition commit_terminal_wave ::
  "runner_env \<Rightarrow> rstring \<Rightarrow> execution_terminal_commit list \<Rightarrow> commit_state
   \<Rightarrow> commit_state \<times> terminal_commit_disposition list" where
  "commit_terminal_wave rn graph_id pending cst =
    (case load_graph rn graph_id cst of
       (cst1, Inl e) \<Rightarrow> (cst1, map (\<lambda>_. DpFailed (runner_error_str e)) pending)
     | (cst1, Inr current) \<Rightarrow>
         let runs = (\<lambda>t. sm_get (g_node_statuses current) (tc_node_id t) = Some Running);
             admitted = filter runs pending;
             answer = (\<lambda>d. map (\<lambda>t. if runs t then d else DpSuperseded) pending);
             r = g_revision current
         in if admitted = [] then (cst1, answer DpCommitted)
            else (case run_commit (transition_nodes (rn_commit rn) (rn_uuids rn r) (rn_now rn r) current admitted) cst1 of
               (cst2, Inl e) \<Rightarrow> (cst2, answer (DpFailed (runner_error_str e)))
             | (cst2, Inr _) \<Rightarrow> (case converge_after_terminal_commit rn graph_id cst2 of
                 (cst3, Inl e) \<Rightarrow> (cst3, answer (DpFailed (runner_error_str e)))
               | (cst3, Inr _) \<Rightarrow> (cst3, answer DpCommitted))))"

section \<open>Commands and the pump\<close>

text \<open>An active node of the graph, with what its executor answers when it is cancelled\<close>
record active_node =
  an_node_id :: rstring
  an_supports_resumable_pause :: bool
  an_cancel :: "(node_executor_error, unit) result"

fun interrupts :: "execution_graph_command \<Rightarrow> bool" where
  "interrupts (CmdPause _ _) = True"
| "interrupts (CmdCancel _ _) = True"
| "interrupts (CmdCancelNode _ _ _) = True"
| "interrupts _ = False"

fun command_targets :: "execution_graph_command \<Rightarrow> active_node \<Rightarrow> bool" where
  "command_targets (CmdCancelNode _ target _) a = (an_node_id a = target)"
| "command_targets _ a = True"

definition is_pause :: "execution_graph_command \<Rightarrow> bool" where
  "is_pause c = (case c of CmdPause _ _ \<Rightarrow> True | _ \<Rightarrow> False)"

definition cancellation_errors :: "active_node list \<Rightarrow> (rstring \<times> node_executor_error) list" where
  "cancellation_errors active = List.map_filter (\<lambda>a. case an_cancel a of
     Inl e \<Rightarrow> Some (an_node_id a, e) | Inr _ \<Rightarrow> None) active"

definition run_apply_command :: "runner_env \<Rightarrow> execution_graph \<Rightarrow> execution_graph_command \<Rightarrow> execution_graph run" where
  "run_apply_command rn g command = (let r = g_revision g in
     run_commit (apply_command (rn_commit rn) (rn_uuids rn r) (rn_now rn r) (rn_clock rn r) g command))"

text \<open>
  A command that interrupts first cancels the executors of the active nodes without holding the
  coordination lock (\<open>during\<close> is what happens to the state meanwhile) and is then applied only if the
  graph still has the revision the command names.
\<close>
definition command ::
  "runner_env \<Rightarrow> active_node list \<Rightarrow> (commit_state \<Rightarrow> commit_state) \<Rightarrow> rstring \<Rightarrow> execution_graph_command \<Rightarrow> execution_graph run" where
  "command rn active during graph_id c =
    run_bind (run_result (map_err RuMutationBlocked (rn_gate rn))) (\<lambda>_.
    run_bind (load_graph rn graph_id) (\<lambda>g.
    run_bind (run_result (map_err RuCommit (validate_command_revision g c))) (\<lambda>_.
    if \<not> interrupts c then run_apply_command rn g c
    else let targets = filter (command_targets c) active in
      if is_pause c \<and> list_ex (\<lambda>a. \<not> an_supports_resumable_pause a) targets
      then run_err (RuCommit (CeInvalidCommand
        ''an active execution node does not expose a resumable pause capability; cancel or wait for quiescence''))
      else (\<lambda>cst. run_bind (load_graph rn graph_id) (\<lambda>current.
        case find (\<lambda>(i, _). case sm_get (g_node_statuses current) i of Some s \<Rightarrow> \<not> is_terminal s | None \<Rightarrow> False)
            (cancellation_errors targets) of
          Some (_, e) \<Rightarrow> run_err (RuExecutor e)
        | None \<Rightarrow> run_bind (run_result (map_err RuCommit (validate_command_revision current c)))
            (\<lambda>_. run_apply_command rn current c)) (during cst)))))"

record pump_snapshot_result =
  ps_ready :: "execution_node_spec list"
  ps_report :: execution_run_report

fun cancel_tail ::
  "runner_env \<Rightarrow> active_node list \<Rightarrow> (commit_state \<Rightarrow> commit_state) \<Rightarrow> rstring \<Rightarrow> execution_graph \<Rightarrow> rstring list
   \<Rightarrow> execution_graph run" where
  "cancel_tail rn active during graph_id g [] = run_ok g"
| "cancel_tail rn active during graph_id g (i # is) = run_bind (load_graph rn graph_id) (\<lambda>current.
     if (case sm_get (g_node_statuses current) i of Some s \<Rightarrow> is_terminal s | None \<Rightarrow> True)
     then cancel_tail rn active during graph_id g is
     else run_bind (command rn active during graph_id (CmdCancelNode (g_revision current) i
           ''optional work cancelled after dependency quorum'')) (\<lambda>g'. cancel_tail rn active during graph_id g' is))"

definition ready_nodes :: "execution_graph \<Rightarrow> rstring sset \<Rightarrow> execution_node_spec list option" where
  "ready_nodes g in_flight = map_option (\<lambda>xs. map fst (filter (\<lambda>(n, s). s = Ready \<and> n_id n \<notin> set in_flight) xs))
     (collect_some (\<lambda>n. map_option (Pair n) (sm_get (g_node_statuses g) (n_id n))) (g_nodes g))"

definition pump_snapshot ::
  "runner_env \<Rightarrow> active_node list \<Rightarrow> (commit_state \<Rightarrow> commit_state) \<Rightarrow> rstring \<Rightarrow> rstring sset \<Rightarrow> pump_snapshot_result run" where
  "pump_snapshot rn active during graph_id in_flight =
    run_bind (run_result (map_err RuMutationBlocked (rn_gate rn))) (\<lambda>_.
    run_bind (load_graph rn graph_id) (\<lambda>g0.
    run_bind (advance_dependencies rn (g_id g0)) (\<lambda>g1.
    run_bind (cancel_tail rn active during graph_id g1 (quorum_tail_cancellations g1)) (\<lambda>g2.
    run_bind (advance_dependencies rn (g_id g2)) (\<lambda>g.
      case ready_nodes g in_flight of
        None \<Rightarrow> run_err RuPanic
      | Some ready \<Rightarrow> run_ok \<lparr> ps_ready = ready, ps_report = report g \<rparr>)))))"

section \<open>Quiescence\<close>

text \<open>
  How the completion pump of the supervisor (execution_core/supervisor.rs) ends a run in which no
  node is active, from the graph it reads and the report of its last snapshot
\<close>
datatype driver_outcome = DoCompleted execution_run_report | DoFailed rstring | DoAborted rstring

definition pump_quiescent :: "rstring \<Rightarrow> execution_graph \<Rightarrow> execution_run_report \<Rightarrow> driver_outcome" where
  "pump_quiescent graph_id g snapshot =
    (case terminal_report g of
       Some r \<Rightarrow> DoCompleted r
     | None \<Rightarrow> if rr_waiting snapshot > 0 then DoCompleted snapshot
         else DoFailed (''execution graph `'' @ graph_id
           @ ''` quiesced with no active or ready node while durable nodes remained non-terminal at revision ''
           @ nat_str (rr_revision snapshot)))"

end
