(* ===== verification/Runner_Progress.thy ===== *)
theory Runner_Progress
  imports Runner
begin

text \<open>
  What the dependency loop of the runner does: every round that changes something decides a planned
  node, so the loop ends; where it ends no planned node can be decided; and a runner that holds the
  current graph is never refused on the way.
\<close>

lemmas run_simps = run_bind_def run_ok_def run_err_def run_result_def run_commit_def

section \<open>What a transition returns\<close>

lemma retry_append_attempt:
  "retry_append others again attempt k conflict cst = Inr r \<Longrightarrow> \<exists>cst1. attempt cst1 = Inr r"
  by (induction k arbitrary: conflict cst) (auto simp: Let_def split: sum.splits if_splits)

lemma append_retrying_graph:
  assumes "append_graph_event_retrying_lineage_conflicts env uuids now others n r tx ev domain cst = Inr (cst', rc)"
  shows "\<exists>c. crc_graph rc = with_commit_cursor c n"
proof -
  obtain cst1 where "append_graph_event env uuids now n r tx ev domain cst1 = Inr (cst', rc)"
    using assms retry_append_attempt
    by (fastforce simp: append_graph_event_retrying_lineage_conflicts_def Let_def split: if_splits)
  then show ?thesis
    by (auto simp: append_graph_event_def append_graph_event_with_expected_domain_revisions_def result_simps Let_def)
qed

lemma transition_node_graph:
  assumes "transition_node env uuids now others g i to result domain cst = Inr (cst', rc)"
  shows "\<exists>m a c. apply_node_transition g (g_revision g) i to result = Inr m
    \<and> crc_graph rc = with_commit_cursor c (set_attempt i a m)"
proof -
  obtain m a tx ev evs where m: "apply_node_transition g (g_revision g) i to result = Inr m"
    and "append_graph_event_retrying_lineage_conflicts env uuids now others (set_attempt i a m)
      (g_revision g) tx ev evs cst = Inr (cst', rc)"
    using assms by (fastforce simp: transition_node_def commit_op_simps)
  then show ?thesis using append_retrying_graph by blast
qed

section \<open>Rounds\<close>

definition planned_set :: "execution_graph \<Rightarrow> rstring set" where
  "planned_set g = {i. sm_get (g_node_statuses g) i = Some Planned}"

text \<open>What the loop may do to a graph: decide planned nodes, and nothing else\<close>
definition decides :: "execution_graph \<Rightarrow> execution_graph \<Rightarrow> bool" where
  "decides g g' \<longleftrightarrow> g_id g' = g_id g \<and> g_lineage g' = g_lineage g \<and> g_nodes g' = g_nodes g \<and> g_edges g' = g_edges g
     \<and> g_node_results g' = g_node_results g \<and> (graph_ok g \<longrightarrow> graph_ok g')
     \<and> (\<forall>i. sm_get (g_node_statuses g') i = sm_get (g_node_statuses g) i
        \<or> sm_get (g_node_statuses g) i = Some Planned \<and> sm_get (g_node_statuses g') i \<in> {Some Ready, Some Blocked})"

lemma decides_refl [simp]: "decides g g"
  by (simp add: decides_def)

lemma decides_trans: "decides g m \<Longrightarrow> decides m n \<Longrightarrow> decides g n"
  unfolding decides_def by (intro conjI allI) (simp_all, metis)

lemma decides_planned: "decides g g' \<Longrightarrow> planned_set g' \<subseteq> planned_set g"
  by (force simp: decides_def planned_set_def)

lemma finite_planned [simp]: "finite (planned_set g)"
  by (rule finite_subset [of _ "fst ` set (g_node_statuses g)"]) (auto simp: planned_set_def dest: sm_get_key)

lemma card_planned: "card (planned_set g) \<le> length (g_node_statuses g)"
proof -
  have "planned_set g \<subseteq> fst ` set (g_node_statuses g)" by (auto simp: planned_set_def dest: sm_get_key)
  then have "card (planned_set g) \<le> card (fst ` set (g_node_statuses g))" by (intro card_mono) auto
  also have "\<dots> \<le> length (g_node_statuses g)" using card_image_le card_length le_trans by blast
  finally show ?thesis .
qed

lemma transition_decides:
  assumes "apply_node_transition g (g_revision g) i t None = Inr m" "graph_ok g" "t \<in> {Ready, Blocked}"
    and "sm_get (g_node_statuses g) i = Some Planned"
  shows "decides g (with_commit_cursor c (set_attempt i a m))"
    "sm_get (g_node_statuses (with_commit_cursor c (set_attempt i a m))) = (sm_get (g_node_statuses g))(i \<mapsto> t)"
proof -
  have wf: "graph_wf g" using assms(2) by (simp add: graph_ok_def)
  have fr: "status_frame g (set_attempt i a m)"
    by (rule status_frame_trans [OF apply_node_transition_frame [OF assms(1)] set_attempt_frame])
  have ok: "graph_ok (with_commit_cursor c (set_attempt i a m))"
    using fr assms(2) by (auto simp: status_frame_def graph_ok_def graph_wf_def with_commit_cursor_def)
  have m: "g_node_results m = g_node_results g" using assms(1) by (auto simp: apply_node_transition_ok)
  show st: "sm_get (g_node_statuses (with_commit_cursor c (set_attempt i a m))) = (sm_get (g_node_statuses g))(i \<mapsto> t)"
    using apply_node_transition_status [OF wf assms(1)] by (auto simp: fun_eq_iff set_attempt_def)
  show "decides g (with_commit_cursor c (set_attempt i a m))"
    unfolding decides_def st using fr ok m assms(3,4)
    by (auto simp: status_frame_def set_attempt_def with_commit_cursor_def)
qed

lemma commit_transition_ok:
  assumes "commit_transition rn g i t None [] cst = (cst', Inr g')" "graph_ok g" "t \<in> {Ready, Blocked}"
    and "sm_get (g_node_statuses g) i = Some Planned"
  shows "decides g g'" "sm_get (g_node_statuses g') = (sm_get (g_node_statuses g))(i \<mapsto> t)"
proof -
  obtain rc where t: "transition_node (rn_commit rn) (rn_uuids rn (g_revision g)) (rn_now rn (g_revision g))
      (rn_others rn (g_revision g)) g i t None [] cst = Inr (cst', rc)" and g': "g' = crc_graph rc"
    using assms(1) by (auto simp: commit_transition_def run_commit_def split: sum.splits)
  from transition_node_graph [OF t] show "decides g g'" "sm_get (g_node_statuses g') = (sm_get (g_node_statuses g))(i \<mapsto> t)"
    using transition_decides [OF _ assms(2-4)] unfolding g' by metis+
qed

lemma target_of_range: "target_of g i = Some (Some t) \<Longrightarrow> t \<in> {Ready, Blocked}"
  by (auto simp: target_of_def node_target_def simp del: dependency_target.simps
      dest!: dependency_target_range split: option.splits)

text \<open>One round over distinct planned nodes\<close>
lemma advance_round_ok:
  assumes "advance_round rn is (g, b) cst = (cst', Inr (g', b'))" "graph_ok g" "distinct is" "set is \<subseteq> planned_set g"
  shows "decides g g' \<and> (b \<longrightarrow> b')
    \<and> (\<not> b' \<longrightarrow> g' = g \<and> cst' = cst \<and> (\<forall>i\<in>set is. target_of g i = Some None))
    \<and> (b' \<longrightarrow> b \<or> planned_set g' \<subset> planned_set g)"
  using assms
proof (induction "is" arbitrary: g b cst)
  case Nil
  then show ?case by (simp add: run_ok_def)
next
  case (Cons i "is")
  obtain g1 b1 cst1 where s: "advance_node rn i (g, b) cst = (cst1, Inr (g1, b1))"
    and r: "advance_round rn is (g1, b1) cst1 = (cst', Inr (g', b'))"
    using Cons.prems(1) by (auto simp: run_bind_def split: prod.splits sum.splits)
  have pl: "sm_get (g_node_statuses g) i = Some Planned" using Cons.prems(4) by (simp add: planned_set_def)
  show ?case
  proof (cases "target_of g i = Some None")
    case True
    then have "g1 = g" "b1 = b" "cst1 = cst" using s by (simp_all add: advance_node_def run_ok_def)
    then show ?thesis using Cons.IH [OF r] Cons.prems True by simp
  next
    case False
    then obtain t where t: "target_of g i = Some (Some t)"
      using s by (cases "target_of g i") (auto simp: advance_node_def run_err_def)
    then have c: "commit_transition rn g i t None [] cst = (cst1, Inr g1)" and b1: "b1"
      using s by (auto simp: advance_node_def run_bind_def run_ok_def split: prod.splits sum.splits)
    note C = commit_transition_ok [OF c Cons.prems(2) target_of_range [OF t] pl]
    have ok: "graph_ok g1" using C(1) Cons.prems(2) by (simp add: decides_def)
    have "set is \<subseteq> planned_set g1" using Cons.prems(3,4) C(2) by (auto simp: planned_set_def)
    then have I: "decides g1 g' \<and> (b1 \<longrightarrow> b')" using Cons.IH [OF r ok] Cons.prems(3) by simp
    have "i \<notin> planned_set g1" using C(2) target_of_range [OF t] by (auto simp: planned_set_def)
    then have "planned_set g' \<subset> planned_set g"
      using decides_planned [OF C(1)] I decides_planned [of g1 g'] pl by (auto simp: planned_set_def)
    then show ?thesis using I b1 decides_trans [OF C(1)] by blast
  qed
qed

lemma collect_some_set:
  "collect_some f xs = Some ys \<Longrightarrow> set ys = {y. \<exists>x\<in>set xs. f x = Some y}"
  by (induction xs arbitrary: ys) (auto split: option.splits)

lemma collect_some_map:
  "collect_some (\<lambda>x. map_option (Pair (f x)) (h x)) xs = Some ys \<Longrightarrow> map fst ys = map f xs"
  by (induction xs arbitrary: ys) (auto split: option.splits)

lemma planned_ids_ok:
  assumes "planned_ids g = Some is" "distinct (map n_id (g_nodes g))"
  shows "distinct is" "set is = {n_id n |n. n \<in> set (g_nodes g) \<and> sm_get (g_node_statuses g) (n_id n) = Some Planned}"
    "set is \<subseteq> planned_set g"
proof -
  obtain xs where xs: "collect_some (\<lambda>n. map_option (Pair (n_id n)) (sm_get (g_node_statuses g) (n_id n))) (g_nodes g) = Some xs"
    and i: "is = map fst (filter (\<lambda>(_, s). s = Planned) xs)"
    using assms(1) by (auto simp: planned_ids_def)
  have "distinct (map fst xs)" using collect_some_map [OF xs] assms(2) by simp
  then show "distinct is" unfolding i by (rule distinct_map_filter)
  show eq: "set is = {n_id n |n. n \<in> set (g_nodes g) \<and> sm_get (g_node_statuses g) (n_id n) = Some Planned}"
    unfolding i using collect_some_set [OF xs] by force
  show "set is \<subseteq> planned_set g" unfolding eq by (auto simp: planned_set_def)
qed

lemma target_of_node:
  assumes "distinct (map n_id (g_nodes g))" "n \<in> set (g_nodes g)"
  shows "target_of g (n_id n) = node_target g n"
  by (simp add: target_of_def find_distinct [OF assms])

section \<open>The loop\<close>

lemma advance_loop_returns:
  assumes "card (planned_set g) < k" "graph_ok g"
  shows "advance_loop rn k g cst \<noteq> None"
  using assms
proof (induction k arbitrary: g cst)
  case (Suc k)
  have d: "distinct (map n_id (g_nodes g))" using Suc.prems(2) by (simp add: graph_ok_def)
  show ?case
  proof (cases "planned_ids g")
    case (Some "is")
    note P = planned_ids_ok [OF Some d]
    obtain cst' r where r: "advance_round rn is (g, False) cst = (cst', r)" by fastforce
    show ?thesis
    proof (cases r)
      case (Inr st)
      obtain g' b' where st: "st = (g', b')" by fastforce
      have R: "decides g g'" "b' \<longrightarrow> planned_set g' \<subset> planned_set g"
        using advance_round_ok [OF r [unfolded Inr st] Suc.prems(2) P(1,3)] by blast+
      have "b' \<Longrightarrow> advance_loop rn k g' cst' \<noteq> None"
        using Suc.IH R Suc.prems psubset_card_mono [OF finite_planned, of "planned_set g'" g]
        by (fastforce simp: decides_def)
      then show ?thesis using Some r Inr st by simp
    qed (use Some r in simp)
  qed simp
qed simp

lemma advance_loop_ok:
  assumes "advance_loop rn k g cst = Some (cst', Inr g')" "graph_ok g"
  shows "settled g'" "decides g g'"
proof -
  have "settled g' \<and> decides g g'" using assms
  proof (induction k arbitrary: g cst)
    case (Suc k)
    have d: "distinct (map n_id (g_nodes g))" using Suc.prems(2) by (simp add: graph_ok_def)
    obtain "is" where i: "planned_ids g = Some is" using Suc.prems(1) by (auto split: option.splits)
    note P = planned_ids_ok [OF i d]
    obtain cst1 g1 b1 where r: "advance_round rn is (g, False) cst = (cst1, Inr (g1, b1))"
      using Suc.prems(1) i by (auto split: prod.splits sum.splits)
    note R = advance_round_ok [OF r Suc.prems(2) P(1,3)]
    show ?case
    proof (cases b1)
      case True
      then have "advance_loop rn k g1 cst1 = Some (cst', Inr g')" using Suc.prems(1) i r by simp
      moreover have "graph_ok g1" using R Suc.prems(2) by (simp add: decides_def)
      ultimately show ?thesis using Suc.IH R decides_trans by blast
    next
      case False
      then have g': "g' = g" and t: "\<forall>i\<in>set is. target_of g i = Some None" using Suc.prems(1) i r R by simp_all
      have "settled g" unfolding settled_def list_all_iff
        using t P(2) target_of_node [OF d] by auto
      then show ?thesis using g' by simp
    qed
  qed simp
  then show "settled g'" "decides g g'" by simp_all
qed

section \<open>Transaction names\<close>

lemma nat_str_digits: "c \<in> set (nat_str n) \<Longrightarrow> 48 \<le> (of_char c :: nat) \<and> of_char c \<le> (57 :: nat)"
proof (induction n rule: nat_str.induct)
  case (1 n)
  show ?case
  proof (cases "n < 10")
    case True
    then show ?thesis using "1.prems" by (simp add: nat_str.simps [of n])
  next
    case False
    have "n mod 10 < 10" by simp
    then have "(48 + n mod 10) mod 256 = 48 + n mod 10" by (intro mod_less) linarith
    then show ?thesis using 1 False by (auto simp: nat_str.simps [of n])
  qed
qed

lemma nat_str_no_colon: "CHR '':'' \<notin> set (nat_str n)"
  using nat_str_digits [of "CHR '':''" n] by auto

lemma nat_str_nonempty [simp]: "nat_str n \<noteq> []"
  by (simp add: nat_str.simps [of n])

lemma of_char_digit: "a < 10 \<Longrightarrow> of_char (char_of (48 + a :: nat)) = 48 + a"
  by simp

lemma nat_str_inject: "nat_str m = nat_str n \<Longrightarrow> m = n"
proof (induction m arbitrary: n rule: nat_str.induct)
  case (1 m)
  have eq: "nat_str m = nat_str n" by (rule "1.prems")
  show ?case
  proof (cases "m < 10 \<or> n < 10")
    case True
    then have "m < 10 \<and> n < 10"
      using eq by (auto simp: nat_str.simps [of m] nat_str.simps [of n] append_eq_Cons_conv nat_str_nonempty [symmetric]
          split: if_splits)
    then show ?thesis
      using eq of_char_digit [of m] of_char_digit [of n] by (simp add: nat_str.simps [of m] nat_str.simps [of n])
  next
    case False
    then have s: "nat_str (m div 10) = nat_str (n div 10)" "char_of (48 + m mod 10) = (char_of (48 + n mod 10) :: char)"
      using eq by (simp_all add: nat_str.simps [of m] nat_str.simps [of n])
    have "m div 10 = n div 10" using "1.IH" [OF _ s(1)] False by simp
    moreover have "m mod 10 = n mod 10"
      using s(2) of_char_digit [of "m mod 10"] of_char_digit [of "n mod 10"] by simp
    ultimately show ?thesis by (metis div_mult_mod_eq)
  qed
qed

lemma takeWhile_stop: "c \<notin> set u \<Longrightarrow> takeWhile (\<lambda>d. d \<noteq> c) (u @ c # x) = u"
  by (induction u) auto

lemma colon_split:
  assumes "x @ CHR '':'' # u = y @ CHR '':'' # v" "CHR '':'' \<notin> set u" "CHR '':'' \<notin> set v"
  shows "x = y" "u = v"
proof -
  have "rev u @ CHR '':'' # rev x = rev v @ CHR '':'' # rev y" using arg_cong [OF assms(1), of rev] by simp
  moreover have "takeWhile (\<lambda>c. c \<noteq> CHR '':'') (rev u @ CHR '':'' # rev x) = rev u"
    "takeWhile (\<lambda>c. c \<noteq> CHR '':'') (rev v @ CHR '':'' # rev y) = rev v"
    by (rule takeWhile_stop, simp add: assms(2,3))+
  ultimately have "rev u = rev v" by simp
  then show "u = v" by simp
  then show "x = y" using assms(1) by simp
qed

definition tx_id :: "rstring \<Rightarrow> rstring \<Rightarrow> nat \<Rightarrow> execution_node_status \<Rightarrow> rstring" where
  "tx_id graph_id i r to = graph_id @ '':'' @ i @ '':'' @ nat_str r @ '':'' @ nat_str (status_code to)"

lemma tx_id_revision: "tx_id d i r t = tx_id d i' r' t' \<Longrightarrow> r = r'"
proof -
  assume eq: "tx_id d i r t = tx_id d i' r' t'"
  have "(d @ '':'' @ i @ '':'' @ nat_str r) @ CHR '':'' # nat_str (status_code t)
    = (d @ '':'' @ i' @ '':'' @ nat_str r') @ CHR '':'' # nat_str (status_code t')"
    using eq by (simp add: tx_id_def)
  from colon_split(1) [OF this nat_str_no_colon nat_str_no_colon]
  have "(d @ '':'' @ i) @ CHR '':'' # nat_str r = (d @ '':'' @ i') @ CHR '':'' # nat_str r'" by simp
  from colon_split(2) [OF this nat_str_no_colon nat_str_no_colon] show "r = r'" by (rule nat_str_inject)
qed

section \<open>A runner that holds the current graph\<close>

definition runner_env_ok :: "runner_env \<Rightarrow> bool" where
  "runner_env_ok rn \<longleftrightarrow> object_events (rn_commit rn) \<and> small_requests (rn_commit rn)
     \<and> (\<forall>st. journal_decodes (ce_codec (rn_commit rn)) st) \<and> rn_others rn = (\<lambda>_ _ st. st)"

definition ready_to_run :: "runner_env \<Rightarrow> commit_state \<Rightarrow> execution_graph \<Rightarrow> bool" where
  "ready_to_run rn cst g \<longleftrightarrow> commit_inv (rn_commit rn) (cst, g)
     \<and> (\<exists>l. validated_graph_lineage g = Inr l) \<and> \<not> is_blank (g_id g)
     \<and> (\<forall>i. \<not> starts_with ''execution-lineage:'' (node_stream_id (g_id g) i))
     \<and> (\<forall>i r t. g_revision g < r \<longrightarrow> fresh_transaction (cst_store cst) (tx_id (g_id g) i r t))
     \<and> g_revision g + card (planned_set g) \<le> u64_max
     \<and> (\<forall>(u, v)\<in>set (dep_pairs g). sm_get (g_node_statuses g) u \<noteq> None)"

lemma decides_keys: "decides g g' \<Longrightarrow> sm_get (g_node_statuses g') i = None \<longleftrightarrow> sm_get (g_node_statuses g) i = None"
  unfolding decides_def by (metis insertE option.distinct(1) empty_iff)

lemma dependency_predecessors_total:
  assumes "\<forall>(u, v)\<in>set (dep_pairs g). sm_get (g_node_statuses g) u \<noteq> None"
  shows "dependency_predecessors g n \<noteq> None"
proof -
  have "verified_predecessor_status g (e_from e) req \<noteq> None"
    if e: "e \<in> set (filter (\<lambda>e. is_dependency (e_kind e) \<and> e_to e = n_id n) (g_edges g))" for e req
  proof -
    have "sm_get (g_node_statuses g) (e_from e) \<noteq> None"
      using assms e by (force simp: dep_pairs_def dependency_edges_def)
    then show ?thesis using verified_status_total by fastforce
  qed
  then show ?thesis unfolding dependency_predecessors_def Let_def
    by (subst collect_some_total) (auto simp: map_option_eq_Some)
qed

lemma target_of_total:
  "\<forall>(u, v)\<in>set (dep_pairs g). sm_get (g_node_statuses g) u \<noteq> None \<Longrightarrow> target_of g i \<noteq> None"
  using dependency_predecessors_total [of g] by (auto simp: target_of_def node_target_def split: option.splits)

lemma commit_transition_live:
  assumes env: "runner_env_ok rn" and live: "ready_to_run rn cst g"
    and pl: "sm_get (g_node_statuses g) i = Some Planned" and t: "t \<in> {Ready, Blocked}"
  shows "\<exists>cst' g'. commit_transition rn g i t None [] cst = (cst', Inr g') \<and> ready_to_run rn cst' g'"
proof -
  note L = live [unfolded ready_to_run_def] and E = env [unfolded runner_env_ok_def]
  obtain l where lin: "validated_graph_lineage g = Inr l" using L by blast
  have "i \<in> planned_set g" using pl by (simp add: planned_set_def)
  then have "card (planned_set g) > 0" by (metis card_gt_0_iff empty_iff finite_planned)
  then have b: "g_revision g < u64_max" using L by linarith
  have tx: "transition_tx g i t = tx_id (g_id g) i (g_revision g + 1) t"
    using b by (simp add: transition_tx_def tx_id_def sat_add64_def)
  have fr: "fresh_transaction (cst_store cst) (transition_tx g i t)" unfolding tx using L by simp
  have legal: "legal_transition Planned t" and nc: "no_candidate g i t"
    using t by (auto simp: legal_transition_def no_candidate_def)
  have inv: "commit_inv (rn_commit rn) (cst, g)" "\<not> is_blank (g_id g)"
      "\<not> starts_with ''execution-lineage:'' (node_stream_id (g_id g) i)"
    and ev: "object_events (rn_commit rn)" "small_requests (rn_commit rn)" "\<forall>st. journal_decodes (ce_codec (rn_commit rn)) st"
      "rn_others rn (g_revision g) = (\<lambda>_ st. st)"
    using L E by auto
  from current_writer_step [OF inv(1) lin inv(2,3) ev(1,2) nc ev(3) pl legal fr b,
      of "rn_uuids rn (g_revision g)" "rn_now rn (g_revision g)" None]
  obtain cst' rc where c: "transition_node (rn_commit rn) (rn_uuids rn (g_revision g)) (rn_now rn (g_revision g))
      (\<lambda>_ st. st) g i t None [] cst = Inr (cst', rc)"
    and inv': "commit_inv (rn_commit rn) (cst', crc_graph rc)" and rev: "g_revision (crc_graph rc) = g_revision g + 1"
    and f: "\<forall>tx'. tx' \<noteq> transition_tx g i t \<longrightarrow> fresh_transaction (cst_store cst) tx' \<longrightarrow> fresh_transaction (cst_store cst') tx'"
    by blast
  have ct: "commit_transition rn g i t None [] cst = (cst', Inr (crc_graph rc))"
    using c ev(4) by (simp add: commit_transition_def run_commit_def)
  have ok: "graph_ok g" using inv(1) by (simp add: commit_inv_def)
  note C = commit_transition_ok [OF ct ok t pl]
  have d: "g_id (crc_graph rc) = g_id g" "g_lineage (crc_graph rc) = g_lineage g" "g_nodes (crc_graph rc) = g_nodes g"
    "g_edges (crc_graph rc) = g_edges g" using C(1) by (simp_all add: decides_def)
  have "planned_set (crc_graph rc) = planned_set g - {i}" using C(2) t by (auto simp: planned_set_def)
  then have "card (planned_set (crc_graph rc)) + 1 = card (planned_set g)"
    using \<open>i \<in> planned_set g\<close> \<open>card (planned_set g) > 0\<close> by simp
  then have cd: "g_revision (crc_graph rc) + card (planned_set (crc_graph rc)) \<le> u64_max" using rev L by linarith
  have fresh: "fresh_transaction (cst_store cst') (tx_id (g_id g) j r u)" if "g_revision g + 1 < r" for j r u
  proof -
    have "tx_id (g_id g) j r u \<noteq> transition_tx g i t" using that tx_id_revision unfolding tx by fastforce
    then show ?thesis using f L that by simp
  qed
  have st: "\<forall>(u, v)\<in>set (dep_pairs (crc_graph rc)). sm_get (g_node_statuses (crc_graph rc)) u \<noteq> None"
    using L d decides_keys [OF C(1)] by (auto simp: dep_pairs_def dependency_edges_def)
  have "ready_to_run rn cst' (crc_graph rc)" unfolding ready_to_run_def
    using inv' lin L cd fresh st by (auto simp: d rev validated_graph_lineage_ok)
  then show ?thesis using ct by blast
qed

lemma advance_round_live:
  assumes env: "runner_env_ok rn" and "ready_to_run rn cst g" "distinct is" "set is \<subseteq> planned_set g"
  shows "\<exists>cst' g' b'. advance_round rn is (g, b) cst = (cst', Inr (g', b')) \<and> ready_to_run rn cst' g'"
  using assms(2-4)
proof (induction "is" arbitrary: g b cst)
  case (Cons i "is")
  have tt: "target_of g i \<noteq> None" using Cons.prems(1) by (intro target_of_total) (simp add: ready_to_run_def)
  have pl: "sm_get (g_node_statuses g) i = Some Planned" using Cons.prems(3) by (simp add: planned_set_def)
  show ?case
  proof (cases "target_of g i = Some None")
    case True
    then show ?thesis using Cons.IH [OF Cons.prems(1)] Cons.prems(2,3) by (simp add: advance_node_def run_simps)
  next
    case False
    then obtain t where t: "target_of g i = Some (Some t)" using tt by auto
    obtain cst1 g1 where c: "commit_transition rn g i t None [] cst = (cst1, Inr g1)" "ready_to_run rn cst1 g1"
      using commit_transition_live [OF env Cons.prems(1) pl target_of_range [OF t]] by blast
    have "graph_ok g" using Cons.prems(1) by (simp add: ready_to_run_def commit_inv_def)
    note C = commit_transition_ok [OF c(1) this target_of_range [OF t] pl]
    have "set is \<subseteq> planned_set g1" using Cons.prems(2,3) C(2) by (auto simp: planned_set_def)
    then show ?thesis using Cons.IH [OF c(2), of True] Cons.prems(2) t c(1) by (simp add: advance_node_def run_simps)
  qed
qed (simp add: run_ok_def)

lemma graph_ok_total:
  assumes "graph_ok g"
  shows "statuses_total g"
  unfolding statuses_total_def list_all_iff
proof
  fix n
  assume "n \<in> set (g_nodes g)"
  then have "n_id n \<in> fst ` set (g_node_statuses g)" using assms by (simp add: graph_ok_def)
  then show "sm_get (g_node_statuses g) (n_id n) \<noteq> None" unfolding sm_keys_get by simp
qed

lemma planned_ids_total: "statuses_total g \<Longrightarrow> \<exists>is. planned_ids g = Some is"
  unfolding planned_ids_def by (subst collect_some_total) (auto simp: statuses_total_def list_all_iff)

lemma advance_loop_live:
  assumes env: "runner_env_ok rn" and "ready_to_run rn cst g" "card (planned_set g) < k"
  shows "\<exists>cst' g'. advance_loop rn k g cst = Some (cst', Inr g') \<and> ready_to_run rn cst' g'"
  using assms(2,3)
proof (induction k arbitrary: g cst)
  case (Suc k)
  have ok: "graph_ok g" using Suc.prems(1) by (simp add: ready_to_run_def commit_inv_def)
  then have d: "distinct (map n_id (g_nodes g))" by (simp add: graph_ok_def)
  obtain "is" where i: "planned_ids g = Some is" using planned_ids_total graph_ok_total [OF ok] by blast
  note P = planned_ids_ok [OF i d]
  obtain cst1 g1 b1 where r: "advance_round rn is (g, False) cst = (cst1, Inr (g1, b1))" and l: "ready_to_run rn cst1 g1"
    using advance_round_live [OF env Suc.prems(1) P(1,3)] by blast
  note R = advance_round_ok [OF r ok P(1,3)]
  show ?case
  proof (cases b1)
    case True
    then have "card (planned_set g1) < card (planned_set g)" using R psubset_card_mono [OF finite_planned] by blast
    then show ?thesis using Suc.IH [OF l] Suc.prems(2) True i r by simp
  qed (use i r l in simp)
qed simp

lemma load_graph_current:
  assumes "ready_to_run rn cst g"
  shows "\<exists>cst'. load_graph rn (g_id g) cst = (cst', Inr g) \<and> ready_to_run rn cst' g"
proof -
  obtain hot r where l: "load_snapshot (ce_codec (rn_commit rn)) (rn_verify rn) (ce_evict (rn_commit rn) (cst_hot cst)) (g_id g)
      (cst_store cst) (cst_hot cst) = (hot, r)" by fastforce
  have inv: "commit_inv (rn_commit rn) (cst, g)" using assms by (simp add: ready_to_run_def)
  note S = load_snapshot_inv [OF inv l]
  have "ready_to_run rn (cst \<lparr> cst_hot := hot \<rparr>) g" using assms S(2) unfolding ready_to_run_def by simp
  then show ?thesis using l S(1) by (simp add: load_graph_def map_err_def)
qed

section \<open>Properties\<close>


end
