(* ===== verification/Runner_Properties.thy ===== *)
theory Runner_Properties
  imports Runner_Progress
begin

text \<open>
  Properties of the runner: a settled graph never strands its driver, interrupting commands are fenced
  by the revision they name, and two places where what is committed differs from what is meant.
\<close>

section \<open>Quiescence\<close>

lemma sm_values_get: "sm_wf m \<Longrightarrow> s \<in> set (sm_values m) \<longleftrightarrow> (\<exists>k. sm_get m k = Some s)"
  by (auto simp: sm_values_def sm_get_def sm_wf_def strict_sorted_iff image_iff)
    (metis snd_conv)

lemma count_status_pos: "sm_wf (g_node_statuses g) \<Longrightarrow> sm_get (g_node_statuses g) i = Some s \<Longrightarrow> 0 < count_status g s"
  using sm_values_get [of "g_node_statuses g" s] by (auto simp: count_status_def filter_empty_conv)

lemma load_graph_store: "load_graph rn i cst = (cst', r) \<Longrightarrow> cst_store cst' = cst_store cst"
  by (auto simp: load_graph_def split: prod.splits)

lemma quiescent_completes:
  assumes ok: "graph_ok g" and st: "settled g"
    and acy: "acyclic (set (dep_pairs g))" and ids: "\<forall>(u, v)\<in>set (dep_pairs g). u \<in> node_ids g"
    and idle: "\<forall>i. sm_get (g_node_statuses g) i \<notin> {Some Ready, Some Running}"
  shows "\<exists>r. pump_quiescent i g (report g) = DoCompleted r"
proof (cases "\<exists>i s. sm_get (g_node_statuses g) i = Some s \<and> \<not> is_terminal s \<and> s \<noteq> Planned")
  case True
  then obtain j s where s: "sm_get (g_node_statuses g) j = Some s" "\<not> is_terminal s" "s \<noteq> Planned" by blast
  have "s \<in> {WaitingInput, WaitingApproval, WaitingExternal, Paused}"
    using s idle by (cases s) (auto simp: is_terminal_def)
  moreover have "sm_wf (g_node_statuses g)" using ok by (simp add: graph_ok_def graph_wf_def)
  ultimately have "0 < rr_waiting (report g)" using count_status_pos s(1) by (fastforce simp: report_def)
  then show ?thesis by (simp add: pump_quiescent_def split: option.split)
next
  case False
  have all: "\<forall>n\<in>set (g_nodes g). \<exists>s. sm_get (g_node_statuses g) (n_id n) = Some s \<and> is_terminal s"
    by (rule settled_not_stuck [OF acy ids graph_ok_total [OF ok] st]) (use False in blast)
  have wf: "sm_wf (g_node_statuses g)" using ok by (simp add: graph_ok_def graph_wf_def)
  have "is_terminal s" if v: "s \<in> set (sm_values (g_node_statuses g))" for s
  proof -
    obtain k where k: "sm_get (g_node_statuses g) k = Some s" using sm_values_get [OF wf] v by blast
    then have "k \<in> n_id ` set (g_nodes g)" using ok sm_get_key [OF k] by (auto simp: graph_ok_def)
    then show ?thesis using all k by auto
  qed
  then have "terminal_report g = Some (report g)" by (simp add: terminal_report_def list_all_iff)
  then show ?thesis by (simp add: pump_quiescent_def)
qed

section \<open>Properties\<close>

text \<open>
  C13: no deadlock.  In a graph that validation accepts, when the dependency loop has nothing left to
  decide and no node is ready or running, the driver completes: every node is terminal or some node
  waits for input, approval, an external result or a resume.  The driver's error branch for graphs
  that stop with undecidable planned nodes is never taken.
\<close>
theorem settled_graph_completes:
  assumes "validate_execution_graph g = Inr bs" "graph_ok g" "settled g"
    and "\<forall>i. sm_get (g_node_statuses g) i \<notin> {Some Ready, Some Running}"
  shows "\<exists>r. pump_quiescent graph_id g (report g) = DoCompleted r"
proof -
  have acc: "graph_acceptable g" and acy: "acyclic (set (dep_pairs g))" using validate_sound(1,5) [OF assms(1)] by blast+
  have ids: "\<forall>(u, v)\<in>set (dep_pairs g). u \<in> node_ids g" using acc by (auto simp: graph_acceptable_def)
  show ?thesis by (rule quiescent_completes [OF assms(2,3) acy ids assms(4)])
qed

text \<open>
  C30: an interrupting command is fenced.  If the graph moves to another revision while the executors
  of the active nodes are being cancelled, the command is refused and nothing is committed: the store
  is what the concurrent changes left.
\<close>
theorem interrupted_command_fenced:
  assumes "load_graph rn graph_id cst = (cst1, Inr g)" "load_graph rn graph_id (during cst1) = (cst2, Inr g2)"
    and "interrupts c" "g_revision g2 \<noteq> g_revision g"
  shows "\<exists>cst' e. command rn active during graph_id c cst = (cst', Inl e)
    \<and> cst_store cst' \<in> {cst_store cst, cst_store cst1, cst_store (during cst1)}"
proof -
  note S = load_graph_store [OF assms(1)] load_graph_store [OF assms(2)]
  have stale: "command_revision c = g_revision g \<Longrightarrow> \<exists>e. validate_command_revision g2 c = Inl e"
    using assms(4) by (auto simp: validate_command_revision_def)
  show ?thesis
    unfolding command_def using assms(1-3) S stale
    by (auto simp: run_simps map_err_def validate_command_revision_def [of g] Let_def split: sum.split option.split)
qed

text \<open>
  C39: the isolation of a failed node is refused for a node that is still planned: the guard lets
  planned nodes through, but no transition leads from planned to failed, so the failure is neither
  recorded nor isolated and the error is returned instead.
\<close>
theorem isolate_planned_refused:
  assumes "load_graph rn graph_id cst = (cst1, Inr g)" "sm_get (g_node_statuses g) i = Some Planned"
  shows "isolate_node_failure rn graph_id i reason cst
    = (cst1, Inl (RuCommit (CeTransition (Illegal i Planned Failed))))"
  using assms
  by (simp add: isolate_node_failure_def run_simps commit_transition_def transition_node_def
      validate_executor_domain_events_def status_of_def lift_transition_def map_err_def
      apply_node_transition_def legal_transition_def)


section \<open>Witnesses\<close>

definition sample_settled :: execution_graph where
  "sample_settled = sample_diamond \<lparr> g_revision := 1, g_node_statuses :=
     [(''a'', Completed), (''b'', WaitingInput), (''c'', Completed), (''d'', Planned)] \<rparr>"

theorem settled_graph_completes_witness:
  "\<exists>r. pump_quiescent ''g'' sample_settled (report sample_settled) = DoCompleted r"
proof -
  have v: "validate_execution_graph sample_settled = Inr [[''a''], [''b'', ''c''], [''d'']]" by code_simp
  have s: "settled sample_settled"
    by (simp add: settled_def sample_settled_def sample_diamond_def sample_node_def sample_edge_def sm_get_def
        node_target_def dependency_predecessors_def verified_predecessor_status_def node_dependency_def
        is_dependency_def counted_target_def is_terminal_def)
  have o: "graph_ok sample_settled"
    by (auto simp: graph_ok_def graph_wf_def sample_settled_def sample_diamond_def sample_node_def graph_new_def
        sm_wf_def u64_max_def)
  have "\<forall>i. sm_get (g_node_statuses sample_settled) i \<notin> {Some Ready, Some Running}"
    by (simp add: sample_settled_def sm_get_def)
  from settled_graph_completes [OF v o s this] show ?thesis .
qed

text \<open>A runner on the run of the counting codec\<close>
definition count_runner :: runner_env where
  "count_runner = \<lparr> rn_commit = count_env, rn_registry = demo_registry, rn_verify = True, rn_gate = Inr (),
     rn_parse_payload = (\<lambda>_. Inl []), rn_uuids = (\<lambda>_ _. ''u''), rn_now = (\<lambda>_ _. 0), rn_clock = (\<lambda>_. 0),
     rn_others = (\<lambda>_ _ st. st) \<rparr>"

lemma count_runner_ok: "runner_env_ok count_runner"
  using count_env_laws by (simp add: runner_env_ok_def count_runner_def)

lemma count_ready:
  assumes "count_state {''g:planned''} Planned 1 cst g"
  shows "ready_to_run count_runner cst g"
proof -
  note S = assms [unfolded count_state_def]
  have lin: "validated_graph_lineage g = Inr demo_lineage" using demo_lineage_ok S by blast
  have "tx_id ''g'' i r t \<noteq> ''g:planned''" for i r t
  proof
    assume "tx_id ''g'' i r t = ''g:planned''"
    then have "(''g'' @ '':'' @ i @ '':'' @ nat_str r) @ CHR '':'' # nat_str (status_code t) = ''g'' @ CHR '':'' # ''planned''"
      by (simp add: tx_id_def)
    from colon_split(1) [OF this nat_str_no_colon] show False by simp
  qed
  then have f: "fresh_transaction (cst_store cst) (tx_id ''g'' i r t)" for i r t using S by simp
  have "planned_set g = {''a''}" using S by (auto simp: planned_set_def)
  then have c: "g_revision g + card (planned_set g) \<le> u64_max" using S by (simp add: u64_max_def)
  have "\<not> starts_with ''execution-lineage:'' (node_stream_id ''g'' i)" for i
    by (simp add: node_stream_id_def starts_with_def)
  then show ?thesis unfolding ready_to_run_def
    using S lin f c by (auto simp: count_runner_def demo_blank sample_node_def dep_pairs_def dependency_edges_def)
qed


theorem interrupted_command_fenced_witness:
  "\<exists>cst st2 cst' e. command count_runner [] (\<lambda>_. st2) ''g'' (CmdCancel 1 ''stop'') cst = (cst', Inl e)"
proof -
  obtain cst g where s: "count_state {''g:planned''} Planned 1 cst g" using count_registered by blast
  have n: "nat_str 2 = ''2''" "nat_str (status_code Ready) = ''1''" "1 + 1 = (2 :: nat)" by (simp_all add: demo_nat_str)
  have L: "legal_transition Planned Ready" "1 < u64_max" by (simp_all add: legal_transition_def u64_max_def)
  obtain cst2 g2 where s2: "count_state {''g:a:2:1'', ''g:planned''} Ready 2 cst2 g2"
    using count_step [OF s L(1,2)] unfolding n by auto
  have i: "g_id g = ''g''" "g_revision g = 1" "g_id g2 = ''g''" "g_revision g2 = 2"
    and inv: "commit_inv count_env (cst2, g2)" using s s2 by (simp_all add: count_state_def)
  obtain cst1 where l1: "load_graph count_runner ''g'' cst = (cst1, Inr g)"
    using load_graph_current [OF count_ready [OF s]] i by auto
  obtain hot r where "load_snapshot (ce_codec count_env) True (ce_evict count_env (cst_hot cst2)) (g_id g2)
      (cst_store cst2) (cst_hot cst2) = (hot, r)" by fastforce
  note L = this load_snapshot_inv(1) [OF inv this]
  have l2: "load_graph count_runner ''g'' cst2 = (cst2 \<lparr> cst_hot := hot \<rparr>, Inr g2)"
    using L i by (simp add: load_graph_def count_runner_def map_err_def)
  have "interrupts (CmdCancel 1 ''stop'')" "g_revision g2 \<noteq> g_revision g" by (simp_all add: i)
  from interrupted_command_fenced [OF l1 l2 this, of "[]"] show ?thesis by blast
qed

theorem isolate_planned_refused_witness:
  "\<exists>cst cst1. isolate_node_failure count_runner ''g'' ''a'' ''panic'' cst
    = (cst1, Inl (RuCommit (CeTransition (Illegal ''a'' Planned Failed))))"
proof -
  obtain cst g where s: "count_state {''g:planned''} Planned 1 cst g" using count_registered by blast
  then have i: "g_id g = ''g''" "sm_get (g_node_statuses g) ''a'' = Some Planned" by (simp_all add: count_state_def)
  obtain cst1 where "load_graph count_runner ''g'' cst = (cst1, Inr g)"
    using load_graph_current [OF count_ready [OF s]] i by auto
  from isolate_planned_refused [OF this i(2)] show ?thesis by blast
qed

definition sample_envelope :: delivery_envelope where
  "sample_envelope = \<lparr> de_envelope_id = ''e'', de_revision = 1, de_objective_id = ''o'',
     de_pipeline_status = PipeCompleted, de_delivery_status = DeliverySatisfied, de_branch_terminals = [],
     de_verified_receipts = [], de_verified_artifacts = [], de_verified_effects = [], de_workspace_materializations = [],
     de_coverage = \<lparr> dc_required_obligation_ids = [], dc_satisfied_obligation_ids = [], dc_coverage_basis_points = 0 \<rparr>,
     de_unresolved = [], de_conflicts = [], de_cancellation = None,
     de_user_answer_contract = \<lparr> ua_language = ''en'', ua_format = HumanText, ua_detail = Concise,
       ua_conclusion_only = False, ua_evidence_preference = EvidenceNone, ua_citation_preference = CitationNone,
       ua_structural_constraints = [], ua_other_format = None \<rparr>,
     de_created_at_ms = 0 \<rparr>"

definition sample_outcome :: node_execution_outcome where
  "sample_outcome = (outcome_new \<lparr> r_status = Completed, r_result_ref = None, r_summary = None, r_evidence_refs = [],
     r_failure = None, r_usage = usage_default, r_finished_at_ms = 0 \<rparr>) \<lparr> oc_delivery_envelope := Some sample_envelope \<rparr>"


end
