(* ===== verification/Supervisor.thy ===== *)
theory Supervisor
  imports Runner
begin

text \<open>
  The execution supervisor, runtime/src/execution_core/supervisor.rs: one driver slot per graph, the
  gate that holds graphs back until recovery is done, the queue of messages, the dispatcher that runs
  at most one driver per graph, owned background work, the metrics and the drain at shutdown.

  The program is concurrent; a step of the model is what the code does under one lock or in one turn
  of the dispatcher.  A request therefore has two steps (bump the generation of the slot, then pass
  the gate and post the wake-up), and so has the cleanup of an idle slot: the code looks at the slot
  first and locks the table afterwards, so other steps can fall between the two.  What a driver or an
  owned task returns, and whether a caller still holds a reference to a slot, are arguments of the
  steps.  Slots are shared objects: one that was removed from the table stays visible to the callers
  that hold it and is kept in \<open>sv_removed\<close>.  A full main queue only delays its senders, so it has no
  bound here.  Calls after the shutdown has begun, the forced abort after
  its timeout and the admission permits are not modelled.
\<close>

section \<open>Driver slots\<close>

text \<open>\<open>ds_key\<close> stands for the identity of the shared object, which \<open>Arc::ptr_eq\<close> compares.\<close>
record driver_slot =
  ds_key :: nat
  ds_requested_generation :: nat
  ds_completed_generation :: nat
  ds_queued_at_ms :: nat
  ds_active :: bool
  ds_outcome :: "driver_outcome option"

definition slot_new :: "nat \<Rightarrow> driver_slot" where
  "slot_new key = \<lparr> ds_key = key, ds_requested_generation = 0, ds_completed_generation = 0, ds_queued_at_ms = 0,
     ds_active = False, ds_outcome = None \<rparr>"

definition slot_request :: "nat \<Rightarrow> driver_slot \<Rightarrow> driver_slot" where
  "slot_request now s = s \<lparr> ds_requested_generation := sat_add64 (ds_requested_generation s) 1,
     ds_queued_at_ms := (if ds_active s then ds_queued_at_ms s else now) \<rparr>"

definition slot_start :: "driver_slot \<Rightarrow> driver_slot \<times> nat" where
  "slot_start s = (s \<lparr> ds_active := True \<rparr>, ds_requested_generation s)"

definition slot_finish :: "nat \<Rightarrow> driver_outcome \<Rightarrow> driver_slot \<Rightarrow> driver_slot" where
  "slot_finish generation outcome s = s \<lparr> ds_completed_generation := generation, ds_active := False,
     ds_outcome := Some outcome \<rparr>"

definition has_newer_request :: "nat \<Rightarrow> driver_slot \<Rightarrow> bool" where
  "has_newer_request generation s = (generation < ds_requested_generation s)"

definition observation :: "nat \<Rightarrow> driver_slot \<Rightarrow> driver_outcome option" where
  "observation generation s = (if generation \<le> ds_completed_generation s then ds_outcome s else None)"

definition slot_idle :: "driver_slot \<Rightarrow> bool" where
  "slot_idle s = (\<not> ds_active s \<and> ds_requested_generation s \<le> ds_completed_generation s)"

section \<open>Metrics\<close>

record owner_report =
  or_submitted :: nat
  or_active :: nat
  or_completed :: nat
  or_failed :: nat
  or_aborted :: nat

definition owner_default :: owner_report where
  "owner_default = \<lparr> or_submitted = 0, or_active = 0, or_completed = 0, or_failed = 0, or_aborted = 0 \<rparr>"

record supervisor_metrics =
  mt_accepted :: nat
  mt_completed :: nat
  mt_failed :: nat
  mt_last_error :: "rstring option"
  mt_owners :: "(rstring, owner_report) smap"

definition metrics_new :: supervisor_metrics where
  "metrics_new = \<lparr> mt_accepted = 0, mt_completed = 0, mt_failed = 0, mt_last_error = None, mt_owners = [] \<rparr>"

definition owner_of :: "rstring \<Rightarrow> supervisor_metrics \<Rightarrow> owner_report" where
  "owner_of owner m = (case sm_get (mt_owners m) owner of Some r \<Rightarrow> r | None \<Rightarrow> owner_default)"

definition set_owner :: "rstring \<Rightarrow> owner_report \<Rightarrow> supervisor_metrics \<Rightarrow> supervisor_metrics" where
  "set_owner owner r m = m \<lparr> mt_owners := sm_insert owner r (mt_owners m) \<rparr>"

definition count_accepted :: "supervisor_metrics \<Rightarrow> supervisor_metrics" where
  "count_accepted m = m \<lparr> mt_accepted := wrap64 (mt_accepted m + 1) \<rparr>"

definition count_completed :: "supervisor_metrics \<Rightarrow> supervisor_metrics" where
  "count_completed m = m \<lparr> mt_completed := wrap64 (mt_completed m + 1) \<rparr>"

definition record_error :: "rstring \<Rightarrow> supervisor_metrics \<Rightarrow> supervisor_metrics" where
  "record_error e m = m \<lparr> mt_last_error := Some e, mt_failed := wrap64 (mt_failed m + 1) \<rparr>"

definition owner_submitted :: "rstring \<Rightarrow> supervisor_metrics \<Rightarrow> supervisor_metrics" where
  "owner_submitted owner m = (let r = owner_of owner m in set_owner owner
     (r \<lparr> or_submitted := sat_add64 (or_submitted r) 1, or_active := sat_add64 (or_active r) 1 \<rparr>) m)"

definition owner_finished :: "rstring \<Rightarrow> bool \<Rightarrow> supervisor_metrics \<Rightarrow> supervisor_metrics" where
  "owner_finished owner failed m = (let r = owner_of owner m; r' = r \<lparr> or_active := or_active r - 1 \<rparr> in
     set_owner owner (if failed then r' \<lparr> or_failed := sat_add64 (or_failed r') 1 \<rparr>
       else r' \<lparr> or_completed := sat_add64 (or_completed r') 1 \<rparr>) m)"

definition owner_aborted :: "rstring \<Rightarrow> supervisor_metrics \<Rightarrow> supervisor_metrics" where
  "owner_aborted owner m = (let r = owner_of owner m in set_owner owner
     (r \<lparr> or_active := or_active r - 1, or_aborted := sat_add64 (or_aborted r) 1 \<rparr>) m)"

definition graph_owner :: rstring where
  "graph_owner = ''graph''"

text \<open>What the dispatcher counts when a driver or an owned task is joined\<close>
fun count_driver :: "driver_outcome \<Rightarrow> supervisor_metrics \<Rightarrow> supervisor_metrics" where
  "count_driver (DoCompleted _) m = owner_finished graph_owner False (count_completed m)"
| "count_driver (DoFailed e) m = owner_finished graph_owner True (record_error e m)"
| "count_driver (DoAborted _) m = owner_aborted graph_owner m"

datatype owned_completion_status = OwCompleted | OwFailed | OwAborted

fun count_owned :: "rstring \<Rightarrow> owned_completion_status \<Rightarrow> rstring option \<Rightarrow> supervisor_metrics \<Rightarrow> supervisor_metrics" where
  "count_owned owner OwCompleted error m = count_completed (owner_finished owner False m)"
| "count_owned owner OwFailed error m = (case error of
     Some e \<Rightarrow> record_error e (owner_finished owner True m) | None \<Rightarrow> owner_finished owner True m)"
| "count_owned owner OwAborted error m = owner_aborted owner m"

section \<open>State\<close>

datatype supervisor_message = Wake rstring | Owned rstring

record supervisor =
  sv_slots :: "(rstring, driver_slot) smap"
  sv_next_key :: nat
  sv_removed :: "driver_slot list"
  sv_posting :: "rstring list"
  sv_queue :: "supervisor_message list"
  sv_reaper :: "rstring list"
  sv_capacity :: nat
  sv_active :: "(rstring, nat) smap"
  sv_owned :: "rstring list"
  sv_pending :: "rstring sset"
  sv_released :: bool
  sv_deferred :: "rstring sset"
  sv_removing :: "(rstring \<times> nat) list"
  sv_metrics :: supervisor_metrics

definition supervisor_new :: "nat \<Rightarrow> bool \<Rightarrow> supervisor" where
  "supervisor_new queue_capacity released = \<lparr> sv_slots = [], sv_next_key = 0, sv_removed = [], sv_posting = [],
     sv_queue = [], sv_reaper = [], sv_capacity = max queue_capacity 1, sv_active = [], sv_owned = [],
     sv_pending = [], sv_released = released, sv_deferred = [], sv_removing = [], sv_metrics = metrics_new \<rparr>"

definition sv_slot :: "rstring \<Rightarrow> supervisor \<Rightarrow> supervisor \<times> driver_slot" where
  "sv_slot graph_id sv = (case sm_get (sv_slots sv) graph_id of
     Some s \<Rightarrow> (sv, s)
   | None \<Rightarrow> let s = slot_new (sv_next_key sv) in
       (sv \<lparr> sv_slots := sm_insert graph_id s (sv_slots sv), sv_next_key := Suc (sv_next_key sv) \<rparr>, s))"

section \<open>Requests\<close>

text \<open>The two steps of \<open>enqueue\<close>; the first also gives the generation the caller waits for.\<close>
definition enqueue_request :: "nat \<Rightarrow> rstring \<Rightarrow> supervisor \<Rightarrow> supervisor \<times> nat" where
  "enqueue_request now graph_id sv = (case sv_slot graph_id sv of (sv1, s) \<Rightarrow>
     let s' = slot_request now s in
     (sv1 \<lparr> sv_slots := sm_insert graph_id s' (sv_slots sv1), sv_posting := graph_id # sv_posting sv1 \<rparr>,
      ds_requested_generation s'))"

definition enqueue_post :: "rstring \<Rightarrow> supervisor \<Rightarrow> supervisor" where
  "enqueue_post graph_id sv =
    (if graph_id \<notin> set (sv_posting sv) then sv
     else let sv1 = sv \<lparr> sv_posting := remove1 graph_id (sv_posting sv), sv_metrics := count_accepted (sv_metrics sv) \<rparr> in
       if \<not> sv_released sv then sv1 \<lparr> sv_deferred := ss_insert graph_id (sv_deferred sv) \<rparr>
       else sv1 \<lparr> sv_queue := sv_queue sv @ [Wake graph_id] \<rparr>)"

definition release_recovered_graphs :: "supervisor \<Rightarrow> supervisor \<times> nat" where
  "release_recovered_graphs sv =
    (if sv_released sv then (sv, 0)
     else (sv \<lparr> sv_released := True, sv_queue := sv_queue sv @ map Wake (sv_deferred sv), sv_deferred := [] \<rparr>,
       length (sv_deferred sv)))"

definition require_graph_producers_released :: "supervisor \<Rightarrow> (runner_error, unit) result" where
  "require_graph_producers_released sv = (if sv_released sv then Ok ()
     else Err (RuSupervisorUnavailable ''ordered Runtime recovery has not released graph execution''))"

definition admit_owned :: "rstring \<Rightarrow> supervisor \<Rightarrow> (runner_error, supervisor \<times> rstring) result" where
  "admit_owned owner sv = and_then (require_graph_producers_released sv) (\<lambda>_.
     Ok (sv \<lparr> sv_queue := sv_queue sv @ [Owned owner], sv_metrics := count_accepted (sv_metrics sv) \<rparr>,
       ''owned:'' @ owner @ '':'' @ nat_str (wrap64 (mt_accepted (sv_metrics sv) + 1))))"

text \<open>A full reaper queue drops the message (the aborted task is detached).\<close>
definition reap_join_handle :: "rstring \<Rightarrow> supervisor \<Rightarrow> supervisor" where
  "reap_join_handle owner sv =
    (if length (sv_reaper sv) < sv_capacity sv
     then sv \<lparr> sv_reaper := sv_reaper sv @ [owner], sv_metrics := count_accepted (sv_metrics sv) \<rparr>
     else sv)"

section \<open>The dispatcher\<close>

text \<open>\<open>prepare_worker\<close> with the start of the driver\<close>
definition start_driver :: "rstring \<Rightarrow> supervisor \<Rightarrow> supervisor" where
  "start_driver graph_id sv = (case sm_get (sv_slots sv) graph_id of
     None \<Rightarrow> sv
   | Some s \<Rightarrow> case slot_start s of (s', generation) \<Rightarrow>
       sv \<lparr> sv_slots := sm_insert graph_id s' (sv_slots sv), sv_active := sm_insert graph_id generation (sv_active sv),
         sv_metrics := owner_submitted graph_owner (sv_metrics sv) \<rparr>)"

definition spawn_owned_work :: "rstring \<Rightarrow> supervisor \<Rightarrow> supervisor" where
  "spawn_owned_work owner sv = sv \<lparr> sv_owned := owner # sv_owned sv, sv_metrics := owner_submitted owner (sv_metrics sv) \<rparr>"

fun dispatch_message :: "supervisor_message \<Rightarrow> supervisor \<Rightarrow> supervisor" where
  "dispatch_message (Wake graph_id) sv =
    (if sm_contains (sv_active sv) graph_id then sv \<lparr> sv_pending := ss_insert graph_id (sv_pending sv) \<rparr>
     else start_driver graph_id sv)"
| "dispatch_message (Owned owner) sv = spawn_owned_work owner sv"

definition dispatch_next :: "supervisor \<Rightarrow> supervisor" where
  "dispatch_next sv = (case sv_queue sv of [] \<Rightarrow> sv | msg # rest \<Rightarrow> dispatch_message msg (sv \<lparr> sv_queue := rest \<rparr>))"

definition dispatch_reaper :: "supervisor \<Rightarrow> supervisor" where
  "dispatch_reaper sv = (case sv_reaper sv of [] \<Rightarrow> sv | owner # rest \<Rightarrow> spawn_owned_work owner (sv \<lparr> sv_reaper := rest \<rparr>))"

text \<open>
  The cleanup of an idle slot: \<open>cleanup_check\<close> is the test that is made without the lock of the table
  (\<open>held\<close>: somebody else holds a reference), \<open>cleanup_remove\<close> the removal under the lock.  Dispatcher and
  waiters use the same two steps.
\<close>
definition cleanup_check :: "bool \<Rightarrow> rstring \<Rightarrow> driver_slot \<Rightarrow> supervisor \<Rightarrow> supervisor" where
  "cleanup_check held graph_id s sv =
    (if \<not> slot_idle s \<or> held then sv else sv \<lparr> sv_removing := (graph_id, ds_key s) # sv_removing sv \<rparr>)"

definition cleanup_remove :: "rstring \<Rightarrow> nat \<Rightarrow> supervisor \<Rightarrow> supervisor" where
  "cleanup_remove graph_id key sv =
    (if (graph_id, key) \<notin> set (sv_removing sv) then sv
     else let sv1 = sv \<lparr> sv_removing := remove1 (graph_id, key) (sv_removing sv) \<rparr> in
       (case sm_get (sv_slots sv) graph_id of
          Some s \<Rightarrow> if ds_key s = key
            then sv1 \<lparr> sv_slots := sm_remove graph_id (sv_slots sv), sv_removed := s # sv_removed sv \<rparr>
            else sv1
        | None \<Rightarrow> sv1))"

definition complete_driver :: "bool \<Rightarrow> driver_outcome \<Rightarrow> rstring \<Rightarrow> supervisor \<Rightarrow> supervisor" where
  "complete_driver held outcome graph_id sv = (case sm_get (sv_active sv) graph_id of
     None \<Rightarrow> sv
   | Some generation \<Rightarrow>
       let sv1 = sv \<lparr> sv_active := sm_remove graph_id (sv_active sv) \<rparr> in
       (case sm_get (sv_slots sv) graph_id of
          None \<Rightarrow> sv1
        | Some s \<Rightarrow>
            let s1 = slot_finish generation outcome s;
                sv2 = sv1 \<lparr> sv_slots := sm_insert graph_id s1 (sv_slots sv), sv_metrics := count_driver outcome (sv_metrics sv),
                  sv_pending := filter (\<lambda>i. i \<noteq> graph_id) (sv_pending sv) \<rparr>
            in if graph_id \<in> set (sv_pending sv) \<or> has_newer_request generation s1
               then start_driver graph_id sv2 else cleanup_check held graph_id s1 sv2))"

definition complete_owned :: "rstring \<Rightarrow> owned_completion_status \<Rightarrow> rstring option \<Rightarrow> supervisor \<Rightarrow> supervisor" where
  "complete_owned owner status error sv =
    (if owner \<notin> set (sv_owned sv) then sv
     else sv \<lparr> sv_owned := remove1 owner (sv_owned sv), sv_metrics := count_owned owner status error (sv_metrics sv) \<rparr>)"

text \<open>A waiter that has seen its outcome tries to clean up the slot it holds.\<close>
definition waiter_cleanup :: "bool \<Rightarrow> rstring \<Rightarrow> supervisor \<Rightarrow> supervisor" where
  "waiter_cleanup held graph_id sv = (case sm_get (sv_slots sv) graph_id of
     Some s \<Rightarrow> cleanup_check held graph_id s sv | None \<Rightarrow> sv)"

section \<open>Shutdown\<close>

definition drain_owned_message :: "rstring \<Rightarrow> supervisor_metrics \<Rightarrow> supervisor_metrics" where
  "drain_owned_message owner m = owner_aborted owner (owner_submitted owner m)"

fun drain_message :: "supervisor_message \<Rightarrow> supervisor_metrics \<Rightarrow> supervisor_metrics" where
  "drain_message (Wake _) m = m"
| "drain_message (Owned owner) m = drain_owned_message owner m"

text \<open>A driver joined while draining: the slot is finished, no new driver is started.\<close>
definition drain_driver :: "(rstring \<Rightarrow> driver_outcome) \<Rightarrow> rstring \<times> nat \<Rightarrow> supervisor \<Rightarrow> supervisor" where
  "drain_driver outcomes = (\<lambda>(graph_id, generation) sv. sv \<lparr>
     sv_slots := (case sm_get (sv_slots sv) graph_id of
       Some s \<Rightarrow> sm_insert graph_id (slot_finish generation (outcomes graph_id) s) (sv_slots sv) | None \<Rightarrow> sv_slots sv),
     sv_metrics := count_driver (outcomes graph_id) (sv_metrics sv) \<rparr>)"

definition drain_slot :: "driver_slot \<Rightarrow> driver_slot" where
  "drain_slot s = (if slot_idle s then s
     else slot_finish (ds_requested_generation s) (DoAborted ''execution cancelled during shutdown'') s)"

definition drain ::
  "(rstring \<Rightarrow> driver_outcome) \<Rightarrow> (rstring \<Rightarrow> owned_completion_status \<times> rstring option) \<Rightarrow> supervisor \<Rightarrow> supervisor" where
  "drain outcomes statuses sv =
    (let sv1 = sv \<lparr> sv_queue := [], sv_reaper := [],
           sv_metrics := fold drain_owned_message (sv_reaper sv) (fold drain_message (sv_queue sv) (sv_metrics sv)) \<rparr>;
         sv2 = fold (drain_driver outcomes) (sv_active sv) sv1
     in sv2 \<lparr> sv_active := [], sv_owned := [],
          sv_metrics := fold (\<lambda>owner. case statuses owner of (status, error) \<Rightarrow> count_owned owner status error)
            (sv_owned sv) (sv_metrics sv2),
          sv_slots := [], sv_removed := map drain_slot (sm_values (sv_slots sv2)) @ sv_removed sv2 \<rparr>)"

section \<open>Observations\<close>

record submission_capacity_snapshot =
  sc_active_graphs :: nat
  sc_queued_graphs :: nat
  sc_available_slots :: nat

definition queued_slot :: "driver_slot \<Rightarrow> bool" where
  "queued_slot s = (\<not> ds_active s \<and> ds_completed_generation s < ds_requested_generation s)"

definition submission_capacity :: "nat \<Rightarrow> supervisor \<Rightarrow> submission_capacity_snapshot" where
  "submission_capacity permits sv = \<lparr> sc_active_graphs = length (filter ds_active (sm_values (sv_slots sv))),
     sc_queued_graphs = length (filter queued_slot (sm_values (sv_slots sv))), sc_available_slots = permits \<rparr>"

definition oldest_queued_age_ms :: "nat \<Rightarrow> supervisor \<Rightarrow> nat" where
  "oldest_queued_age_ms now sv = (case map ds_queued_at_ms (filter queued_slot (sm_values (sv_slots sv))) of
     [] \<Rightarrow> 0 | t # ts \<Rightarrow> now - fold min ts t)"

fun command_advances :: "execution_graph_command \<Rightarrow> bool" where
  "command_advances (CmdSubmitApproval _ _ d) = ad_approved d"
| "command_advances (CmdResume _) = True"
| "command_advances (CmdAdvance _) = True"
| "command_advances (CmdResolveExternal _ _ _ _) = True"
| "command_advances _ = False"

end
