(* ===== verification/Supervisor_Properties.thy ===== *)
theory Supervisor_Properties
  imports Supervisor
begin

text \<open>
  Correctness of the supervisor over every interleaving of its steps: no request is lost, the metrics
  of every owner add up, and a shutdown answers every request.  The first fails if a request or a
  wake-up falls between the two halves of a slot cleanup, which the code does not exclude.
\<close>

section \<open>Interleavings\<close>

datatype sv_action =
  ActRequest nat rstring
| ActPost rstring
| ActRelease
| ActOwned rstring
| ActReap rstring
| ActDispatch
| ActDispatchReaper
| ActComplete bool driver_outcome rstring
| ActCompleteOwned rstring owned_completion_status "rstring option"
| ActWaiterCleanup bool rstring
| ActRemove rstring nat

fun sv_exec :: "sv_action \<Rightarrow> supervisor \<Rightarrow> supervisor" where
  "sv_exec (ActRequest now i) sv = fst (enqueue_request now i sv)"
| "sv_exec (ActPost i) sv = enqueue_post i sv"
| "sv_exec ActRelease sv = fst (release_recovered_graphs sv)"
| "sv_exec (ActOwned owner) sv = (case admit_owned owner sv of Inl _ \<Rightarrow> sv | Inr (sv', _) \<Rightarrow> sv')"
| "sv_exec (ActReap owner) sv = reap_join_handle owner sv"
| "sv_exec ActDispatch sv = dispatch_next sv"
| "sv_exec ActDispatchReaper sv = dispatch_reaper sv"
| "sv_exec (ActComplete held outcome i) sv = complete_driver held outcome i sv"
| "sv_exec (ActCompleteOwned owner status error) sv = complete_owned owner status error sv"
| "sv_exec (ActWaiterCleanup held i) sv = waiter_cleanup held i sv"
| "sv_exec (ActRemove i key) sv = cleanup_remove i key sv"

text \<open>The graph whose slot a step requests or starts; a step is undisturbed if no cleanup of that slot is half done.\<close>
fun touches :: "sv_action \<Rightarrow> supervisor \<Rightarrow> rstring option" where
  "touches (ActRequest _ i) sv = Some i"
| "touches ActDispatch sv = (case sv_queue sv of Wake i # _ \<Rightarrow> Some i | _ \<Rightarrow> None)"
| "touches _ sv = None"

definition undisturbed :: "sv_action \<Rightarrow> supervisor \<Rightarrow> bool" where
  "undisturbed a sv = (case touches a sv of None \<Rightarrow> True | Some i \<Rightarrow> i \<notin> fst ` set (sv_removing sv))"

inductive sv_reachable :: "supervisor \<Rightarrow> bool" where
  start: "sv_reachable (supervisor_new queue_capacity released)"
| step: "sv_reachable sv \<Longrightarrow> undisturbed a sv \<Longrightarrow> sv_reachable (sv_exec a sv)"

section \<open>Requests are served\<close>

definition waiting_slot :: "driver_slot \<Rightarrow> bool" where
  "waiting_slot s = (ds_completed_generation s < ds_requested_generation s)"

definition answered :: "driver_slot \<Rightarrow> bool" where
  "answered s \<longleftrightarrow> (0 < ds_completed_generation s \<longrightarrow> ds_outcome s \<noteq> None)"

text \<open>A wake-up for the graph is still to come.\<close>
definition coming :: "supervisor \<Rightarrow> rstring \<Rightarrow> bool" where
  "coming sv i \<longleftrightarrow> i \<in> set (sv_deferred sv) \<or> Wake i \<in> set (sv_queue sv) \<or> i \<in> set (sv_posting sv)"

text \<open>
  The invariant of one graph, from its slot, its driver, whether a wake-up is to come and whether a
  cleanup is half done: a waiting slot has a wake-up or a driver, the table of drivers agrees with the
  slot, and a slot under cleanup is idle.
\<close>
definition served :: "driver_slot option \<Rightarrow> nat option \<Rightarrow> bool \<Rightarrow> bool \<Rightarrow> bool" where
  "served slot driver wake cleaning \<longleftrightarrow> (case slot of
     None \<Rightarrow> driver = None
   | Some s \<Rightarrow> answered s \<and> ds_requested_generation s \<le> u64_max \<and> (waiting_slot s \<longrightarrow> wake \<or> driver \<noteq> None) \<and> (cleaning \<longrightarrow> slot_idle s)
       \<and> (case driver of None \<Rightarrow> \<not> ds_active s | Some n \<Rightarrow> ds_active s \<and> n \<le> ds_requested_generation s))"

definition served_at :: "supervisor \<Rightarrow> rstring \<Rightarrow> bool" where
  "served_at sv i = served (sm_get (sv_slots sv) i) (sm_get (sv_active sv) i) (coming sv i) (i \<in> fst ` set (sv_removing sv))"

definition sv_inv :: "supervisor \<Rightarrow> bool" where
  "sv_inv sv \<longleftrightarrow> sm_wf (sv_slots sv) \<and> sm_wf (sv_active sv) \<and> (sv_released sv \<longrightarrow> sv_deferred sv = [])
     \<and> (\<forall>i. served_at sv i) \<and> (\<forall>s\<in>set (sv_removed sv). \<not> waiting_slot s \<and> answered s)"

lemmas slot_defs = slot_new_def slot_request_def slot_start_def slot_finish_def slot_idle_def
  has_newer_request_def waiting_slot_def answered_def

lemma sv_invI:
  assumes "sv_inv sv" "sm_wf (sv_slots sv')" "sm_wf (sv_active sv')"
    and "sv_released sv' \<longrightarrow> sv_deferred sv' = []"
    and "\<And>j. served_at sv j \<Longrightarrow> served_at sv' j"
    and "\<forall>s\<in>set (sv_removed sv') - set (sv_removed sv). \<not> waiting_slot s \<and> answered s"
  shows "sv_inv sv'"
  using assms unfolding sv_inv_def by blast

lemma sv_invD:
  assumes "sv_inv sv"
  shows "sm_wf (sv_slots sv)" "sm_wf (sv_active sv)" "sv_released sv \<longrightarrow> sv_deferred sv = []" "served_at sv i"
  using assms by (simp_all add: sv_inv_def)

text \<open>A step that keeps slots, drivers and half-done cleanups and loses no wake-up\<close>
lemma sv_inv_frame:
  assumes "sv_inv sv" "sv_slots sv' = sv_slots sv" "sv_active sv' = sv_active sv" "sv_removed sv' = sv_removed sv"
    and "sv_removing sv' = sv_removing sv" "sv_released sv' \<longrightarrow> sv_deferred sv' = []" "\<And>i. coming sv i \<Longrightarrow> coming sv' i"
  shows "sv_inv sv'"
proof (rule sv_invI [OF assms(1)])
  fix j
  assume "served_at sv j"
  then show "served_at sv' j" using assms(2-5) assms(7) [of j]
    by (auto simp: served_at_def served_def split: option.splits)
qed (use assms in \<open>auto simp: sv_inv_def\<close>)

lemma enqueue_request_inv:
  assumes "sv_inv sv" "i \<notin> fst ` set (sv_removing sv)"
  shows "sv_inv (fst (enqueue_request now i sv))"
proof (rule sv_invI [OF assms(1)])
  fix j
  assume S: "served_at sv j"
  show "served_at (fst (enqueue_request now i sv)) j"
  proof (cases "j = i")
    case True
    then show ?thesis using S assms(2) sv_invD(1) [OF assms(1)]
      by (auto simp: served_at_def served_def coming_def enqueue_request_def sv_slot_def slot_defs Let_def sat_add64_def
          split: option.splits)
  next
    case False
    then show ?thesis using S sv_invD(1) [OF assms(1)]
      by (auto simp: served_at_def coming_def enqueue_request_def sv_slot_def Let_def split: option.splits)
  qed
qed (use sv_invD [OF assms(1)] in \<open>auto simp: enqueue_request_def sv_slot_def Let_def split: option.splits\<close>)

lemma enqueue_post_inv:
  assumes "sv_inv sv"
  shows "sv_inv (enqueue_post i sv)"
  by (rule sv_inv_frame [OF assms])
    (use sv_invD(3) [OF assms] in \<open>auto simp: enqueue_post_def coming_def Let_def in_set_remove1\<close>)

lemma gate_release_inv:
  assumes "sv_inv sv"
  shows "sv_inv (fst (release_recovered_graphs sv))"
  by (rule sv_inv_frame [OF assms])
    (use sv_invD(3) [OF assms] in \<open>auto simp: release_recovered_graphs_def coming_def\<close>)

lemma owned_inv:
  assumes "sv_inv sv"
  shows "sv_inv (sv_exec (ActOwned owner) sv)" "sv_inv (reap_join_handle owner sv)" "sv_inv (dispatch_reaper sv)"
    "sv_inv (complete_owned owner status error sv)"
  by (rule sv_inv_frame [OF assms], use sv_invD(3) [OF assms] in \<open>auto simp: admit_owned_def reap_join_handle_def
    dispatch_reaper_def spawn_owned_work_def complete_owned_def require_graph_producers_released_def coming_def
    split: list.splits\<close>)+

lemma start_driver_served:
  assumes "sm_wf (sv_slots sv)" "sm_wf (sv_active sv)"
    and "j \<noteq> i \<Longrightarrow> served_at sv j"
    and "sm_get (sv_active sv) i = None" "i \<notin> fst ` set (sv_removing sv)"
    and "\<And>s. sm_get (sv_slots sv) i = Some s \<Longrightarrow> answered s \<and> ds_requested_generation s \<le> u64_max"
  shows "served_at (start_driver i sv) j"
proof (cases "j = i")
  case True
  then show ?thesis using assms(1,2,4-6)
    by (auto simp: served_at_def served_def start_driver_def slot_start_def answered_def split: option.splits)
next
  case False
  then show ?thesis using assms(1-3)
    by (auto simp: served_at_def coming_def start_driver_def slot_start_def split: option.splits)
qed

lemma start_driver_frame [simp]:
  "sv_removed (start_driver i sv) = sv_removed sv" "sv_released (start_driver i sv) = sv_released sv"
  "sv_deferred (start_driver i sv) = sv_deferred sv" "sv_removing (start_driver i sv) = sv_removing sv"
  "sm_wf (sv_slots sv) \<Longrightarrow> sm_wf (sv_slots (start_driver i sv))"
  "sm_wf (sv_active sv) \<Longrightarrow> sm_wf (sv_active (start_driver i sv))"
  by (auto simp: start_driver_def slot_start_def split: option.splits)

lemma dispatch_wake_inv:
  assumes "sv_inv sv" "sv_queue sv = Wake i # rest" "i \<notin> fst ` set (sv_removing sv)"
  shows "sv_inv (dispatch_message (Wake i) (sv \<lparr> sv_queue := rest \<rparr>))"
proof (rule sv_invI [OF assms(1)])
  note D = sv_invD [OF assms(1)]
  fix j
  assume S: "served_at sv j"
  have other: "j \<noteq> i \<Longrightarrow> served_at (sv \<lparr> sv_queue := rest \<rparr>) j"
    using S assms(2) by (auto simp: served_at_def served_def coming_def split: option.splits)
  have answ: "answered s \<and> ds_requested_generation s \<le> u64_max" if "sm_get (sv_slots sv) i = Some s" for s
    using that D(4) [of i] by (simp add: served_at_def served_def)
  show "served_at (dispatch_message (Wake i) (sv \<lparr> sv_queue := rest \<rparr>)) j"
  proof (cases "sm_get (sv_active sv) i")
    case None
    then show ?thesis using D answ assms(3) other
      by (auto simp: sm_contains_get intro!: start_driver_served)
  next
    case (Some n)
    then show ?thesis using S assms(2) other
      by (cases "j = i") (auto simp: sm_contains_get served_at_def served_def coming_def split: option.splits)
  qed
qed (use sv_invD [OF assms(1)] in \<open>auto simp: start_driver_def slot_start_def split: option.splits\<close>)

lemma dispatch_next_inv:
  assumes "sv_inv sv" "undisturbed ActDispatch sv"
  shows "sv_inv (dispatch_next sv)"
proof (cases "sv_queue sv")
  case Nil
  then show ?thesis using assms(1) by (simp add: dispatch_next_def)
next
  case (Cons msg rest)
  show ?thesis
  proof (cases msg)
    case (Wake i)
    then show ?thesis using dispatch_wake_inv [OF assms(1), of i rest] assms(2) Cons
      by (simp add: dispatch_next_def undisturbed_def)
  next
    case (Owned owner)
    show ?thesis by (rule sv_inv_frame [OF assms(1)])
      (use Cons Owned sv_invD(3) [OF assms(1)] in \<open>auto simp: dispatch_next_def spawn_owned_work_def coming_def\<close>)
  qed
qed

lemma cleanup_check_inv:
  assumes "sv_inv sv" "sm_get (sv_slots sv) i = Some s"
  shows "sv_inv (cleanup_check held i s sv)"
proof (rule sv_invI [OF assms(1)])
  fix j
  assume "served_at sv j"
  then show "served_at (cleanup_check held i s sv) j" using assms(2)
    by (cases "j = i") (auto simp: served_at_def served_def coming_def cleanup_check_def split: option.splits)
qed (use sv_invD [OF assms(1)] in \<open>auto simp: cleanup_check_def\<close>)

lemma cleanup_remove_inv:
  assumes "sv_inv sv"
  shows "sv_inv (cleanup_remove i key sv)"
proof (rule sv_invI [OF assms])
  note D = sv_invD [OF assms]
  fix j
  assume S: "served_at sv j"
  have other: "k \<in> fst ` set (remove1 (i, key) xs) \<Longrightarrow> k \<in> fst ` set xs" for k and xs :: "(rstring \<times> nat) list"
    using set_remove1_subset [of "(i, key)" xs] by auto
  show "served_at (cleanup_remove i key sv) j"
  proof (cases "(i, key) \<in> set (sv_removing sv)")
    case False
    then show ?thesis using S by (simp add: cleanup_remove_def)
  next
    case True
    then have "i \<in> fst ` set (sv_removing sv)" by force
    then show ?thesis using S True D(1) other [of j "sv_removing sv"]
      by (cases "j = i")
        (auto simp: served_at_def served_def coming_def cleanup_remove_def slot_idle_def Let_def split: option.splits)
  qed
next
  have "served_at sv i" by (rule sv_invD(4) [OF assms])
  moreover have "(i, key) \<in> set (sv_removing sv) \<Longrightarrow> i \<in> fst ` set (sv_removing sv)" by force
  ultimately show "\<forall>s\<in>set (sv_removed (cleanup_remove i key sv)) - set (sv_removed sv). \<not> waiting_slot s \<and> answered s"
    by (auto simp: cleanup_remove_def Let_def served_at_def served_def slot_idle_def waiting_slot_def split: option.splits)
qed (use sv_invD [OF assms] in \<open>auto simp: cleanup_remove_def Let_def split: option.splits\<close>)

lemma complete_driver_inv:
  assumes "sv_inv sv"
  shows "sv_inv (complete_driver held outcome i sv)"
proof (cases "sm_get (sv_active sv) i")
  case None
  then show ?thesis using assms by (simp add: complete_driver_def)
next
  case (Some n)
  note D = sv_invD [OF assms]
  obtain s where s: "sm_get (sv_slots sv) i = Some s" "ds_active s" "n \<le> ds_requested_generation s"
    "ds_requested_generation s \<le> u64_max" "i \<notin> fst ` set (sv_removing sv)"
    using D(4) [of i] Some by (auto simp: served_at_def served_def slot_idle_def split: option.splits)
  let ?s1 = "slot_finish n outcome s"
  let ?sv2 = "sv \<lparr> sv_active := sm_remove i (sv_active sv), sv_slots := sm_insert i ?s1 (sv_slots sv),
    sv_metrics := count_driver outcome (sv_metrics sv), sv_pending := filter (\<lambda>j. j \<noteq> i) (sv_pending sv) \<rparr>"
  have other: "served_at ?sv2 j" if "j \<noteq> i" for j
    using D(1,2) D(4) [of j] that by (auto simp: served_at_def coming_def)
  have ok: "answered ?s1" by (simp add: answered_def slot_finish_def)
  show ?thesis
  proof (cases "i \<in> set (sv_pending sv) \<or> has_newer_request n ?s1")
    case True
    have "served_at (start_driver i ?sv2) j" for j
      by (rule start_driver_served) (use D(1,2) other s ok in \<open>auto simp: slot_finish_def\<close>)
    then have "sv_inv (start_driver i ?sv2)" by (intro sv_invI [OF assms]) (use D in auto)
    then show ?thesis using Some s(1) True by (simp add: complete_driver_def Let_def)
  next
    case False
    have "served_at ?sv2 i" using False D(1,2) s(3-5) ok
      by (auto simp: served_at_def served_def waiting_slot_def has_newer_request_def slot_finish_def)
    then have "served_at ?sv2 j" for j using other by (cases "j = i") auto
    then have "sv_inv ?sv2" by (intro sv_invI [OF assms]) (use D in auto)
    then have "sv_inv (cleanup_check held i ?s1 ?sv2)" by (rule cleanup_check_inv) (use D(1) in simp)
    then show ?thesis using Some s(1) False by (simp add: complete_driver_def Let_def)
  qed
qed

lemma waiter_cleanup_inv: "sv_inv sv \<Longrightarrow> sv_inv (waiter_cleanup held i sv)"
  by (auto simp: waiter_cleanup_def cleanup_check_inv split: option.split)

lemma sv_reachable_inv: "sv_reachable sv \<Longrightarrow> sv_inv sv"
proof (induction rule: sv_reachable.induct)
  case (start queue_capacity released)
  show ?case by (simp add: sv_inv_def served_at_def served_def supervisor_new_def)
next
  case (step sv a)
  show ?case
  proof (cases a)
    case (ActRequest now i)
    then show ?thesis using step enqueue_request_inv [of sv i now] by (simp add: undisturbed_def)
  next
    case ActDispatch
    then show ?thesis using step dispatch_next_inv by simp
  qed (use step.IH in \<open>auto simp del: sv_exec.simps(4) simp: enqueue_post_inv gate_release_inv owned_inv complete_driver_inv
      waiter_cleanup_inv cleanup_remove_inv\<close>)
qed

section \<open>Metrics add up\<close>

definition running_tasks :: "supervisor \<Rightarrow> rstring \<Rightarrow> nat" where
  "running_tasks sv owner = count_list (sv_owned sv) owner + (if owner = graph_owner then length (sv_active sv) else 0)"

text \<open>The balance of one owner, as long as its counter of submissions has not saturated\<close>
definition balanced :: "nat \<Rightarrow> owner_report \<Rightarrow> bool" where
  "balanced tasks r \<longleftrightarrow> (or_submitted r < u64_max \<longrightarrow> or_active r = tasks
     \<and> or_submitted r = or_active r + or_completed r + or_failed r + or_aborted r)"

definition metrics_inv :: "supervisor \<Rightarrow> bool" where
  "metrics_inv sv \<longleftrightarrow> sm_wf (mt_owners (sv_metrics sv))
     \<and> (\<forall>owner. balanced (running_tasks sv owner) (owner_of owner (sv_metrics sv)))"

lemma owner_of_simps [simp]:
  "owner_of o1 (count_accepted m) = owner_of o1 m" "owner_of o1 (count_completed m) = owner_of o1 m"
  "owner_of o1 (record_error e m) = owner_of o1 m"
  "sm_wf (mt_owners m) \<Longrightarrow> owner_of o1 (set_owner o2 r m) = (if o1 = o2 then r else owner_of o1 m)"
  by (simp_all add: owner_of_def count_accepted_def count_completed_def record_error_def set_owner_def)

lemma metrics_wf [simp]:
  "mt_owners (count_accepted m) = mt_owners m" "mt_owners (count_completed m) = mt_owners m"
  "mt_owners (record_error e m) = mt_owners m"
  "sm_wf (mt_owners m) \<Longrightarrow> sm_wf (mt_owners (set_owner o2 r m))"
  by (simp_all add: count_accepted_def count_completed_def record_error_def set_owner_def)

lemma owner_ops_wf [simp]:
  assumes "sm_wf (mt_owners m)"
  shows "sm_wf (mt_owners (owner_submitted o2 m))" "sm_wf (mt_owners (owner_finished o2 f m))"
    "sm_wf (mt_owners (owner_aborted o2 m))"
  using assms by (simp_all add: owner_submitted_def owner_finished_def owner_aborted_def Let_def)

lemma count_driver_wf [simp]: "sm_wf (mt_owners m) \<Longrightarrow> sm_wf (mt_owners (count_driver d m))"
  by (cases d) auto

lemma count_owned_wf [simp]: "sm_wf (mt_owners m) \<Longrightarrow> sm_wf (mt_owners (count_owned o2 st e m))"
  by (cases st) (auto split: option.split)

text \<open>A task that starts, and one that ends in any way\<close>
lemma balanced_submitted:
  assumes "sm_wf (mt_owners m)" "balanced t (owner_of o1 m)"
  shows "balanced (t + (if o1 = o2 then 1 else 0)) (owner_of o1 (owner_submitted o2 m))"
  using assms by (auto simp: owner_submitted_def Let_def balanced_def sat_add64_def)

lemma balanced_ended:
  assumes "sm_wf (mt_owners m)" "balanced t (owner_of o1 m)" "o1 = o2 \<Longrightarrow> 0 < t"
  shows "balanced (t - (if o1 = o2 then 1 else 0)) (owner_of o1 (owner_finished o2 f m))"
    "balanced (t - (if o1 = o2 then 1 else 0)) (owner_of o1 (owner_aborted o2 m))"
  using assms by (auto simp: owner_finished_def owner_aborted_def Let_def balanced_def sat_add64_def)

lemma balanced_driver:
  assumes "sm_wf (mt_owners m)" "balanced t (owner_of o1 m)" "o1 = graph_owner \<Longrightarrow> 0 < t"
  shows "balanced (t - (if o1 = graph_owner then 1 else 0)) (owner_of o1 (count_driver d m))"
  using assms balanced_ended [of "count_completed m" t o1 graph_owner] balanced_ended [of m t o1 graph_owner]
    balanced_ended [of "record_error e m" t o1 graph_owner for e]
  by (cases d) auto

lemma balanced_owned:
  assumes "sm_wf (mt_owners m)" "balanced t (owner_of o1 m)" "o1 = o2 \<Longrightarrow> 0 < t"
  shows "balanced (t - (if o1 = o2 then 1 else 0)) (owner_of o1 (count_owned o2 st e m))"
  using assms balanced_ended [of m t o1 o2] by (cases st) (auto split: option.split)

text \<open>A step that starts and ends nothing\<close>
lemma metrics_frame:
  assumes "metrics_inv sv" "sv_active sv' = sv_active sv" "sv_owned sv' = sv_owned sv"
    and "sv_metrics sv' \<in> {sv_metrics sv, count_accepted (sv_metrics sv)}"
  shows "metrics_inv sv'"
proof -
  have "running_tasks sv' = running_tasks sv" using assms(2,3) by (simp add: running_tasks_def fun_eq_iff)
  then show ?thesis using assms(1,4) by (auto simp: metrics_inv_def)
qed

lemma metrics_submitted:
  assumes "metrics_inv sv" "sv_metrics sv' = owner_submitted owner (sv_metrics sv)"
    and "\<And>o1. running_tasks sv' o1 = running_tasks sv o1 + (if o1 = owner then 1 else 0)"
  shows "metrics_inv sv'"
  using assms balanced_submitted [of "sv_metrics sv" _ _ owner] by (simp add: metrics_inv_def)

lemma metrics_start:
  assumes "metrics_inv sv" "sm_wf (sv_active sv)" "sm_get (sv_active sv) i = None"
  shows "metrics_inv (start_driver i sv)"
proof (cases "sm_get (sv_slots sv) i")
  case (Some s)
  show ?thesis by (rule metrics_submitted [OF assms(1), where owner = graph_owner])
    (use Some assms(2,3) in \<open>simp_all add: start_driver_def slot_start_def running_tasks_def sm_insert_absent_length\<close>)
qed (use assms in \<open>simp add: start_driver_def\<close>)

lemma metrics_spawn: "metrics_inv sv \<Longrightarrow> metrics_inv (spawn_owned_work owner sv)"
  by (erule metrics_submitted [where owner = owner]) (simp_all add: spawn_owned_work_def running_tasks_def)

lemma metrics_complete_owned:
  assumes "metrics_inv sv"
  shows "metrics_inv (complete_owned owner status error sv)"
proof (cases "owner \<in> set (sv_owned sv)")
  case True
  then have pos: "0 < count_list (sv_owned sv) owner" using count_list_0_iff [of "sv_owned sv" owner] by linarith
  have "balanced (running_tasks (complete_owned owner status error sv) o1)
      (owner_of o1 (sv_metrics (complete_owned owner status error sv)))" for o1
  proof -
    have "balanced (running_tasks sv o1 - (if o1 = owner then 1 else 0))
        (owner_of o1 (count_owned owner status error (sv_metrics sv)))"
      by (rule balanced_owned) (use assms pos in \<open>auto simp: metrics_inv_def running_tasks_def\<close>)
    moreover have "running_tasks (complete_owned owner status error sv) o1
        = running_tasks sv o1 - (if o1 = owner then 1 else 0)"
      using True pos by (simp add: running_tasks_def complete_owned_def count_list_remove1)
    ultimately show ?thesis using True by (simp add: complete_owned_def)
  qed
  then show ?thesis using assms True by (simp add: metrics_inv_def complete_owned_def)
qed (use assms in \<open>simp add: complete_owned_def\<close>)

lemma metrics_complete_driver:
  assumes "metrics_inv sv" "sv_inv sv"
  shows "metrics_inv (complete_driver held outcome i sv)"
proof (cases "sm_get (sv_active sv) i")
  case (Some n)
  note D = sv_invD [OF assms(2)]
  obtain s where s: "sm_get (sv_slots sv) i = Some s"
    using D(4) [of i] Some by (auto simp: served_at_def served_def split: option.splits)
  let ?s1 = "slot_finish n outcome s"
  let ?sv2 = "sv \<lparr> sv_active := sm_remove i (sv_active sv), sv_slots := sm_insert i ?s1 (sv_slots sv),
    sv_metrics := count_driver outcome (sv_metrics sv), sv_pending := filter (\<lambda>j. j \<noteq> i) (sv_pending sv) \<rparr>"
  have len: "length (sv_active sv) = Suc (length (sm_remove i (sv_active sv)))"
    using sm_remove_present_length [OF D(2) Some] by simp
  have "balanced (running_tasks ?sv2 o1) (owner_of o1 (sv_metrics ?sv2))" for o1
  proof -
    have "balanced (running_tasks sv o1 - (if o1 = graph_owner then 1 else 0))
        (owner_of o1 (count_driver outcome (sv_metrics sv)))"
      by (rule balanced_driver) (use assms(1) len in \<open>auto simp: metrics_inv_def running_tasks_def\<close>)
    then show ?thesis using len by (cases "o1 = graph_owner") (simp_all add: running_tasks_def)
  qed
  then have M: "metrics_inv ?sv2" using assms(1) by (simp add: metrics_inv_def)
  have "metrics_inv (start_driver i ?sv2)" by (rule metrics_start [OF M]) (use D(2) in auto)
  moreover have "metrics_inv (cleanup_check held i ?s1 ?sv2)"
    by (rule metrics_frame [OF M]) (auto simp: cleanup_check_def)
  ultimately show ?thesis using Some s by (simp add: complete_driver_def Let_def)
qed (use assms in \<open>simp add: complete_driver_def\<close>)

lemma metrics_dispatch:
  assumes "metrics_inv sv" "sv_inv sv"
  shows "metrics_inv (dispatch_next sv)"
proof (cases "sv_queue sv")
  case (Cons msg rest)
  have M: "metrics_inv (sv \<lparr> sv_queue := rest \<rparr>)" by (rule metrics_frame [OF assms(1)]) auto
  show ?thesis
  proof (cases msg)
    case (Wake i)
    have "metrics_inv (sv \<lparr> sv_queue := rest, sv_pending := ss_insert i (sv_pending sv) \<rparr>)"
      by (rule metrics_frame [OF assms(1)]) auto
    then show ?thesis using Cons Wake metrics_start [OF M] sv_invD(2) [OF assms(2)]
      by (auto simp: dispatch_next_def sm_contains_get)
  next
    case (Owned owner)
    then show ?thesis using Cons metrics_spawn [OF M] by (simp add: dispatch_next_def)
  qed
qed (use assms in \<open>simp add: dispatch_next_def\<close>)

lemma metrics_reaper:
  assumes "metrics_inv sv"
  shows "metrics_inv (dispatch_reaper sv)"
proof (cases "sv_reaper sv")
  case (Cons owner rest)
  have "metrics_inv (sv \<lparr> sv_reaper := rest \<rparr>)" by (rule metrics_frame [OF assms]) auto
  then show ?thesis using Cons metrics_spawn by (simp add: dispatch_reaper_def)
qed (use assms in \<open>simp add: dispatch_reaper_def\<close>)

lemma metrics_steps:
  assumes "metrics_inv sv"
  shows "metrics_inv (fst (enqueue_request now i sv))" "metrics_inv (enqueue_post i sv)"
    "metrics_inv (fst (release_recovered_graphs sv))" "metrics_inv (sv_exec (ActOwned owner) sv)"
    "metrics_inv (reap_join_handle owner sv)" "metrics_inv (waiter_cleanup held i sv)"
    "metrics_inv (cleanup_remove i key sv)"
  by (rule metrics_frame [OF assms]; auto simp: enqueue_request_def sv_slot_def enqueue_post_def
    release_recovered_graphs_def admit_owned_def require_graph_producers_released_def reap_join_handle_def
    waiter_cleanup_def cleanup_check_def cleanup_remove_def Let_def split: option.splits)+

lemma sv_reachable_metrics: "sv_reachable sv \<Longrightarrow> metrics_inv sv"
proof (induction rule: sv_reachable.induct)
  case (start queue_capacity released)
  show ?case by (simp add: metrics_inv_def running_tasks_def balanced_def owner_of_def owner_default_def
    metrics_new_def supervisor_new_def)
next
  case (step sv a)
  have "sv_inv sv" by (rule sv_reachable_inv [OF step.hyps(1)])
  then show ?case using step.IH
    by (cases a) (simp_all del: sv_exec.simps(4) add: metrics_steps metrics_dispatch metrics_reaper
      metrics_complete_driver metrics_complete_owned)
qed

section \<open>Every slot is accounted for\<close>

definition slot_keys :: "supervisor \<Rightarrow> nat set" where
  "slot_keys sv = ds_key ` (set (sm_values (sv_slots sv)) \<union> set (sv_removed sv))"

text \<open>Replacing the slot of a graph by one with the same identity\<close>
lemma slot_keys_update:
  assumes "sm_wf (sv_slots sv)" "sm_get (sv_slots sv) i = Some s" "ds_key s' = ds_key s"
  shows "ds_key ` set (sm_values (sm_insert i s' (sv_slots sv))) = ds_key ` set (sm_values (sv_slots sv))"
  using assms by (simp add: sm_values_insert sm_values_split [OF assms(1), of i])

lemma start_driver_keys: "sm_wf (sv_slots sv) \<Longrightarrow> slot_keys (start_driver i sv) = slot_keys sv"
  by (auto simp: start_driver_def slot_start_def slot_keys_def image_Un slot_keys_update split: option.splits)

lemma cleanup_check_keys: "slot_keys (cleanup_check held i s sv) = slot_keys sv"
  by (simp add: cleanup_check_def slot_keys_def)

lemma complete_driver_keys:
  assumes "sv_inv sv"
  shows "slot_keys (complete_driver held outcome i sv) = slot_keys sv"
proof (cases "sm_get (sv_active sv) i")
  case (Some n)
  show ?thesis
  proof (cases "sm_get (sv_slots sv) i")
    case slot: (Some s)
    let ?s1 = "slot_finish n outcome s"
    let ?sv2 = "sv \<lparr> sv_active := sm_remove i (sv_active sv), sv_slots := sm_insert i ?s1 (sv_slots sv),
      sv_metrics := count_driver outcome (sv_metrics sv), sv_pending := filter (\<lambda>j. j \<noteq> i) (sv_pending sv) \<rparr>"
    note W = sv_invD(1) [OF assms]
    have "slot_keys ?sv2 = slot_keys sv"
      using slot_keys_update [OF W slot, of ?s1] by (simp add: slot_keys_def image_Un slot_finish_def)
    moreover have "slot_keys (start_driver i ?sv2) = slot_keys ?sv2" by (rule start_driver_keys) (simp add: W)
    ultimately show ?thesis using Some slot by (simp add: complete_driver_def Let_def cleanup_check_keys)
  qed (use Some in \<open>simp add: complete_driver_def slot_keys_def\<close>)
qed (simp add: complete_driver_def)

lemma enqueue_request_keys:
  assumes "sm_wf (sv_slots sv)" "slot_keys sv = {..<sv_next_key sv}"
  shows "slot_keys (fst (enqueue_request now i sv)) = {..<sv_next_key (fst (enqueue_request now i sv))}"
proof (cases "sm_get (sv_slots sv) i")
  case (Some s)
  then show ?thesis using assms slot_keys_update [OF assms(1) Some, of "slot_request now s"]
    by (simp add: enqueue_request_def sv_slot_def slot_keys_def image_Un slot_request_def)
next
  case None
  then have "set (sm_values (sm_insert i t (sm_insert i r (sv_slots sv)))) = insert t (set (sm_values (sv_slots sv)))" for t r
    using sm_values_insert [of "sm_insert i r (sv_slots sv)" i t] sm_values_split [OF assms(1), of i] assms(1)
    by auto
  then show ?thesis using None assms
    by (simp add: enqueue_request_def sv_slot_def Let_def slot_keys_def image_Un slot_request_def slot_new_def
      lessThan_Suc)
qed

lemma cleanup_remove_keys: "sm_wf (sv_slots sv) \<Longrightarrow> slot_keys (cleanup_remove i key sv) = slot_keys sv"
  using sm_values_split [of "sv_slots sv" i]
  by (auto simp: cleanup_remove_def Let_def slot_keys_def sm_values_remove split: option.split)

lemma next_key_frame [simp]:
  "sv_next_key (start_driver i sv) = sv_next_key sv" "sv_next_key (cleanup_check held i s sv) = sv_next_key sv"
  "sv_next_key (cleanup_remove i key sv) = sv_next_key sv" "sv_next_key (complete_driver held outcome i sv) = sv_next_key sv"
  by (simp_all add: start_driver_def slot_start_def cleanup_check_def cleanup_remove_def complete_driver_def Let_def
    split: option.split)

lemma slot_keys_upd [simp]:
  "slot_keys (sv \<lparr> sv_pending := p \<rparr>) = slot_keys sv" "slot_keys (sv \<lparr> sv_owned := ow \<rparr>) = slot_keys sv"
  "slot_keys (sv \<lparr> sv_metrics := m \<rparr>) = slot_keys sv" "slot_keys (sv \<lparr> sv_queue := q \<rparr>) = slot_keys sv"
  "slot_keys (sv \<lparr> sv_reaper := rq \<rparr>) = slot_keys sv" "slot_keys (sv \<lparr> sv_posting := ps \<rparr>) = slot_keys sv"
  "slot_keys (sv \<lparr> sv_deferred := df \<rparr>) = slot_keys sv" "slot_keys (sv \<lparr> sv_released := b \<rparr>) = slot_keys sv"
  by (simp_all add: slot_keys_def)

lemma dispatch_message_keys:
  assumes "sm_wf (sv_slots sv)"
  shows "slot_keys (dispatch_message msg sv) = slot_keys sv \<and> sv_next_key (dispatch_message msg sv) = sv_next_key sv"
  using assms by (cases msg) (simp_all add: start_driver_keys spawn_owned_work_def)

lemma dispatch_keys:
  assumes "sm_wf (sv_slots sv)"
  shows "slot_keys (dispatch_next sv) = slot_keys sv \<and> sv_next_key (dispatch_next sv) = sv_next_key sv"
  using assms by (simp add: dispatch_next_def dispatch_message_keys split: list.split)

lemma sv_reachable_keys: "sv_reachable sv \<Longrightarrow> slot_keys sv = {..<sv_next_key sv}"
proof (induction rule: sv_reachable.induct)
  case (start queue_capacity released)
  show ?case by (simp add: supervisor_new_def slot_keys_def sm_values_def)
next
  case (step sv a)
  note I = sv_reachable_inv [OF step.hyps(1)]
  show ?case
  proof (cases a)
    case (ActWaiterCleanup held i)
    then show ?thesis using step.IH by (simp add: waiter_cleanup_def cleanup_check_keys split: option.split)
  next
    case ActDispatch
    then show ?thesis using step.IH dispatch_keys [OF sv_invD(1) [OF I]] by simp
  qed (use step.IH sv_invD(1) [OF I] I in \<open>simp_all add: enqueue_request_keys complete_driver_keys cleanup_remove_keys
      enqueue_post_def release_recovered_graphs_def admit_owned_def require_graph_producers_released_def
      reap_join_handle_def dispatch_reaper_def spawn_owned_work_def complete_owned_def Let_def split: list.split\<close>)
qed

section \<open>Shutdown\<close>

definition books :: "(rstring \<Rightarrow> nat) \<Rightarrow> supervisor_metrics \<Rightarrow> bool" where
  "books tasks m \<longleftrightarrow> sm_wf (mt_owners m) \<and> (\<forall>owner. balanced (tasks owner) (owner_of owner m))"

lemma metrics_books: "metrics_inv sv \<longleftrightarrow> books (running_tasks sv) (sv_metrics sv)"
  by (simp add: metrics_inv_def books_def)

lemma books_drain_owned: "books t m \<Longrightarrow> books t (drain_owned_message owner m)"
  using balanced_submitted [of m _ _ owner] balanced_ended(2) [of "owner_submitted owner m" _ _ owner]
  by (fastforce simp: books_def drain_owned_message_def)

lemma books_drain_queues:
  assumes "books t m"
  shows "books t (fold drain_owned_message rs (fold drain_message ms m))"
proof -
  have "books t (fold drain_message ms m)" using assms
  proof (induction ms arbitrary: m)
    case (Cons msg ms)
    then show ?case by (cases msg) (auto simp: books_drain_owned)
  qed simp
  then show ?thesis by (induction rs rule: rev_induct) (simp_all add: books_drain_owned)
qed

lemma books_drivers:
  assumes "books t (sv_metrics sv)" "length ds \<le> t graph_owner"
  shows "books (\<lambda>o1. t o1 - (if o1 = graph_owner then length ds else 0)) (sv_metrics (fold (drain_driver outcomes) ds sv))"
  using assms
proof (induction ds arbitrary: t sv)
  case (Cons d ds)
  let ?t = "\<lambda>o1. t o1 - (if o1 = graph_owner then 1 else 0)"
  have "balanced (?t o1) (owner_of o1 (count_driver oc (sv_metrics sv)))" for oc o1
    by (rule balanced_driver) (use Cons.prems in \<open>auto simp: books_def\<close>)
  then have "books ?t (sv_metrics (drain_driver outcomes d sv))"
    using Cons.prems(1) by (cases d) (simp add: books_def drain_driver_def)
  from Cons.IH [OF this] Cons.prems(2) show ?case by (simp add: if_distrib [of "\<lambda>k. n - k" for n] cong: if_cong)
qed (simp cong: if_cong)

lemma books_owned:
  assumes "books t m" "\<And>o1. count_list owners o1 \<le> t o1"
  shows "books (\<lambda>o1. t o1 - count_list owners o1)
    (fold (\<lambda>owner. case statuses owner of (status, error) \<Rightarrow> count_owned owner status error) owners m)"
  using assms
proof (induction owners arbitrary: t m)
  case (Cons owner owners)
  let ?t = "\<lambda>o1. t o1 - (if o1 = owner then 1 else 0)"
  obtain status error where st: "statuses owner = (status, error)" by fastforce
  have pos: "o1 = owner \<Longrightarrow> 0 < t o1" for o1 using Cons.prems(2) [of owner] by simp
  have "books ?t (count_owned owner status error m)"
    using Cons.prems(1) pos balanced_owned [of m "t o1" o1 owner status error for o1] by (simp add: books_def)
  moreover have "count_list owners o1 \<le> ?t o1" for o1 using Cons.prems(2) [of o1] by (auto split: if_splits)
  ultimately have "books (\<lambda>o1. ?t o1 - count_list owners o1)
      (fold (\<lambda>owner. case statuses owner of (status, error) \<Rightarrow> count_owned owner status error) owners
        (count_owned owner status error m))" by (rule Cons.IH)
  moreover have "(\<lambda>o1. ?t o1 - count_list owners o1) = (\<lambda>o1. t o1 - count_list (owner # owners) o1)" by auto
  ultimately show ?case using st by simp
qed simp

lemma drain_drivers_slots:
  assumes "sm_wf (sv_slots sv)" "\<forall>i s. sm_get (sv_slots sv) i = Some s \<longrightarrow> answered s"
  shows "sm_wf (sv_slots (fold (drain_driver outcomes) ds sv))
    \<and> (\<forall>i s. sm_get (sv_slots (fold (drain_driver outcomes) ds sv)) i = Some s \<longrightarrow> answered s)
    \<and> sv_removed (fold (drain_driver outcomes) ds sv) = sv_removed sv
    \<and> sv_next_key (fold (drain_driver outcomes) ds sv) = sv_next_key sv
    \<and> slot_keys (fold (drain_driver outcomes) ds sv) = slot_keys sv"
  using assms
proof (induction ds arbitrary: sv)
  case (Cons d ds)
  obtain i n where d: "d = (i, n)" by fastforce
  have keys: "slot_keys (drain_driver outcomes d sv) = slot_keys sv"
    using d Cons.prems(1) slot_keys_update [of sv i _ "slot_finish n (outcomes i) s" for s]
    by (auto simp: drain_driver_def slot_keys_def image_Un slot_finish_def split: option.split)
  have "sm_wf (sv_slots (drain_driver outcomes d sv))"
    "\<forall>i s. sm_get (sv_slots (drain_driver outcomes d sv)) i = Some s \<longrightarrow> answered s"
    using d Cons.prems by (auto simp: drain_driver_def answered_def slot_finish_def split: option.split)
  from Cons.IH [OF this] keys show ?case using d by (simp add: drain_driver_def)
qed simp

lemma drain_slot_answered: "answered s \<Longrightarrow> \<not> waiting_slot (drain_slot s) \<and> answered (drain_slot s)"
  by (auto simp: drain_slot_def slot_defs)

lemma answered_observed: "\<not> waiting_slot s \<Longrightarrow> answered s \<Longrightarrow> 0 < n \<Longrightarrow> n \<le> ds_requested_generation s \<Longrightarrow> observation n s \<noteq> None"
  by (auto simp: waiting_slot_def answered_def observation_def)

lemma sv_inv_answered: "sv_inv sv \<Longrightarrow> sm_get (sv_slots sv) i = Some s \<Longrightarrow> answered s"
  using sv_invD(4) [of sv i] by (simp add: served_at_def served_def)

lemma drain_slots:
  assumes "sv_inv sv" "s \<in> set (sv_removed (drain outcomes statuses sv))"
  shows "\<not> waiting_slot s \<and> answered s"
proof -
  let ?sv1 = "sv \<lparr> sv_queue := [], sv_reaper := [],
    sv_metrics := fold drain_owned_message (sv_reaper sv) (fold drain_message (sv_queue sv) (sv_metrics sv)) \<rparr>"
  let ?sv2 = "fold (drain_driver outcomes) (sv_active sv) ?sv1"
  have "\<forall>i s. sm_get (sv_slots ?sv1) i = Some s \<longrightarrow> answered s"
    using sv_inv_answered [OF assms(1)] by simp
  then have two: "sm_wf (sv_slots ?sv2)" "\<And>i s. sm_get (sv_slots ?sv2) i = Some s \<Longrightarrow> answered s"
    "sv_removed ?sv2 = sv_removed sv"
    using drain_drivers_slots [of ?sv1 outcomes "sv_active sv"] sv_invD(1) [OF assms(1)] by simp_all
  from assms(2) consider t where "t \<in> set (sm_values (sv_slots ?sv2))" "s = drain_slot t" | "s \<in> set (sv_removed sv)"
    using two(3) by (auto simp: drain_def Let_def)
  then show ?thesis
  proof cases
    case 1
    then show ?thesis using two(1,2) drain_slot_answered by (auto simp: sm_values_mem)
  next
    case 2
    then show ?thesis using assms(1) by (simp add: sv_inv_def)
  qed
qed

lemma drain_keys:
  assumes "sv_inv sv"
  shows "slot_keys (drain outcomes statuses sv) = slot_keys sv"
proof -
  let ?sv1 = "sv \<lparr> sv_queue := [], sv_reaper := [],
    sv_metrics := fold drain_owned_message (sv_reaper sv) (fold drain_message (sv_queue sv) (sv_metrics sv)) \<rparr>"
  let ?sv2 = "fold (drain_driver outcomes) (sv_active sv) ?sv1"
  have "\<forall>i s. sm_get (sv_slots ?sv1) i = Some s \<longrightarrow> answered s"
    using sv_inv_answered [OF assms] by simp
  then have "slot_keys ?sv2 = slot_keys sv"
    using drain_drivers_slots [of ?sv1 outcomes "sv_active sv"] sv_invD(1) [OF assms] by simp
  moreover have "ds_key (drain_slot s) = ds_key s" for s by (simp add: drain_slot_def slot_finish_def)
  ultimately show ?thesis by (simp add: drain_def Let_def slot_keys_def image_Un image_image sm_values_def)
qed

lemma drain_books:
  assumes "metrics_inv sv"
  shows "books (\<lambda>_. 0) (sv_metrics (drain outcomes statuses sv))"
proof -
  let ?sv1 = "sv \<lparr> sv_queue := [], sv_reaper := [],
    sv_metrics := fold drain_owned_message (sv_reaper sv) (fold drain_message (sv_queue sv) (sv_metrics sv)) \<rparr>"
  let ?t = "\<lambda>o1. running_tasks sv o1 - (if o1 = graph_owner then length (sv_active sv) else 0)"
  have "books (running_tasks sv) (sv_metrics ?sv1)" using assms books_drain_queues by (simp add: metrics_books)
  then have "books ?t (sv_metrics (fold (drain_driver outcomes) (sv_active sv) ?sv1))"
    by (rule books_drivers) (simp add: running_tasks_def)
  moreover have "count_list (sv_owned sv) o1 \<le> ?t o1" for o1 by (simp add: running_tasks_def)
  ultimately have "books (\<lambda>o1. ?t o1 - count_list (sv_owned sv) o1)
      (fold (\<lambda>owner. case statuses owner of (status, error) \<Rightarrow> count_owned owner status error) (sv_owned sv)
        (sv_metrics (fold (drain_driver outcomes) (sv_active sv) ?sv1)))" by (rule books_owned)
  moreover have "(\<lambda>o1. ?t o1 - count_list (sv_owned sv) o1) = (\<lambda>_. 0)" by (auto simp: running_tasks_def)
  ultimately show ?thesis by (simp add: drain_def Let_def)
qed

section \<open>Properties\<close>

text \<open>
  C5: no request is lost.  Whatever the interleaving of requests, gate, dispatcher, drivers and
  cleanups, as long as no request or wake-up of a graph falls into a half-done cleanup of its slot:
  when the gate is open, nothing is queued or being posted and no driver runs, every slot that was
  ever created is accounted for and every generation that was ever requested has an outcome, so no
  caller waits for ever.
\<close>
theorem no_request_lost:
  assumes "sv_reachable sv" "sv_released sv" "sv_queue sv = []" "sv_posting sv = []" "sv_active sv = []"
  shows "slot_keys sv = {..<sv_next_key sv}
    \<and> (\<forall>s\<in>set (sm_values (sv_slots sv)) \<union> set (sv_removed sv).
        \<forall>n. 0 < n \<and> n \<le> ds_requested_generation s \<longrightarrow> observation n s \<noteq> None)"
proof -
  note I = sv_reachable_inv [OF assms(1)]
  have "\<not> waiting_slot s \<and> answered s" if mem: "s \<in> set (sm_values (sv_slots sv))" for s
  proof -
    obtain i where "sm_get (sv_slots sv) i = Some s" using mem sv_invD(1) [OF I] by (auto simp: sm_values_mem)
    then show ?thesis using sv_invD(3) [OF I] sv_invD(4) [OF I, of i] assms(2-5)
      by (simp add: served_at_def served_def coming_def)
  qed
  then show ?thesis using I sv_reachable_keys [OF assms(1)] answered_observed by (auto simp: sv_inv_def)
qed



text \<open>
  C37: the cleanup of a slot can lose a request.  The dispatcher finds the slot of a finished graph
  idle; before it locks the table a request is made on that slot; the slot is then removed although it
  is not idle any more, and the wake-up finds no slot.  Everything is at rest, but the second request
  never gets an outcome and the graph is not driven.
\<close>
theorem cleanup_race_loses_request:
  "let sv = fold sv_exec [ActRequest t1 i, ActPost i, ActDispatch, ActComplete False outcome i,
        ActRequest t2 i, ActRemove i 0, ActPost i, ActDispatch] (supervisor_new queue_capacity True)
   in sv_released sv \<and> sv_queue sv = [] \<and> sv_posting sv = [] \<and> sv_active sv = [] \<and> sv_slots sv = []
     \<and> (\<exists>s. sv_removed sv = [s] \<and> ds_requested_generation s = 2 \<and> observation 2 s = None)"
  by (simp add: supervisor_new_def enqueue_request_def sv_slot_def enqueue_post_def dispatch_next_def
    start_driver_def complete_driver_def cleanup_check_def cleanup_remove_def slot_defs observation_def sat_add64_def
    u64_max_def sm_get_def sm_contains_def sm_remove_def Let_def)

section \<open>Witnesses\<close>

fun undisturbed_run :: "sv_action list \<Rightarrow> supervisor \<Rightarrow> bool" where
  "undisturbed_run [] sv = True"
| "undisturbed_run (a # as) sv = (undisturbed a sv \<and> undisturbed_run as (sv_exec a sv))"

lemma undisturbed_run_reachable: "sv_reachable sv \<Longrightarrow> undisturbed_run as sv \<Longrightarrow> sv_reachable (fold sv_exec as sv)"
  by (induction as arbitrary: sv) (auto intro: sv_reachable.step)

definition sample_supervisor :: supervisor where
  "sample_supervisor = fold sv_exec [ActRequest 5 ''g'', ActPost ''g'', ActRelease, ActDispatch, ActRequest 6 ''g'',
     ActComplete True (DoFailed ''x'') ''g'', ActPost ''g'', ActDispatch, ActComplete True (DoFailed ''y'') ''g'',
     ActComplete False (DoFailed ''z'') ''g'', ActRemove ''g'' 0] (supervisor_new 4 False)"

lemmas sv_eval = supervisor_new_def enqueue_request_def sv_slot_def enqueue_post_def dispatch_next_def
  release_recovered_graphs_def start_driver_def complete_driver_def cleanup_check_def cleanup_remove_def slot_defs
  observation_def sat_add64_def u64_max_def sm_get_def sm_contains_def sm_remove_def Let_def undisturbed_def

lemma sample_supervisor_fields:
  "sv_released sample_supervisor" "sv_queue sample_supervisor = []" "sv_posting sample_supervisor = []"
  "sv_active sample_supervisor = []" "map ds_requested_generation (sv_removed sample_supervisor) = [2]"
  by (simp_all add: sample_supervisor_def sv_eval)

lemma sample_supervisor_reachable: "sv_reachable sample_supervisor"
  unfolding sample_supervisor_def
  by (rule undisturbed_run_reachable [OF sv_reachable.start]) (simp add: sv_eval)

theorem no_request_lost_witness:
  "\<exists>s. sv_removed sample_supervisor = [s] \<and> ds_requested_generation s = 2 \<and> observation 2 s \<noteq> None"
proof -
  have "sv_slots sample_supervisor = [] \<and> (\<exists>s. sv_removed sample_supervisor = [s] \<and> ds_requested_generation s = 2)"
    by (simp add: sample_supervisor_def sv_eval)
  then show ?thesis using no_request_lost [OF sample_supervisor_reachable sample_supervisor_fields(1-4)] by force
qed



end
