(* ===== verification/Scope_Lock.thy ===== *)
theory Scope_Lock
  imports Evidence_Types Contract "HOL-Library.Word"
begin

text \<open>
  The scope locks of graph nodes, runtime/src/execution_core/graph/resources/scope_lock.rs: hierarchical
  scopes and their overlap, the queue of waiters of one manager, and the file locks that managers of
  several processes share.  One turn of the loop of \<open>acquire\<close> is one step; timeouts and dropped callers
  are the cancellation of a registration.  The lock files are the table of locks the operating system
  holds: a file is named by the FNV hash of its key, and an error when it is opened is an argument.
  The order of the requests of a lease follows the derived debug output of their scopes, which is an
  argument, too.
\<close>

unbundle bit_operations_syntax

section \<open>Scopes\<close>

datatype scope_lock_mode = LockRead | LockWrite

datatype scoped_resource =
  ScWorkspace rstring
| ScWorkspaceObject workspace_path_identity
| ScResource rstring rstring

datatype scope_lock_error =
  SlEmptyField rstring
| SlTimedOut nat
| SlRegistrationLost
| SlIo "64 word" rstring

definition nonempty_field :: "rstring \<Rightarrow> rstring \<Rightarrow> (scope_lock_error, rstring) result" where
  "nonempty_field field value = (if is_blank value then Err (SlEmptyField field) else Ok value)"

definition scope_workspace :: "rstring \<Rightarrow> (scope_lock_error, scoped_resource) result" where
  "scope_workspace workspace_id = and_then (nonempty_field ''workspace_id'' workspace_id) (\<lambda>w. Ok (ScWorkspace w))"

definition scope_resource :: "rstring \<Rightarrow> rstring \<Rightarrow> (scope_lock_error, scoped_resource) result" where
  "scope_resource namespace key = and_then (nonempty_field ''namespace'' namespace) (\<lambda>n.
     and_then (nonempty_field ''key'' key) (\<lambda>k. Ok (ScResource n k)))"

definition path_is_prefix :: "rstring \<Rightarrow> rstring \<Rightarrow> bool" where
  "path_is_prefix prefix path = (prefix = path
     \<or> (case strip_prefix prefix path of Some suffix \<Rightarrow> starts_with ''/'' suffix | None \<Rightarrow> False))"

fun overlaps :: "scoped_resource \<Rightarrow> scoped_resource \<Rightarrow> bool" where
  "overlaps (ScWorkspace l) (ScWorkspace r) = (l = r)"
| "overlaps (ScWorkspaceObject l) (ScWorkspaceObject r) = (wp_workspace_id l = wp_workspace_id r
     \<and> wp_repository_id l = wp_repository_id r
     \<and> (path_is_prefix (wp_repository_relative_path l) (wp_repository_relative_path r)
        \<or> path_is_prefix (wp_repository_relative_path r) (wp_repository_relative_path l)))"
| "overlaps (ScWorkspace w) (ScWorkspaceObject i) = (w = wp_workspace_id i)"
| "overlaps (ScWorkspaceObject i) (ScWorkspace w) = (w = wp_workspace_id i)"
| "overlaps (ScResource ln lk) (ScResource rn rk) = (ln = rn \<and> lk = rk)"
| "overlaps _ _ = False"

record scope_lock_request =
  lr_scope :: scoped_resource
  lr_mode :: scope_lock_mode

definition requests_conflict :: "scope_lock_request list \<Rightarrow> scope_lock_request list \<Rightarrow> bool" where
  "requests_conflict left right = list_ex (\<lambda>l. list_ex (\<lambda>r. overlaps (lr_scope l) (lr_scope r)
     \<and> (lr_mode l = LockWrite \<or> lr_mode r = LockWrite)) right) left"

text \<open>One request per scope, with the strongest mode\<close>
fun merge_request :: "scope_lock_request \<Rightarrow> scope_lock_request list \<Rightarrow> scope_lock_request list" where
  "merge_request r [] = [r]"
| "merge_request r (x # xs) =
    (if lr_scope x = lr_scope r then (if lr_mode r = LockWrite then x \<lparr> lr_mode := LockWrite \<rparr> else x) # xs
     else x # merge_request r xs)"

definition normalize_requests :: "(scoped_resource \<Rightarrow> rstring) \<Rightarrow> scope_lock_request list \<Rightarrow> scope_lock_request list" where
  "normalize_requests debug requests = sort_key (\<lambda>r. debug (lr_scope r)) (fold merge_request requests [])"

section \<open>Lock files\<close>

definition fnv_offset_basis :: "64 word" where
  "fnv_offset_basis = 0xcbf29ce484222325"

definition fnv_prime :: "64 word" where
  "fnv_prime = 0x00000100000001b3"

definition stable_hash_bytes :: "rstring \<Rightarrow> 64 word" where
  "stable_hash_bytes bytes = fold (\<lambda>b h. (h XOR word_of_nat (of_char b)) * fnv_prime) bytes fnv_offset_basis"

fun merge_process_target :: "rstring \<Rightarrow> scope_lock_mode \<Rightarrow> (rstring \<times> scope_lock_mode) list \<Rightarrow> (rstring \<times> scope_lock_mode) list" where
  "merge_process_target key requested [] = [(key, requested)]"
| "merge_process_target key requested ((k, m) # ts) =
    (if k = key then (k, if requested = LockWrite then LockWrite else m) # ts
     else (k, m) # merge_process_target key requested ts)"

text \<open>The first component of a path; the root is \<open>.\<close>\<close>
definition path_zone :: "rstring \<Rightarrow> rstring" where
  "path_zone p = (let part = hd (split_on (CHR 0x2F) p) in if part = [] then ''.'' else part)"

text \<open>The targets of one request, in the order they are merged\<close>
definition request_targets :: "scope_lock_request \<Rightarrow> (rstring \<times> scope_lock_mode) list" where
  "request_targets r = (case lr_scope r of
     ScWorkspace w \<Rightarrow> (''workspace-all:'' @ w, lr_mode r)
       # (if lr_mode r = LockRead then [(''workspace-writers:'' @ w, LockWrite)] else [])
   | ScWorkspaceObject i \<Rightarrow> (''workspace-all:'' @ wp_workspace_id i, LockRead)
       # (if lr_mode r = LockWrite then [(''workspace-writers:'' @ wp_workspace_id i, LockRead)] else [])
       @ [(''workspace-object:'' @ wp_workspace_id i @ '':'' @ wp_repository_id i @ '':''
            @ path_zone (wp_repository_relative_path i), lr_mode r)]
   | ScResource n k \<Rightarrow> [(''resource:'' @ n @ '':'' @ k, lr_mode r)])"

definition process_targets :: "scope_lock_request list \<Rightarrow> (rstring \<times> scope_lock_mode) list" where
  "process_targets requests =
     sort_key fst (fold (\<lambda>(k, m). merge_process_target k m) (concat (map request_targets requests)) [])"

text \<open>A lock the operating system holds: the file, the lease that opened it, the mode\<close>
record file_lock =
  fl_path :: "64 word"
  fl_owner :: rstring
  fl_mode :: scope_lock_mode

definition would_block :: "64 word \<Rightarrow> scope_lock_mode \<Rightarrow> file_lock list \<Rightarrow> bool" where
  "would_block path mode files = list_ex (\<lambda>f. fl_path f = path \<and> (mode = LockWrite \<or> fl_mode f = LockWrite)) files"

text \<open>Locks that were taken before a failure are given back, so a failure leaves the table as it was.\<close>
fun lock_targets ::
  "(64 word \<Rightarrow> rstring option) \<Rightarrow> rstring \<Rightarrow> (rstring \<times> scope_lock_mode) list \<Rightarrow> file_lock list
   \<Rightarrow> (scope_lock_error, file_lock list option) result" where
  "lock_targets io owner [] files = Ok (Some files)"
| "lock_targets io owner ((key, mode) # ts) files =
    (let path = stable_hash_bytes key in
     case io path of
       Some e \<Rightarrow> Err (SlIo path e)
     | None \<Rightarrow> if would_block path mode files then Ok None
         else lock_targets io owner ts (\<lparr> fl_path = path, fl_owner = owner, fl_mode = mode \<rparr> # files))"

definition try_process_locks ::
  "bool \<Rightarrow> (64 word \<Rightarrow> rstring option) \<Rightarrow> rstring \<Rightarrow> scope_lock_request list \<Rightarrow> file_lock list
   \<Rightarrow> (scope_lock_error, file_lock list option) result" where
  "try_process_locks persistent io owner requests files =
    (if \<not> persistent then Ok (Some files) else lock_targets io owner (process_targets requests) files)"

section \<open>The manager\<close>

record lock_state =
  lk_active :: "(rstring, scope_lock_request list) smap"
  lk_pending :: "(rstring \<times> scope_lock_request list) list"

definition lock_new :: lock_state where
  "lock_new = \<lparr> lk_active = [], lk_pending = [] \<rparr>"

definition lock_register :: "rstring \<Rightarrow> scope_lock_request list \<Rightarrow> lock_state \<Rightarrow> lock_state" where
  "lock_register ident requests st = st \<lparr> lk_pending := lk_pending st @ [(ident, requests)] \<rparr>"

text \<open>Dropping a registration (timeout, error or a caller that went away)\<close>
definition lock_cancel :: "rstring \<Rightarrow> lock_state \<Rightarrow> lock_state" where
  "lock_cancel ident st = st \<lparr> lk_pending := filter (\<lambda>p. fst p \<noteq> ident) (lk_pending st) \<rparr>"

datatype lock_turn = TurnAcquired | TurnWaiting | TurnFailed scope_lock_error

text \<open>The waiters before a waiter, and its own requests\<close>
fun pending_split ::
  "rstring \<Rightarrow> (rstring \<times> scope_lock_request list) list
   \<Rightarrow> ((rstring \<times> scope_lock_request list) list \<times> scope_lock_request list) option" where
  "pending_split ident [] = None"
| "pending_split ident (p # ps) = (if fst p = ident then Some ([], snd p)
     else map_option (\<lambda>(before, requests). (p # before, requests)) (pending_split ident ps))"

fun remove_pending :: "rstring \<Rightarrow> (rstring \<times> scope_lock_request list) list \<Rightarrow> (rstring \<times> scope_lock_request list) list" where
  "remove_pending ident [] = []"
| "remove_pending ident (p # ps) = (if fst p = ident then ps else p # remove_pending ident ps)"

definition blocked_by_earlier ::
  "(rstring \<times> scope_lock_request list) list \<Rightarrow> scope_lock_request list \<Rightarrow> bool" where
  "blocked_by_earlier before requests = list_ex (\<lambda>p. requests_conflict requests (snd p)) before"

definition has_conflict :: "scope_lock_request list \<Rightarrow> lock_state \<Rightarrow> bool" where
  "has_conflict requests st = list_ex (\<lambda>a. requests_conflict requests (snd a)) (lk_active st)"

definition acquire_turn ::
  "bool \<Rightarrow> (64 word \<Rightarrow> rstring option) \<Rightarrow> rstring \<Rightarrow> lock_state \<Rightarrow> file_lock list
   \<Rightarrow> lock_state \<times> file_lock list \<times> lock_turn" where
  "acquire_turn persistent io ident st files = (case pending_split ident (lk_pending st) of
     None \<Rightarrow> (st, files, TurnFailed SlRegistrationLost)
   | Some (before, requests) \<Rightarrow>
       if blocked_by_earlier before requests \<or> has_conflict requests st then (st, files, TurnWaiting)
       else (case try_process_locks persistent io ident requests files of
         Inl e \<Rightarrow> (lock_cancel ident st, files, TurnFailed e)
       | Inr None \<Rightarrow> (st, files, TurnWaiting)
       | Inr (Some files') \<Rightarrow> (\<lparr> lk_active = sm_insert ident requests (lk_active st),
            lk_pending = remove_pending ident (lk_pending st) \<rparr>, files', TurnAcquired)))"

definition lock_release :: "rstring \<Rightarrow> lock_state \<Rightarrow> file_lock list \<Rightarrow> lock_state \<times> file_lock list" where
  "lock_release ident st files = (st \<lparr> lk_active := sm_remove ident (lk_active st) \<rparr>, filter (\<lambda>f. fl_owner f \<noteq> ident) files)"

definition active_lease_count :: "lock_state \<Rightarrow> nat" where
  "active_lease_count st = length (lk_active st)"

section \<open>Several processes\<close>

text \<open>
  Managers of several processes (by number) over the same lock directory; \<open>lw_used\<close> are the
  identifiers that were given out, which are random and therefore fresh.
\<close>
record lock_world =
  lw_managers :: "nat \<Rightarrow> lock_state"
  lw_files :: "file_lock list"
  lw_used :: "rstring set"

definition world_new :: lock_world where
  "world_new = \<lparr> lw_managers = (\<lambda>_. lock_new), lw_files = [], lw_used = {} \<rparr>"

inductive lock_step :: "bool \<Rightarrow> (scoped_resource \<Rightarrow> rstring) \<Rightarrow> lock_world \<Rightarrow> lock_world \<Rightarrow> bool"
  for persistent debug where
  register: "ident \<notin> lw_used w \<Longrightarrow> lock_step persistent debug w (w \<lparr> lw_used := insert ident (lw_used w),
     lw_managers := (lw_managers w)(p := lock_register ident (normalize_requests debug requests) (lw_managers w p)) \<rparr>)"
| turn: "acquire_turn persistent io ident (lw_managers w p) (lw_files w) = (st, files, result) \<Longrightarrow>
     lock_step persistent debug w (w \<lparr> lw_managers := (lw_managers w)(p := st), lw_files := files \<rparr>)"
| cancel: "lock_step persistent debug w (w \<lparr> lw_managers := (lw_managers w)(p := lock_cancel ident (lw_managers w p)) \<rparr>)"
| release: "sm_get (lk_active (lw_managers w p)) ident = Some requests \<Longrightarrow>
     lock_release ident (lw_managers w p) (lw_files w) = (st, files) \<Longrightarrow>
     lock_step persistent debug w (w \<lparr> lw_managers := (lw_managers w)(p := st), lw_files := files \<rparr>)"

inductive_cases lock_stepE: "lock_step persistent debug w w'"

abbreviation lock_run :: "bool \<Rightarrow> (scoped_resource \<Rightarrow> rstring) \<Rightarrow> lock_world \<Rightarrow> lock_world \<Rightarrow> bool" where
  "lock_run persistent debug \<equiv> (lock_step persistent debug)\<^sup>*\<^sup>*"

end
