(* ===== verification/Scope_Lock_Properties.thy ===== *)
theory Scope_Lock_Properties
  imports Scope_Lock
begin

text \<open>
  Mutual exclusion and fairness of the scope locks.  The file locks are a tier of their own: the
  locale \<open>lock_tier\<close> says what the targets of a request must have for the tier to exclude, and is
  interpreted on the targets of the code.
\<close>

section \<open>Conflicts\<close>

lemma overlaps_sym: "overlaps a b = overlaps b a"
  by (cases a; cases b) auto

lemma requests_conflict_iff:
  "requests_conflict xs ys \<longleftrightarrow> (\<exists>x\<in>set xs. \<exists>y\<in>set ys. overlaps (lr_scope x) (lr_scope y)
     \<and> (lr_mode x = LockWrite \<or> lr_mode y = LockWrite))"
  by (simp add: requests_conflict_def list_ex_iff)

lemma requests_conflict_sym: "requests_conflict xs ys = requests_conflict ys xs"
  using overlaps_sym unfolding requests_conflict_iff by blast

text \<open>Requests that ask for at least as much\<close>
definition covers :: "scope_lock_request list \<Rightarrow> scope_lock_request list \<Rightarrow> bool" where
  "covers ns rs \<longleftrightarrow> (\<forall>r\<in>set rs. \<exists>n\<in>set ns. lr_scope n = lr_scope r \<and> (lr_mode r = LockWrite \<longrightarrow> lr_mode n = LockWrite))"

lemma covers_refl: "covers rs rs"
  by (auto simp: covers_def)

lemma covers_conflict: "covers ns rs \<Longrightarrow> covers ms qs \<Longrightarrow> requests_conflict rs qs \<Longrightarrow> requests_conflict ns ms"
  unfolding covers_def requests_conflict_iff by metis

lemma merge_request_covers: "covers (merge_request r ns) (r # ns)"
  unfolding covers_def by (induction ns) auto

lemma covers_trans: "covers as bs \<Longrightarrow> covers bs cs \<Longrightarrow> covers as cs"
  unfolding covers_def by metis

lemma fold_merge_covers: "covers (fold merge_request rs ns) (rs @ ns)"
proof (induction rs arbitrary: ns)
  case (Cons r rs)
  have "covers (fold merge_request rs (merge_request r ns)) (rs @ merge_request r ns)" by (rule Cons.IH)
  moreover have "covers (rs @ merge_request r ns) (r # rs @ ns)"
    using merge_request_covers [of r ns] by (fastforce simp: covers_def)
  ultimately show ?case by (simp add: covers_trans)
qed (simp add: covers_refl)

lemma normalize_covers: "covers (normalize_requests debug rs) rs"
  using fold_merge_covers [of rs "[]"] by (simp add: covers_def normalize_requests_def)

section \<open>The tier of lock files\<close>

definition files_ok :: "file_lock list \<Rightarrow> bool" where
  "files_ok files \<longleftrightarrow> (\<forall>f\<in>set files. \<forall>g\<in>set files. fl_owner f \<noteq> fl_owner g \<longrightarrow> fl_path f = fl_path g
     \<longrightarrow> fl_mode f = LockRead \<and> fl_mode g = LockRead)"

definition holds :: "file_lock list \<Rightarrow> rstring \<Rightarrow> (rstring \<times> scope_lock_mode) list \<Rightarrow> bool" where
  "holds files owner ts \<longleftrightarrow> (\<forall>(k, m)\<in>set ts.
     \<lparr> fl_path = stable_hash_bytes k, fl_owner = owner, fl_mode = m \<rparr> \<in> set files)"

locale lock_tier =
  fixes targets :: "'r \<Rightarrow> (rstring \<times> scope_lock_mode) list"
    and conflict :: "'r \<Rightarrow> 'r \<Rightarrow> bool"
  assumes common_target: "conflict a b \<Longrightarrow> \<exists>k m n. (k, m) \<in> set (targets a) \<and> (k, n) \<in> set (targets b)
    \<and> (m = LockWrite \<or> n = LockWrite)"
begin

lemma holders_exclude:
  assumes "files_ok files" "holds files o1 (targets a)" "holds files o2 (targets b)" "o1 \<noteq> o2"
  shows "\<not> conflict a b"
proof
  assume "conflict a b"
  then obtain k m n where k: "(k, m) \<in> set (targets a)" "(k, n) \<in> set (targets b)" "m = LockWrite \<or> n = LockWrite"
    using common_target by blast
  have "\<lparr> fl_path = stable_hash_bytes k, fl_owner = o1, fl_mode = m \<rparr> \<in> set files"
    "\<lparr> fl_path = stable_hash_bytes k, fl_owner = o2, fl_mode = n \<rparr> \<in> set files"
    using assms(2,3) k(1,2) by (auto simp: holds_def)
  then show False using assms(1,4) k(3) unfolding files_ok_def by fastforce
qed

end

lemma split_on_hd_append: "hd (split_on c (p @ c # r)) = hd (split_on c p)"
proof (induction p)
  case (Cons x p)
  then show ?case by (cases "split_on c (p @ c # r)"; cases "split_on c p") (auto split: list.split)
qed simp

lemma path_prefix_zone: "path_is_prefix p q \<Longrightarrow> path_zone p = path_zone q"
proof (cases "p = q")
  case False
  assume "path_is_prefix p q"
  then obtain r where "q = p @ CHR 0x2F # r"
    using False by (auto simp: path_is_prefix_def strip_prefix_def starts_with_iff split: option.splits if_splits)
  then show ?thesis by (simp add: path_zone_def split_on_hd_append)
qed simp

definition all_key :: "rstring \<Rightarrow> rstring" where
  "all_key w = ''workspace-all:'' @ w"

definition writers_key :: "rstring \<Rightarrow> rstring" where
  "writers_key w = ''workspace-writers:'' @ w"

definition object_key :: "workspace_path_identity \<Rightarrow> rstring" where
  "object_key i = ''workspace-object:'' @ wp_workspace_id i @ '':'' @ wp_repository_id i @ '':''
     @ path_zone (wp_repository_relative_path i)"

lemma workspace_targets:
  assumes "lr_scope x = ScWorkspace w"
  shows "(all_key w, lr_mode x) \<in> set (request_targets x)"
    "lr_mode x = LockRead \<Longrightarrow> (writers_key w, LockWrite) \<in> set (request_targets x)"
  using assms by (simp_all add: request_targets_def all_key_def writers_key_def)

lemma object_targets:
  assumes "lr_scope x = ScWorkspaceObject i"
  shows "(all_key (wp_workspace_id i), LockRead) \<in> set (request_targets x)"
    "lr_mode x = LockWrite \<Longrightarrow> (writers_key (wp_workspace_id i), LockRead) \<in> set (request_targets x)"
    "(object_key i, lr_mode x) \<in> set (request_targets x)"
  using assms by (simp_all add: request_targets_def all_key_def writers_key_def object_key_def)

text \<open>A request for a workspace and one for an object of it\<close>
lemma workspace_object_common:
  assumes "lr_scope x = ScWorkspace w" "lr_scope y = ScWorkspaceObject i" "w = wp_workspace_id i"
    and "lr_mode x = LockWrite \<or> lr_mode y = LockWrite"
  shows "\<exists>k m n. (k, m) \<in> set (request_targets x) \<and> (k, n) \<in> set (request_targets y) \<and> (m = LockWrite \<or> n = LockWrite)"
proof (cases "lr_mode x")
  case LockRead
  then have "lr_mode y = LockWrite" using assms(4) by simp
  then show ?thesis using LockRead workspace_targets(2) [OF assms(1)] object_targets(2) [OF assms(2)] assms(3) by blast
next
  case LockWrite
  then show ?thesis using workspace_targets(1) [OF assms(1)] object_targets(1) [OF assms(2)] assms(3) by blast
qed

lemma request_targets_common:
  assumes "overlaps (lr_scope x) (lr_scope y)" "lr_mode x = LockWrite \<or> lr_mode y = LockWrite"
  shows "\<exists>k m n. (k, m) \<in> set (request_targets x) \<and> (k, n) \<in> set (request_targets y) \<and> (m = LockWrite \<or> n = LockWrite)"
proof -
  consider (ww) w where "lr_scope x = ScWorkspace w" "lr_scope y = ScWorkspace w"
    | (wo) w i where "lr_scope x = ScWorkspace w" "lr_scope y = ScWorkspaceObject i" "w = wp_workspace_id i"
    | (ow) w i where "lr_scope y = ScWorkspace w" "lr_scope x = ScWorkspaceObject i" "w = wp_workspace_id i"
    | (oo) i j where "lr_scope x = ScWorkspaceObject i" "lr_scope y = ScWorkspaceObject j"
        "overlaps (ScWorkspaceObject i) (ScWorkspaceObject j)"
    | (rr) n k where "lr_scope x = ScResource n k" "lr_scope y = ScResource n k"
    using assms(1) by (cases "lr_scope x"; cases "lr_scope y"; simp)
  then show ?thesis
  proof cases
    case (ww w)
    then show ?thesis using workspace_targets(1) assms(2) by blast
  next
    case (wo w i)
    then show ?thesis by (rule workspace_object_common) (rule assms(2))
  next
    case (ow w i)
    then show ?thesis using workspace_object_common [of y w x i] assms(2) by blast
  next
    case (oo i j)
    then have "object_key i = object_key j" using path_prefix_zone by (auto simp: object_key_def)
    then show ?thesis using object_targets(3) [OF oo(1)] object_targets(3) [OF oo(2)] assms(2) by metis
  next
    case (rr n k)
    then have "(''resource:'' @ n @ '':'' @ k, lr_mode x) \<in> set (request_targets x)"
      "(''resource:'' @ n @ '':'' @ k, lr_mode y) \<in> set (request_targets y)" by (simp_all add: request_targets_def)
    then show ?thesis using assms(2) by blast
  qed
qed

lemma merge_target_keeps:
  "(k, m) \<in> set ((key, r) # ts) \<Longrightarrow> \<exists>n. (k, n) \<in> set (merge_process_target key r ts) \<and> (m = LockWrite \<longrightarrow> n = LockWrite)"
  by (induction ts) auto

lemma fold_merge_targets_keeps:
  "(k, m) \<in> set (ts @ acc) \<Longrightarrow> \<exists>n. (k, n) \<in> set (fold (\<lambda>(k, m). merge_process_target k m) ts acc) \<and> (m = LockWrite \<longrightarrow> n = LockWrite)"
proof (induction ts arbitrary: acc m)
  case (Cons t ts)
  obtain key r where t: "t = (key, r)" by fastforce
  obtain n where "(k, n) \<in> set (ts @ merge_process_target key r acc)" "m = LockWrite \<longrightarrow> n = LockWrite"
    using Cons.prems merge_target_keeps [of k m key r acc] t by auto
  with Cons.IH [of n] t show ?case by fastforce
qed auto

lemma process_targets_keep:
  assumes "r \<in> set requests" "(k, m) \<in> set (request_targets r)"
  shows "\<exists>n. (k, n) \<in> set (process_targets requests) \<and> (m = LockWrite \<longrightarrow> n = LockWrite)"
  using fold_merge_targets_keeps [of k m "concat (map request_targets requests)" "[]"] assms
  by (auto simp: process_targets_def)

interpretation process_tier: lock_tier process_targets requests_conflict
proof
  fix a b :: "scope_lock_request list"
  assume "requests_conflict a b"
  then obtain x y where xy: "x \<in> set a" "y \<in> set b" "overlaps (lr_scope x) (lr_scope y)"
    "lr_mode x = LockWrite \<or> lr_mode y = LockWrite" unfolding requests_conflict_iff by blast
  from request_targets_common [OF xy(3,4)] obtain k m n where k: "(k, m) \<in> set (request_targets x)"
    "(k, n) \<in> set (request_targets y)" "m = LockWrite \<or> n = LockWrite" by blast
  show "\<exists>k m n. (k, m) \<in> set (process_targets a) \<and> (k, n) \<in> set (process_targets b) \<and> (m = LockWrite \<or> n = LockWrite)"
    using process_targets_keep [OF xy(1) k(1)] process_targets_keep [OF xy(2) k(2)] k(3) by blast
qed

lemma lock_targets_ok:
  assumes "lock_targets io owner ts files = Inr (Some files')"
  shows "(files_ok files \<longrightarrow> files_ok files') \<and> set files \<subseteq> set files' \<and> (\<forall>f\<in>set files' - set files. fl_owner f = owner)
    \<and> holds files' owner ts"
  using assms unfolding holds_def
proof (induction ts arbitrary: files)
  case (Cons t ts)
  obtain k m where t: "t = (k, m)" by fastforce
  let ?f = "\<lparr> fl_path = stable_hash_bytes k, fl_owner = owner, fl_mode = m \<rparr>"
  have free: "\<not> would_block (stable_hash_bytes k) m files" and rest: "lock_targets io owner ts (?f # files) = Inr (Some files')"
    using Cons.prems t by (auto simp: Let_def split: option.splits if_splits)
  have "files_ok files \<Longrightarrow> files_ok (?f # files)"
    using free unfolding files_ok_def would_block_def list_ex_iff by (auto, (metis scope_lock_mode.exhaust)+)
  then show ?case using Cons.IH [OF rest] t by auto
qed simp

section \<open>Mutual exclusion\<close>

text \<open>Where an identifier occurs in a manager\<close>
definition known :: "lock_state \<Rightarrow> rstring \<Rightarrow> bool" where
  "known st i \<longleftrightarrow> sm_get (lk_active st) i \<noteq> None \<or> i \<in> fst ` set (lk_pending st)"

definition manager_ok :: "lock_state \<Rightarrow> bool" where
  "manager_ok st \<longleftrightarrow> sm_wf (lk_active st) \<and> distinct (map fst (lk_pending st))
     \<and> (\<forall>i\<in>fst ` set (lk_pending st). sm_get (lk_active st) i = None)
     \<and> (\<forall>i j r s. sm_get (lk_active st) i = Some r \<longrightarrow> sm_get (lk_active st) j = Some s \<longrightarrow> i \<noteq> j \<longrightarrow> \<not> requests_conflict r s)"

definition lease_files :: "lock_state \<Rightarrow> file_lock list \<Rightarrow> bool" where
  "lease_files st files \<longleftrightarrow> (\<forall>i r. sm_get (lk_active st) i = Some r \<longrightarrow> holds files i (process_targets r))"

definition lock_inv :: "bool \<Rightarrow> lock_world \<Rightarrow> bool" where
  "lock_inv persistent w \<longleftrightarrow> files_ok (lw_files w) \<and> (\<forall>p. manager_ok (lw_managers w p))
     \<and> (\<forall>p i. known (lw_managers w p) i \<longrightarrow> i \<in> lw_used w)
     \<and> (\<forall>p q i. known (lw_managers w p) i \<longrightarrow> known (lw_managers w q) i \<longrightarrow> p = q)
     \<and> (persistent \<longrightarrow> (\<forall>p. lease_files (lw_managers w p) (lw_files w)))"

text \<open>A step of one manager keeps the invariant if it keeps that manager in order and knows no new identifier.\<close>
lemma lock_inv_update:
  assumes "lock_inv persistent w" "files_ok files" "manager_ok st"
    and "\<And>i. known st i \<Longrightarrow> known (lw_managers w p) i"
    and "persistent \<Longrightarrow> lease_files st files"
    and "\<And>q. persistent \<Longrightarrow> q \<noteq> p \<Longrightarrow> lease_files (lw_managers w q) files"
  shows "lock_inv persistent (w \<lparr> lw_managers := (lw_managers w)(p := st), lw_files := files \<rparr>)"
  using assms unfolding lock_inv_def by (simp, metis)

lemma pending_split_mem:
  "pending_split ident ps = Some (before, rs) \<Longrightarrow> (ident, rs) \<in> set ps \<and> (\<exists>after. ps = before @ (ident, rs) # after)
     \<and> ident \<notin> fst ` set before"
proof (induction ps arbitrary: before)
  case (Cons p ps)
  then show ?case by (cases p) (force split: if_splits)
qed simp

lemma pending_split_append:
  "ident \<notin> fst ` set before \<Longrightarrow> pending_split ident (before @ (ident, rs) # after) = Some (before, rs)"
  by (induction before) auto

lemma remove_pending_append:
  "ident \<notin> fst ` set before \<Longrightarrow> remove_pending ident (before @ (ident, rs) # after) = before @ after"
  by (induction before) auto

lemma not_has_conflict:
  assumes "sm_wf (lk_active st)" "\<not> has_conflict rs st" "sm_get (lk_active st) i = Some r"
  shows "\<not> requests_conflict rs r"
  using assms sm_get_Some_mem [OF assms(3)] by (fastforce simp: has_conflict_def list_ex_iff)

lemma try_process_locks_ok:
  assumes "try_process_locks persistent io owner rs files = Inr (Some files')"
  shows "files_ok files \<Longrightarrow> files_ok files'" "set files \<subseteq> set files'" "persistent \<Longrightarrow> holds files' owner (process_targets rs)"
  using assms lock_targets_ok [of io owner "process_targets rs" files files']
  by (auto simp: try_process_locks_def split: if_splits)

lemma lease_files_mono: "lease_files st files \<Longrightarrow> set files \<subseteq> set files' \<Longrightarrow> lease_files st files'"
  unfolding lease_files_def holds_def by fast

lemma cancel_ok:
  assumes "manager_ok st"
  shows "manager_ok (lock_cancel ident st)" "known (lock_cancel ident st) i \<Longrightarrow> known st i"
    "lease_files (lock_cancel ident st) files = lease_files st files"
  using assms by (auto simp: manager_ok_def lock_cancel_def known_def lease_files_def distinct_map_filter)

lemma acquire_turn_cases:
  assumes "acquire_turn persistent io ident st0 files0 = (st, files, result)"
  shows "(st = st0 \<and> files = files0 \<and> result \<noteq> TurnAcquired)
    \<or> (st = lock_cancel ident st0 \<and> files = files0 \<and> result \<noteq> TurnAcquired)
    \<or> (\<exists>before rs. pending_split ident (lk_pending st0) = Some (before, rs) \<and> \<not> blocked_by_earlier before rs
        \<and> \<not> has_conflict rs st0 \<and> try_process_locks persistent io ident rs files0 = Inr (Some files)
        \<and> st = \<lparr> lk_active = sm_insert ident rs (lk_active st0), lk_pending = remove_pending ident (lk_pending st0) \<rparr>
        \<and> result = TurnAcquired)"
proof (cases "pending_split ident (lk_pending st0)")
  case None
  then show ?thesis using assms by (auto simp: acquire_turn_def)
next
  case (Some br)
  obtain before rs where br: "br = (before, rs)" by fastforce
  show ?thesis
  proof (cases "blocked_by_earlier before rs \<or> has_conflict rs st0")
    case True
    then show ?thesis using assms Some br by (simp add: acquire_turn_def)
  next
    case False
    note A = assms [unfolded acquire_turn_def Some br option.case prod.case if_not_P [OF False]]
    show ?thesis
    proof (cases "try_process_locks persistent io ident rs files0")
      case (Inl e)
      then have "st = lock_cancel ident st0" "files = files0" "result = TurnFailed e" using A by simp_all
      then show ?thesis by blast
    next
      case (Inr r)
      then show ?thesis using A False Some br by (cases r) simp_all
    qed
  qed
qed

lemma acquire_turn_inv:
  assumes inv: "lock_inv persistent w"
    and turn: "acquire_turn persistent io ident (lw_managers w p) (lw_files w) = (st, files, result)"
  shows "lock_inv persistent (w \<lparr> lw_managers := (lw_managers w)(p := st), lw_files := files \<rparr>)"
proof -
  let ?st = "lw_managers w p"
  have ok: "manager_ok ?st" and files: "files_ok (lw_files w)"
    and leases: "persistent \<Longrightarrow> lease_files (lw_managers w q) (lw_files w)" for q
    using inv by (simp_all add: lock_inv_def)
  consider "st = ?st" "files = lw_files w" | "st = lock_cancel ident ?st" "files = lw_files w"
    | before rs where "pending_split ident (lk_pending ?st) = Some (before, rs)" "\<not> has_conflict rs ?st"
        "try_process_locks persistent io ident rs (lw_files w) = Inr (Some files)"
        "st = \<lparr> lk_active = sm_insert ident rs (lk_active ?st), lk_pending = remove_pending ident (lk_pending ?st) \<rparr>"
    using acquire_turn_cases [OF turn] by blast
  then show ?thesis
  proof cases
    case 1
    then show ?thesis using inv by (intro lock_inv_update) (auto simp: lock_inv_def)
  next
    case 2
    then show ?thesis using inv ok files leases by (intro lock_inv_update) (simp_all add: cancel_ok)
  next
    case (3 before rs)
    obtain after where ps: "lk_pending ?st = before @ (ident, rs) # after" "ident \<notin> fst ` set before"
      using pending_split_mem [OF 3(1)] by blast
    have wf: "sm_wf (lk_active ?st)" using ok by (simp add: manager_ok_def)
    have rest: "remove_pending ident (lk_pending ?st) = before @ after" using ps by (simp add: remove_pending_append)
    have fresh: "ident \<notin> fst ` set after" using ok ps by (auto simp: manager_ok_def)
    have "manager_ok st"
      using ok ps fresh wf not_has_conflict [OF wf 3(2)] requests_conflict_sym unfolding manager_ok_def 3(4) rest
      by (auto split: if_splits)
    moreover have "known st i \<Longrightarrow> known ?st i" for i
      using ps wf unfolding known_def 3(4) rest by (auto split: if_splits)
    moreover have "lease_files st files" if persistent
      using lease_files_mono [OF leases [OF that] try_process_locks_ok(2) [OF 3(3)], of p]
        try_process_locks_ok(3) [OF 3(3) that] wf unfolding lease_files_def 3(4) by (auto split: if_splits)
    ultimately show ?thesis
      using inv try_process_locks_ok [OF 3(3)] files leases lease_files_mono by (intro lock_inv_update) blast+
  qed
qed

lemma lock_register_inv:
  assumes "lock_inv persistent w" "ident \<notin> lw_used w"
  shows "lock_inv persistent (w \<lparr> lw_used := insert ident (lw_used w),
    lw_managers := (lw_managers w)(p := lock_register ident rs (lw_managers w p)) \<rparr>)"
proof -
  let ?st = "lock_register ident rs (lw_managers w p)"
  have new: "\<not> known (lw_managers w q) ident" for q using assms by (auto simp: lock_inv_def)
  have known: "known ?st i \<longleftrightarrow> i = ident \<or> known (lw_managers w p) i" for i
    by (auto simp: known_def lock_register_def)
  have "manager_ok (lw_managers w p)" using assms(1) by (simp add: lock_inv_def)
  then have "manager_ok ?st" using new [of p] by (auto simp: manager_ok_def lock_register_def known_def)
  moreover have "lease_files ?st files = lease_files (lw_managers w p) files" for files
    by (simp add: lease_files_def lock_register_def)
  ultimately show ?thesis using assms(1) new known unfolding lock_inv_def by (simp, metis)
qed

lemma lock_release_inv:
  assumes "lock_inv persistent w" "sm_get (lk_active (lw_managers w p)) ident = Some rs"
    and "lock_release ident (lw_managers w p) (lw_files w) = (st, files)"
  shows "lock_inv persistent (w \<lparr> lw_managers := (lw_managers w)(p := st), lw_files := files \<rparr>)"
proof -
  have st: "st = (lw_managers w p) \<lparr> lk_active := sm_remove ident (lk_active (lw_managers w p)) \<rparr>"
    and files: "files = filter (\<lambda>f. fl_owner f \<noteq> ident) (lw_files w)"
    using assms(3) by (simp_all add: lock_release_def)
  have ok: "manager_ok (lw_managers w p)" using assms(1) by (simp add: lock_inv_def)
  have other: "sm_get (lk_active (lw_managers w q)) ident = None" if "q \<noteq> p" for q
  proof (rule ccontr)
    assume "\<not> ?thesis"
    then have "known (lw_managers w q) ident" by (simp add: known_def)
    moreover have "known (lw_managers w p) ident" using assms(2) by (simp add: known_def)
    ultimately show False using assms(1) that unfolding lock_inv_def by blast
  qed
  have keep: "holds files i ts" if "holds (lw_files w) i ts" "i \<noteq> ident" for i ts
    using that by (auto simp: holds_def files)
  have leases: "lease_files (lw_managers w q) (lw_files w)" if persistent for q using assms(1) that by (simp add: lock_inv_def)
  have "files_ok files" using assms(1) by (auto simp: lock_inv_def files_ok_def files)
  moreover have "manager_ok st" using ok by (auto simp: manager_ok_def st split: if_splits)
  moreover have "known st i \<Longrightarrow> known (lw_managers w p) i" for i
    using ok by (auto simp: known_def st manager_ok_def split: if_splits)
  moreover have "lease_files st files" if persistent
    using leases [OF that, of p] keep ok by (auto simp: lease_files_def st manager_ok_def split: if_splits)
  moreover have "lease_files (lw_managers w q) files" if persistent "q \<noteq> p" for q
    using leases [OF that(1), of q] keep other [OF that(2)] unfolding lease_files_def by (metis option.distinct(1))
  ultimately show ?thesis using assms(1) by (intro lock_inv_update)
qed

lemma lock_step_inv: "lock_step persistent debug w w' \<Longrightarrow> lock_inv persistent w \<Longrightarrow> lock_inv persistent w'"
proof (induction rule: lock_step.induct)
  case (cancel w p ident)
  then have ok: "manager_ok (lw_managers w p)" by (simp add: lock_inv_def)
  have "lock_inv persistent (w \<lparr> lw_managers := (lw_managers w)(p := lock_cancel ident (lw_managers w p)), lw_files := lw_files w \<rparr>)"
    by (rule lock_inv_update [OF cancel]) (use cancel cancel_ok [OF ok] in \<open>simp_all add: lock_inv_def\<close>)
  then show ?case by simp
qed (simp_all add: lock_register_inv acquire_turn_inv lock_release_inv)

lemma world_new_inv: "lock_inv persistent world_new"
  by (simp add: lock_inv_def world_new_def lock_new_def files_ok_def manager_ok_def known_def lease_files_def)

lemma lock_run_inv: "lock_run persistent debug w w' \<Longrightarrow> lock_inv persistent w \<Longrightarrow> lock_inv persistent w'"
  by (induction rule: rtranclp_induct) (auto intro: lock_step_inv)

section \<open>No overtaking\<close>

text \<open>
  The situation of a waiter: everybody before it in the queue was known when it was registered, and
  no lease that was asked for later conflicts with it.
\<close>
definition first_served :: "rstring set \<Rightarrow> rstring \<Rightarrow> scope_lock_request list \<Rightarrow> lock_state \<Rightarrow> bool" where
  "first_served old ident rs st \<longleftrightarrow> (ident \<in> fst ` set (lk_pending st) \<longrightarrow>
     (\<exists>before after. lk_pending st = before @ (ident, rs) # after \<and> fst ` set before \<subseteq> old)
     \<and> (\<forall>i s. sm_get (lk_active st) i = Some s \<longrightarrow> i \<notin> old \<longrightarrow> \<not> requests_conflict s rs))"

lemma first_served_cancel: "first_served old ident rs st \<Longrightarrow> first_served old ident rs (lock_cancel other st)"
proof (cases "other = ident")
  case False
  assume F: "first_served old ident rs st"
  show ?thesis unfolding first_served_def
  proof (intro impI conjI)
    assume "ident \<in> fst ` set (lk_pending (lock_cancel other st))"
    then have "ident \<in> fst ` set (lk_pending st)" by (auto simp: lock_cancel_def)
    then obtain before after where "lk_pending st = before @ (ident, rs) # after" "fst ` set before \<subseteq> old"
      and "\<forall>i s. sm_get (lk_active st) i = Some s \<longrightarrow> i \<notin> old \<longrightarrow> \<not> requests_conflict s rs"
      using F unfolding first_served_def by blast
    then have "lk_pending (lock_cancel other st)
        = filter (\<lambda>p. fst p \<noteq> other) before @ (ident, rs) # filter (\<lambda>p. fst p \<noteq> other) after"
      "fst ` set (filter (\<lambda>p. fst p \<noteq> other) before) \<subseteq> old"
      "\<forall>i s. sm_get (lk_active (lock_cancel other st)) i = Some s \<longrightarrow> i \<notin> old \<longrightarrow> \<not> requests_conflict s rs"
      using False by (auto simp: lock_cancel_def)
    then show "\<exists>before after. lk_pending (lock_cancel other st) = before @ (ident, rs) # after \<and> fst ` set before \<subseteq> old"
      "\<forall>i s. sm_get (lk_active (lock_cancel other st)) i = Some s \<longrightarrow> i \<notin> old \<longrightarrow> \<not> requests_conflict s rs" by blast+
  qed
qed (auto simp: first_served_def lock_cancel_def)

lemma first_served_register:
  assumes "first_served old ident rs st" "other \<noteq> ident"
  shows "first_served old ident rs (lock_register other qs st)"
  unfolding first_served_def
proof (intro impI conjI)
  assume "ident \<in> fst ` set (lk_pending (lock_register other qs st))"
  then have "ident \<in> fst ` set (lk_pending st)" using assms(2) by (auto simp: lock_register_def)
  then obtain before after where "lk_pending st = before @ (ident, rs) # after" "fst ` set before \<subseteq> old"
    and act: "\<forall>i s. sm_get (lk_active st) i = Some s \<longrightarrow> i \<notin> old \<longrightarrow> \<not> requests_conflict s rs"
    using assms(1) unfolding first_served_def by blast
  then have "lk_pending (lock_register other qs st) = before @ (ident, rs) # (after @ [(other, qs)]) \<and> fst ` set before \<subseteq> old"
    by (simp add: lock_register_def)
  then show "\<exists>before after. lk_pending (lock_register other qs st) = before @ (ident, rs) # after \<and> fst ` set before \<subseteq> old"
    by blast
  show "\<forall>i s. sm_get (lk_active (lock_register other qs st)) i = Some s \<longrightarrow> i \<notin> old \<longrightarrow> \<not> requests_conflict s rs"
    using act by (simp add: lock_register_def)
qed

lemma first_served_release:
  assumes "first_served old ident rs st" "sm_wf (lk_active st)"
  shows "first_served old ident rs (st \<lparr> lk_active := sm_remove other (lk_active st) \<rparr>)"
proof -
  have "sm_get (sm_remove other (lk_active st)) i = Some s \<Longrightarrow> sm_get (lk_active st) i = Some s" for i s
    using assms(2) by (simp split: if_splits)
  moreover have p: "lk_pending (st \<lparr> lk_active := sm_remove other (lk_active st) \<rparr>) = lk_pending st"
    "lk_active (st \<lparr> lk_active := sm_remove other (lk_active st) \<rparr>) = sm_remove other (lk_active st)" by simp_all
  ultimately show ?thesis using assms(1) unfolding first_served_def p by blast
qed

lemma remove_pending_other:
  "other \<noteq> ident \<Longrightarrow> remove_pending other (xs @ (ident, rs) # ys)
    = (if other \<in> fst ` set xs then remove_pending other xs @ (ident, rs) # ys else xs @ (ident, rs) # remove_pending other ys)"
  by (induction xs) auto

lemma set_remove_pending: "set (remove_pending other xs) \<subseteq> set xs"
  by (induction xs) auto

lemma pending_split_other:
  "other \<noteq> ident \<Longrightarrow> other \<notin> fst ` set xs \<Longrightarrow> pending_split other (xs @ (ident, rs) # ys)
    = map_option (\<lambda>(before, qs). (xs @ (ident, rs) # before, qs)) (pending_split other ys)"
  by (induction xs) (auto split: option.split simp: map_option_case)

lemma first_served_acquire:
  assumes F: "first_served old ident rs st" and ok: "manager_ok st"
    and split: "pending_split other (lk_pending st) = Some (before', qs)" and free: "\<not> blocked_by_earlier before' qs"
  shows "first_served old ident rs \<lparr> lk_active = sm_insert other qs (lk_active st), lk_pending = remove_pending other (lk_pending st) \<rparr>"
    (is "first_served _ _ _ ?st")
  unfolding first_served_def
proof (intro impI conjI allI)
  obtain after' where ps: "lk_pending st = before' @ (other, qs) # after'" "other \<notin> fst ` set before'"
    using pending_split_mem [OF split] by blast
  have pending: "lk_pending ?st = before' @ after'" using ps by (simp add: remove_pending_append)
  assume "ident \<in> fst ` set (lk_pending ?st)"
  then have "ident \<in> fst ` set (lk_pending st)" and neq: "other \<noteq> ident"
    using pending ps ok by (auto simp: manager_ok_def)
  then obtain before after where q: "lk_pending st = before @ (ident, rs) # after" "fst ` set before \<subseteq> old"
    and act: "\<And>i s. sm_get (lk_active st) i = Some s \<Longrightarrow> i \<notin> old \<Longrightarrow> \<not> requests_conflict s rs"
    using F unfolding first_served_def by blast
  show "\<exists>before after. lk_pending ?st = before @ (ident, rs) # after \<and> fst ` set before \<subseteq> old"
    using q neq set_remove_pending [of other before] by (auto simp: remove_pending_other)
  fix i s
  assume i: "sm_get (lk_active ?st) i = Some s" "i \<notin> old"
  show "\<not> requests_conflict s rs"
  proof (cases "i = other")
    case True
    then have "other \<notin> fst ` set before" using q(2) i(2) by blast
    then have "(ident, rs) \<in> set before'" using split q(1) neq by (auto simp: pending_split_other)
    moreover have "s = qs" using i(1) True ok by (simp add: manager_ok_def)
    ultimately show ?thesis using free by (auto simp: blocked_by_earlier_def list_ex_iff)
  next
    case False
    then show ?thesis using i ok act by (simp add: manager_ok_def)
  qed
qed

lemma lock_step_first_served:
  assumes "lock_step persistent debug w w'" "lock_inv persistent w" "old \<subseteq> lw_used w" "ident \<in> old"
    and "first_served old ident rs (lw_managers w p)"
  shows "first_served old ident rs (lw_managers w' p) \<and> old \<subseteq> lw_used w'"
  using assms(1)
proof (cases rule: lock_step.cases)
  case (register other q requests)
  then have "other \<noteq> ident" using assms(3,4) by blast
  then show ?thesis using register(1) assms(3,5) by (auto simp: first_served_register)
next
  case (turn io other q st files result)
  have ok: "manager_ok (lw_managers w q)" using assms(2) by (simp add: lock_inv_def)
  have "first_served old ident rs st" if "q = p"
    using acquire_turn_cases [OF turn(2)] assms(5) first_served_cancel first_served_acquire [OF _ ok] that by blast
  then show ?thesis using turn(1) assms(3,5) by simp
next
  case (cancel q other)
  then show ?thesis using assms(3,5) first_served_cancel by auto
next
  case (release q other requests st files)
  have "sm_wf (lk_active (lw_managers w q))" using assms(2) by (simp add: lock_inv_def manager_ok_def)
  then show ?thesis using release(1,3) assms(3,5) first_served_release by (auto simp: lock_release_def)
qed

lemma lock_run_first_served:
  assumes "lock_run persistent debug w w'" "lock_inv persistent w" "ident \<in> lw_used w"
    and "first_served (lw_used w) ident rs (lw_managers w p)"
  shows "first_served (lw_used w) ident rs (lw_managers w' p)"
proof -
  have "lock_inv persistent w' \<and> first_served (lw_used w) ident rs (lw_managers w' p) \<and> lw_used w \<subseteq> lw_used w'"
    using assms(1)
  proof (induction rule: rtranclp_induct)
    case (step w1 w2)
    then show ?case using lock_step_inv lock_step_first_served [OF step(2) _ _ assms(3)] by blast
  qed (use assms in auto)
  then show ?thesis by blast
qed

section \<open>Properties\<close>

text \<open>
  C3: mutual exclusion.  In every state that managers of any number of processes can reach, two
  leases that are held at the same time and were asked for with conflicting requests do not exist:
  within one manager always, and across processes when the managers share a lock directory.
\<close>
theorem scope_locks_exclusive:
  assumes "lock_run persistent debug world_new w"
    and "sm_get (lk_active (lw_managers w p)) i = Some (normalize_requests debug rs)"
    and "sm_get (lk_active (lw_managers w q)) j = Some (normalize_requests debug qs)"
    and "p = q \<or> persistent" "(p, i) \<noteq> (q, j)"
  shows "\<not> requests_conflict rs qs"
proof -
  have inv: "lock_inv persistent w" by (rule lock_run_inv [OF assms(1) world_new_inv])
  have "\<not> requests_conflict (normalize_requests debug rs) (normalize_requests debug qs)"
  proof (cases "p = q")
    case True
    have "manager_ok (lw_managers w p)" using inv by (simp add: lock_inv_def)
    then show ?thesis using assms(2,3,5) True unfolding manager_ok_def by blast
  next
    case False
    have "known (lw_managers w p) i" "known (lw_managers w q) j" using assms(2,3) by (simp_all add: known_def)
    then have "i \<noteq> j" using inv False unfolding lock_inv_def by blast
    moreover have "holds (lw_files w) i (process_targets (normalize_requests debug rs))"
      "holds (lw_files w) j (process_targets (normalize_requests debug qs))"
      using inv assms(2-4) False unfolding lock_inv_def lease_files_def by blast+
    moreover have "files_ok (lw_files w)" using inv by (simp add: lock_inv_def)
    ultimately show ?thesis using process_tier.holders_exclude by blast
  qed
  then show ?thesis using covers_conflict [OF normalize_covers normalize_covers] by blast
qed

text \<open>
  C19: fairness.  While a waiter waits, nobody who asked later gets a lease of the same manager that
  conflicts with it; and the locks do not deadlock: when no lease is held, the first waiter of a
  manager without lock files acquires its lease in its next turn.
\<close>
theorem scope_locks_fair:
  assumes "lock_run persistent debug world_new w" "lock_run persistent debug w w'"
    and "lk_pending (lw_managers w p) = before @ (ident, rs) # after" "ident \<in> fst ` set (lk_pending (lw_managers w' p))"
  shows "(\<forall>i s. sm_get (lk_active (lw_managers w' p)) i = Some s \<longrightarrow> i \<notin> lw_used w \<longrightarrow> \<not> requests_conflict s rs)
    \<and> (before = [] \<longrightarrow> lk_active (lw_managers w p) = []
        \<longrightarrow> (\<exists>st. acquire_turn False io ident (lw_managers w p) files = (st, files, TurnAcquired)
            \<and> lk_active st = [(ident, rs)]))"
proof (intro conjI impI)
  have inv: "lock_inv persistent w" by (rule lock_run_inv [OF assms(1) world_new_inv])
  have known: "known (lw_managers w p) i \<Longrightarrow> i \<in> lw_used w" for i using inv by (auto simp: lock_inv_def)
  have used: "fst ` set (lk_pending (lw_managers w p)) \<subseteq> lw_used w"
    "sm_get (lk_active (lw_managers w p)) i = Some s \<Longrightarrow> i \<in> lw_used w" for i s
    using known by (auto simp: known_def)
  have "fst ` set before \<subseteq> lw_used w" "ident \<in> lw_used w" using used(1) assms(3) by auto
  moreover from this have "first_served (lw_used w) ident rs (lw_managers w p)"
    using assms(3) used(2) unfolding first_served_def by blast
  ultimately have "first_served (lw_used w) ident rs (lw_managers w' p)"
    using lock_run_first_served [OF assms(2) inv] by blast
  then show "\<forall>i s. sm_get (lk_active (lw_managers w' p)) i = Some s \<longrightarrow> i \<notin> lw_used w \<longrightarrow> \<not> requests_conflict s rs"
    using assms(4) unfolding first_served_def by blast
next
  assume "before = []" "lk_active (lw_managers w p) = []"
  then show "\<exists>st. acquire_turn False io ident (lw_managers w p) files = (st, files, TurnAcquired) \<and> lk_active st = [(ident, rs)]"
    using assms(3) by (simp add: acquire_turn_def blocked_by_earlier_def has_conflict_def try_process_locks_def)
qed

section \<open>Witnesses\<close>

definition sample_scope :: "rstring \<Rightarrow> scope_lock_request list" where
  "sample_scope key = [\<lparr> lr_scope = ScResource ''n'' key, lr_mode = LockWrite \<rparr>]"

definition sample_debug :: "scoped_resource \<Rightarrow> rstring" where
  "sample_debug s = []"

definition sample_locks :: "rstring \<Rightarrow> rstring \<Rightarrow> lock_world" where
  "sample_locks x y = \<lparr> lw_managers = (\<lambda>_. lock_new)(0 := \<lparr> lk_active = [(''i'', sample_scope x)], lk_pending = [(''j'', sample_scope y)] \<rparr>),
     lw_files = [], lw_used = {''i'', ''j''} \<rparr>"

lemma sample_normalized: "normalize_requests sample_debug (sample_scope x) = sample_scope x"
  by (simp add: normalize_requests_def sample_scope_def sample_debug_def)

lemma sample_locks_run: "lock_run False sample_debug world_new (sample_locks x y)"
proof -
  let ?m1 = "\<lparr> lk_active = [], lk_pending = [(''i'', sample_scope x)] \<rparr>"
  let ?m2 = "\<lparr> lk_active = [], lk_pending = [(''i'', sample_scope x), (''j'', sample_scope y)] \<rparr>"
  let ?w1 = "\<lparr> lw_managers = (\<lambda>_. lock_new)(0 := ?m1), lw_files = [], lw_used = {''i''} \<rparr>"
  let ?w2 = "\<lparr> lw_managers = (\<lambda>_. lock_new)(0 := ?m2), lw_files = [], lw_used = {''j'', ''i''} \<rparr>"
  have "lock_step False sample_debug world_new ?w1"
    using lock_step.register [of "''i''" world_new False sample_debug 0 "sample_scope x"]
    by (simp add: world_new_def lock_register_def lock_new_def sample_normalized)
  moreover have "lock_step False sample_debug ?w1 ?w2"
    using lock_step.register [of "''j''" ?w1 False sample_debug 0 "sample_scope y"]
    by (simp add: lock_register_def sample_normalized)
  moreover have "lock_step False sample_debug ?w2 (sample_locks x y)"
    using lock_step.turn [of False "\<lambda>_. None" "''i''" ?w2 0 "lw_managers (sample_locks x y) 0" "[]" TurnAcquired sample_debug]
    by (simp add: acquire_turn_def blocked_by_earlier_def has_conflict_def try_process_locks_def sample_locks_def insert_commute)
  ultimately show ?thesis by (meson converse_rtranclp_into_rtranclp rtranclp.rtrancl_refl)
qed

theorem scope_locks_exclusive_witness:
  "\<exists>w. lock_run False sample_debug world_new w
    \<and> sm_get (lk_active (lw_managers w 0)) ''i'' = Some (sample_scope ''x'')
    \<and> sm_get (lk_active (lw_managers w 0)) ''j'' = Some (sample_scope ''y'')
    \<and> \<not> requests_conflict (sample_scope ''x'') (sample_scope ''y'')"
proof -
  let ?w = "sample_locks ''x'' ''y''"
  let ?st = "\<lparr> lk_active = [(''i'', sample_scope ''x''), (''j'', sample_scope ''y'')], lk_pending = [] \<rparr>"
  let ?w' = "?w \<lparr> lw_managers := (lw_managers ?w)(0 := ?st), lw_files := [] \<rparr>"
  have "\<not> requests_conflict (sample_scope ''y'') (sample_scope ''x'')" by (simp add: requests_conflict_def sample_scope_def)
  then have "lock_step False sample_debug ?w ?w'"
    by (intro lock_step.turn [of False "\<lambda>_. None" "''j''" ?w 0 ?st "[]" TurnAcquired sample_debug])
      (simp add: acquire_turn_def blocked_by_earlier_def has_conflict_def try_process_locks_def sample_locks_def)
  then have run: "lock_run False sample_debug world_new ?w'" using sample_locks_run by (rule rtranclp.rtrancl_into_rtrancl [rotated])
  have a: "sm_get (lk_active (lw_managers ?w' 0)) ''i'' = Some (normalize_requests sample_debug (sample_scope ''x''))"
    "sm_get (lk_active (lw_managers ?w' 0)) ''j'' = Some (normalize_requests sample_debug (sample_scope ''y''))"
    unfolding sample_normalized by (simp_all add: sm_get_def)
  have "\<not> requests_conflict (sample_scope ''x'') (sample_scope ''y'')"
    by (rule scope_locks_exclusive [OF run a]) simp_all
  then show ?thesis using run a unfolding sample_normalized by blast
qed

theorem scope_locks_fair_witness:
  "requests_conflict (sample_scope ''x'') (sample_scope ''x'')
   \<and> sm_get (lk_active (lw_managers (sample_locks ''x'' ''x'') 0)) ''k'' \<noteq> Some (sample_scope ''x'')"
proof -
  let ?w = "sample_locks ''x'' ''x''"
  have c: "requests_conflict (sample_scope ''x'') (sample_scope ''x'')" by (simp add: requests_conflict_def sample_scope_def)
  have p: "lk_pending (lw_managers ?w 0) = [] @ (''j'', sample_scope ''x'') # []" "''j'' \<in> fst ` set (lk_pending (lw_managers ?w 0))"
    by (simp_all add: sample_locks_def)
  have "''k'' \<notin> lw_used ?w" by (simp add: sample_locks_def)
  then show ?thesis
    using scope_locks_fair [OF sample_locks_run rtranclp.rtrancl_refl p, THEN conjunct1] c by blast
qed

end
