(* ===== verification/Resource_Adaptation.thy ===== *)
theory Resource_Adaptation
  imports Contract Ordered_Map
begin

text \<open>
  Quotas of execution resources and their adaptation, runtime/src/execution_core/graph/resources/manager.rs:
  the window of observations, its metrics, and the policy that moves the effective limit of a resource.
  Durations are nanoseconds.  The Wilson upper bound is computed with floating point numbers in the
  code; here it is an argument \<open>wilson\<close> of the definitions that use it, and nothing is assumed of it.
\<close>

section \<open>Resources\<close>

datatype execution_resource_kind =
  KSessionTurn
| KProvider
| KProviderAccount rstring
| KProviderModel rstring
| KProviderTokenPool rstring
| KAgent
| KParentExecution rstring
| KTool
| KCustom rstring

text \<open>The maps of the code are hashed; some order of the keys lets ordered maps stand for them.\<close>
fun kind_code :: "execution_resource_kind \<Rightarrow> nat \<times> rstring" where
  "kind_code KSessionTurn = (0, [])"
| "kind_code KProvider = (1, [])"
| "kind_code (KProviderAccount s) = (2, s)"
| "kind_code (KProviderModel s) = (3, s)"
| "kind_code (KProviderTokenPool s) = (4, s)"
| "kind_code KAgent = (5, [])"
| "kind_code (KParentExecution s) = (6, s)"
| "kind_code KTool = (7, [])"
| "kind_code (KCustom s) = (8, s)"

lemma kind_code_inject: "kind_code a = kind_code b \<Longrightarrow> a = b"
  by (cases a; cases b) auto

instantiation execution_resource_kind :: linorder
begin

definition less_eq_execution_resource_kind :: "execution_resource_kind \<Rightarrow> execution_resource_kind \<Rightarrow> bool" where
  "less_eq_execution_resource_kind a b = (fst (kind_code a) < fst (kind_code b)
     \<or> fst (kind_code a) = fst (kind_code b) \<and> snd (kind_code a) \<le> snd (kind_code b))"

definition less_execution_resource_kind :: "execution_resource_kind \<Rightarrow> execution_resource_kind \<Rightarrow> bool" where
  "less_execution_resource_kind a b = (fst (kind_code a) < fst (kind_code b)
     \<or> fst (kind_code a) = fst (kind_code b) \<and> snd (kind_code a) < snd (kind_code b))"

instance
proof
  fix a b :: execution_resource_kind
  assume "a \<le> b" "b \<le> a"
  then have "kind_code a = kind_code b" by (auto simp: less_eq_execution_resource_kind_def prod_eq_iff)
  then show "a = b" by (rule kind_code_inject)
qed (auto simp: less_eq_execution_resource_kind_def less_execution_resource_kind_def)

end

record resource_quota =
  rq_minimum :: nat
  rq_target :: nat
  rq_maximum :: nat

datatype resource_wait_reason =
  WrCapacity
| WrClassFifo
| WrHigherServiceClass
| WrScopeInfeasible
| WrDeadlineExpired
| WrInstancePendingLimit
| WrClassPendingLimit
| WrKeyPendingLimit

datatype resource_acquire_error =
  ReInvalidQuota nat nat nat
| ReInvalidInteractiveReserve nat nat
| ReUnknownResource execution_resource_kind
| ReDemandExceedsQuota execution_resource_kind nat nat
| ReRegistrationLost
| ReInvalidAdmissionPolicy
| ReDuplicateRequest rstring
| ReAdmissionOverloaded resource_wait_reason
| ReAdmissionDeferred resource_wait_reason
| ReTimedOut execution_resource_kind nat

definition quota_new :: "nat \<Rightarrow> nat \<Rightarrow> nat \<Rightarrow> (resource_acquire_error, resource_quota) result" where
  "quota_new minimum target maximum =
    (if minimum = 0 \<or> minimum > target \<or> target > maximum then Err (ReInvalidQuota minimum target maximum)
     else Ok \<lparr> rq_minimum = minimum, rq_target = target, rq_maximum = maximum \<rparr>)"

definition duration_millis :: "nat \<Rightarrow> nat" where
  "duration_millis d = min (d div 1000000) u64_max"

section \<open>Observations\<close>

datatype resource_result_class = RcCompleted | RcFailed | RcCancelled | RcTimedOut | RcDownstreamOverload

record resource_observation =
  ro_observed_at_ms :: nat
  ro_queue_wait :: nat
  ro_service_time :: nat
  ro_result_class :: resource_result_class

record resource_sample =
  sa_observed_at_ms :: nat
  sa_queue_wait_ms :: nat
  sa_service_time_ms :: nat
  sa_result_class :: resource_result_class

datatype resource_limit_adjustment =
  AjHold
| AjIncreased
| AjDecreasedOverload
| AjDecreasedFailureUpperBound
| AjDecreasedServiceRegression
| AjResetToConfiguredTarget

record increase_baseline =
  ib_sample_sequence :: nat
  ib_service_p95_ms :: nat
  ib_throughput_per_minute :: nat

record adaptive_state =
  av_healthy_streak :: nat
  av_total_samples :: nat
  av_last_adjustment_at_ms :: "nat option"
  av_last_adjustment :: resource_limit_adjustment
  av_increase_baseline :: "increase_baseline option"

definition adaptive_default :: adaptive_state where
  "adaptive_default = \<lparr> av_healthy_streak = 0, av_total_samples = 0, av_last_adjustment_at_ms = None,
     av_last_adjustment = AjHold, av_increase_baseline = None \<rparr>"

record resource_state =
  rs_quota :: resource_quota
  rs_effective_limit :: nat
  rs_active :: "(rstring, nat) smap"
  rs_samples :: "resource_sample list"
  rs_adaptive :: adaptive_state

definition resource_new :: "resource_quota \<Rightarrow> resource_state" where
  "resource_new quota = \<lparr> rs_quota = quota, rs_effective_limit = rq_target quota, rs_active = [], rs_samples = [],
     rs_adaptive = adaptive_default \<rparr>"

definition active_weight :: "resource_state \<Rightarrow> nat" where
  "active_weight rs = sum_list (sm_values (rs_active rs))"

definition resource_sample_capacity :: nat where "resource_sample_capacity = 256"
definition adaptation_window :: nat where "adaptation_window = 16"
definition adaptation_half_window :: nat where "adaptation_half_window = 8"
definition adjustment_cooldown_ms :: nat where "adjustment_cooldown_ms = 5000"
definition freshness_window_ms :: nat where "freshness_window_ms = 60000"
definition high_queue_p95_ms :: nat where "high_queue_p95_ms = 100"
definition failure_timeout_ucb_threshold_bp :: nat where "failure_timeout_ucb_threshold_bp = 3500"

definition push_sample :: "resource_sample list \<Rightarrow> resource_sample \<Rightarrow> resource_sample list" where
  "push_sample samples s = (if length samples = resource_sample_capacity then tl samples else samples) @ [s]"

definition percentile :: "nat list \<Rightarrow> nat \<Rightarrow> nat" where
  "percentile sorted_values numerator = (let i = ((length sorted_values - 1) * numerator) div 100 in
     if i < length sorted_values then sorted_values ! i else 0)"

record resource_latency_snapshot =
  ls_samples :: nat
  ls_p50_ms :: nat
  ls_p95_ms :: nat
  ls_max_ms :: nat

definition latency_snapshot_from_samples ::
  "resource_sample list \<Rightarrow> (resource_sample \<Rightarrow> nat) \<Rightarrow> resource_latency_snapshot" where
  "latency_snapshot_from_samples samples value = (let sorted_values = sort (map value samples) in
     \<lparr> ls_samples = length sorted_values, ls_p50_ms = percentile sorted_values 50, ls_p95_ms = percentile sorted_values 95,
       ls_max_ms = (if sorted_values = [] then 0 else last sorted_values) \<rparr>)"

record resource_window_metrics =
  wm_samples :: nat
  wm_failed :: nat
  wm_cancelled :: nat
  wm_timed_out :: nat
  wm_overloaded :: nat
  wm_queue_p95_ms :: nat
  wm_service_p95_ms :: nat
  wm_throughput_per_minute :: nat

definition count_class :: "resource_result_class \<Rightarrow> resource_sample list \<Rightarrow> nat" where
  "count_class c samples = length (filter (\<lambda>s. sa_result_class s = c) samples)"

definition window_metrics :: "resource_sample list \<Rightarrow> resource_window_metrics" where
  "window_metrics samples0 =
    (if samples0 = [] then \<lparr> wm_samples = 0, wm_failed = 0, wm_cancelled = 0, wm_timed_out = 0, wm_overloaded = 0,
        wm_queue_p95_ms = 0, wm_service_p95_ms = 0, wm_throughput_per_minute = 0 \<rparr>
     else let samples = sort_key sa_observed_at_ms samples0;
        first_at = sa_observed_at_ms (hd samples);
        final = last samples;
        elapsed_ms = max (sat_add64 (sa_observed_at_ms final - first_at) (sa_service_time_ms final)) 1
      in \<lparr> wm_samples = length samples, wm_failed = count_class RcFailed samples,
           wm_cancelled = count_class RcCancelled samples, wm_timed_out = count_class RcTimedOut samples,
           wm_overloaded = count_class RcDownstreamOverload samples,
           wm_queue_p95_ms = percentile (sort (map sa_queue_wait_ms samples)) 95,
           wm_service_p95_ms = percentile (sort (map sa_service_time_ms samples)) 95,
           wm_throughput_per_minute = sat_mul64 (count_class RcCompleted samples) 60000 div elapsed_ms \<rparr>)"

definition rate_basis_points :: "nat \<Rightarrow> nat \<Rightarrow> nat option" where
  "rate_basis_points n samples = (if samples > 0 then Some (min (sat_mul64 n 10000 div samples) 10000) else None)"

definition failure_timeout_upper_bound :: "(nat \<Rightarrow> nat \<Rightarrow> nat option) \<Rightarrow> resource_window_metrics \<Rightarrow> nat option" where
  "failure_timeout_upper_bound wilson m = (let adverse = sat_add64 (wm_failed m) (wm_timed_out m) in
     if adverse = 0 then (if wm_samples m > 0 then Some 0 else None) else wilson adverse (wm_samples m))"

section \<open>Adaptation\<close>

definition div_ceil :: "nat \<Rightarrow> nat \<Rightarrow> nat" where
  "div_ceil n d = (n + d - 1) div d"

definition clamp :: "nat \<Rightarrow> nat \<Rightarrow> nat \<Rightarrow> nat" where
  "clamp x lo hi = (if x < lo then lo else if hi < x then hi else x)"

definition apply_limit :: "nat \<Rightarrow> nat \<Rightarrow> resource_limit_adjustment \<Rightarrow> resource_state \<Rightarrow> resource_state" where
  "apply_limit desired observed_at_ms adjustment rs = rs \<lparr>
     rs_effective_limit := clamp desired (rq_minimum (rs_quota rs)) (rq_maximum (rs_quota rs)),
     rs_adaptive := (rs_adaptive rs) \<lparr> av_last_adjustment_at_ms := Some observed_at_ms, av_last_adjustment := adjustment,
       av_increase_baseline := (if adjustment \<noteq> AjIncreased then None else av_increase_baseline (rs_adaptive rs)) \<rparr> \<rparr>"

definition set_streak :: "nat \<Rightarrow> resource_state \<Rightarrow> resource_state" where
  "set_streak n rs = rs \<lparr> rs_adaptive := (rs_adaptive rs) \<lparr> av_healthy_streak := n \<rparr> \<rparr>"

definition regressed_after_increase :: "resource_window_metrics \<Rightarrow> resource_state \<Rightarrow> bool" where
  "regressed_after_increase current rs = (case av_increase_baseline (rs_adaptive rs) of
     None \<Rightarrow> False
   | Some b \<Rightarrow> av_total_samples (rs_adaptive rs) - ib_sample_sequence b \<ge> adaptation_half_window
       \<and> ib_service_p95_ms b > 0 \<and> wm_service_p95_ms current > sat_mul64 (ib_service_p95_ms b) 3 div 2
       \<and> wm_throughput_per_minute current \<le> ib_throughput_per_minute b)"

definition window_healthy :: "resource_window_metrics \<Rightarrow> resource_window_metrics \<Rightarrow> bool" where
  "window_healthy current previous = (wm_queue_p95_ms current \<ge> high_queue_p95_ms
     \<and> (wm_service_p95_ms previous = 0 \<or> wm_service_p95_ms current \<le> sat_mul64 (wm_service_p95_ms previous) 6 div 5)
     \<and> wm_throughput_per_minute current > sat_mul64 (wm_throughput_per_minute previous) 21 div 20
     \<and> wm_failed current = 0 \<and> wm_timed_out current = 0 \<and> wm_overloaded current = 0)"

definition apply_adaptive_policy :: "(nat \<Rightarrow> nat \<Rightarrow> nat option) \<Rightarrow> nat \<Rightarrow> resource_state \<Rightarrow> resource_state" where
  "apply_adaptive_policy wilson observed_at_ms rs =
    (let limit = rs_effective_limit rs; minimum = rq_minimum (rs_quota rs);
         cooldown_ready = (case av_last_adjustment_at_ms (rs_adaptive rs) of
           None \<Rightarrow> True | Some t \<Rightarrow> observed_at_ms - t \<ge> adjustment_cooldown_ms)
     in if rs_samples rs \<noteq> [] \<and> sa_result_class (last (rs_samples rs)) = RcDownstreamOverload \<and> cooldown_ready \<and> limit > minimum
        then apply_limit (max (div_ceil limit 2) minimum) observed_at_ms AjDecreasedOverload rs
        else if length (rs_samples rs) < adaptation_window then set_streak 0 rs
        else let recent = take adaptation_window (rev (rs_samples rs));
                 current = window_metrics (take adaptation_half_window recent);
                 previous = window_metrics (drop adaptation_half_window recent);
                 whole = window_metrics recent;
                 failure_ucb = (case failure_timeout_upper_bound wilson whole of Some b \<Rightarrow> b | None \<Rightarrow> 0)
          in if failure_ucb \<ge> failure_timeout_ucb_threshold_bp \<and> sat_add64 (wm_failed whole) (wm_timed_out whole) > 0
               \<and> cooldown_ready \<and> limit > minimum
             then apply_limit (limit - max (div_ceil limit 8) 1) observed_at_ms AjDecreasedFailureUpperBound rs
             else if regressed_after_increase current rs \<and> cooldown_ready \<and> limit > minimum
             then apply_limit (limit - max (div_ceil limit 8) 1) observed_at_ms AjDecreasedServiceRegression rs
             else let streak = (if window_healthy current previous then min (av_healthy_streak (rs_adaptive rs) + 1) 255 else 0);
                      rs1 = set_streak streak rs
               in if streak \<ge> 3 \<and> cooldown_ready \<and> limit < rq_maximum (rs_quota rs)
                  then apply_limit (sat_add64 limit (max (div_ceil limit 8) 1)) observed_at_ms AjIncreased
                    (rs1 \<lparr> rs_adaptive := (rs_adaptive rs1) \<lparr> av_healthy_streak := 0, av_increase_baseline := Some
                       \<lparr> ib_sample_sequence = av_total_samples (rs_adaptive rs1),
                         ib_service_p95_ms = wm_service_p95_ms current,
                         ib_throughput_per_minute = wm_throughput_per_minute current \<rparr> \<rparr> \<rparr>)
                  else rs1)"

text \<open>A sample is recorded and the policy applied; \<open>record_observation\<close> keeps the times of the samples monotone.\<close>
definition add_sample :: "(nat \<Rightarrow> nat \<Rightarrow> nat option) \<Rightarrow> resource_sample \<Rightarrow> resource_state \<Rightarrow> resource_state" where
  "add_sample wilson s rs = apply_adaptive_policy wilson (sa_observed_at_ms s) (rs \<lparr> rs_samples := push_sample (rs_samples rs) s,
     rs_adaptive := (rs_adaptive rs) \<lparr> av_total_samples := sat_add64 (av_total_samples (rs_adaptive rs)) 1 \<rparr> \<rparr>)"

definition observation_sample :: "resource_observation \<Rightarrow> resource_state \<Rightarrow> resource_sample" where
  "observation_sample ob rs = \<lparr> sa_observed_at_ms = (if rs_samples rs = [] then ro_observed_at_ms ob
       else max (sa_observed_at_ms (last (rs_samples rs))) (ro_observed_at_ms ob)),
     sa_queue_wait_ms = duration_millis (ro_queue_wait ob), sa_service_time_ms = duration_millis (ro_service_time ob),
     sa_result_class = ro_result_class ob \<rparr>"

section \<open>Snapshots\<close>

datatype resource_observation_freshness = FrUnknown | FrFresh | FrStale

record resource_snapshot =
  sn_kind :: execution_resource_kind
  sn_quota :: resource_quota
  sn_effective_limit :: nat
  sn_interactive_reserve :: nat
  sn_active_leases :: nat
  sn_queued_waiters :: nat
  sn_queue_wait :: resource_latency_snapshot
  sn_service_time :: resource_latency_snapshot
  sn_throughput_per_minute :: nat
  sn_failure_rate :: "nat option"
  sn_timeout_rate :: "nat option"
  sn_overload_rate :: "nat option"
  sn_cancelled_rate :: "nat option"
  sn_failure_timeout_upper_bound :: "nat option"
  sn_sample_count :: nat
  sn_last_observed_at_ms :: "nat option"
  sn_freshness :: resource_observation_freshness
  sn_last_adjustment :: resource_limit_adjustment

definition snapshot_for ::
  "(nat \<Rightarrow> nat \<Rightarrow> nat option) \<Rightarrow> execution_resource_kind \<Rightarrow> nat \<Rightarrow> nat \<Rightarrow> nat \<Rightarrow> resource_state \<Rightarrow> resource_snapshot" where
  "snapshot_for wilson kind queued_waiters interactive_reserve now rs =
    (let m = window_metrics (rs_samples rs);
         final = (if rs_samples rs = [] then None else Some (sa_observed_at_ms (last (rs_samples rs))))
     in \<lparr> sn_kind = kind, sn_quota = rs_quota rs, sn_effective_limit = rs_effective_limit rs,
          sn_interactive_reserve = interactive_reserve, sn_active_leases = active_weight rs,
          sn_queued_waiters = queued_waiters,
          sn_queue_wait = latency_snapshot_from_samples (rs_samples rs) sa_queue_wait_ms,
          sn_service_time = latency_snapshot_from_samples (rs_samples rs) sa_service_time_ms,
          sn_throughput_per_minute = wm_throughput_per_minute m,
          sn_failure_rate = rate_basis_points (wm_failed m) (wm_samples m),
          sn_timeout_rate = rate_basis_points (wm_timed_out m) (wm_samples m),
          sn_overload_rate = rate_basis_points (wm_overloaded m) (wm_samples m),
          sn_cancelled_rate = rate_basis_points (wm_cancelled m) (wm_samples m),
          sn_failure_timeout_upper_bound = failure_timeout_upper_bound wilson m,
          sn_sample_count = wm_samples m, sn_last_observed_at_ms = final,
          sn_freshness = (case final of None \<Rightarrow> FrUnknown
            | Some t \<Rightarrow> if now - t \<le> freshness_window_ms then FrFresh else FrStale),
          sn_last_adjustment = av_last_adjustment (rs_adaptive rs) \<rparr>)"

section \<open>The limit stays within the quota\<close>

definition quota_ok :: "resource_quota \<Rightarrow> bool" where
  "quota_ok q \<longleftrightarrow> 0 < rq_minimum q \<and> rq_minimum q \<le> rq_target q \<and> rq_target q \<le> rq_maximum q"

definition limit_ok :: "resource_state \<Rightarrow> bool" where
  "limit_ok rs \<longleftrightarrow> quota_ok (rs_quota rs) \<and> rq_minimum (rs_quota rs) \<le> rs_effective_limit rs
     \<and> rs_effective_limit rs \<le> rq_maximum (rs_quota rs)"

lemma quota_new_ok: "quota_new a b c = Inr q \<Longrightarrow> quota_ok q"
  by (auto simp: quota_new_def quota_ok_def split: if_splits)

lemma resource_new_ok: "quota_ok q \<Longrightarrow> limit_ok (resource_new q)"
  by (auto simp: quota_ok_def limit_ok_def resource_new_def)

lemma clamp_bounds: "lo \<le> hi \<Longrightarrow> lo \<le> clamp x lo hi \<and> clamp x lo hi \<le> hi"
  by (auto simp: clamp_def)

lemma apply_limit_ok: "quota_ok (rs_quota rs) \<Longrightarrow> limit_ok (apply_limit d t a rs)"
  using clamp_bounds [of "rq_minimum (rs_quota rs)" "rq_maximum (rs_quota rs)" d]
  by (auto simp: limit_ok_def apply_limit_def quota_ok_def)

lemma adaptation_frame:
  "rs_quota (apply_limit d t a rs) = rs_quota rs" "rs_active (apply_limit d t a rs) = rs_active rs"
  "rs_quota (set_streak n rs) = rs_quota rs" "rs_active (set_streak n rs) = rs_active rs"
  "limit_ok (set_streak n rs) = limit_ok rs"
  by (simp_all add: apply_limit_def set_streak_def limit_ok_def)

lemma apply_adaptive_policy_ok:
  assumes "limit_ok rs"
  shows "limit_ok (apply_adaptive_policy wilson t rs)" "rs_quota (apply_adaptive_policy wilson t rs) = rs_quota rs"
    "rs_active (apply_adaptive_policy wilson t rs) = rs_active rs"
proof -
  have "quota_ok (rs_quota rs)" using assms by (simp add: limit_ok_def)
  then show "limit_ok (apply_adaptive_policy wilson t rs)" "rs_quota (apply_adaptive_policy wilson t rs) = rs_quota rs"
    "rs_active (apply_adaptive_policy wilson t rs) = rs_active rs"
    using assms by (simp_all add: apply_adaptive_policy_def Let_def adaptation_frame apply_limit_ok)
qed

lemma add_sample_ok:
  assumes "limit_ok rs"
  shows "limit_ok (add_sample wilson s rs)" "rs_quota (add_sample wilson s rs) = rs_quota rs"
    "rs_active (add_sample wilson s rs) = rs_active rs"
proof -
  have "limit_ok (rs \<lparr> rs_samples := xs, rs_adaptive := a \<rparr>)" for xs a using assms by (simp add: limit_ok_def)
  from apply_adaptive_policy_ok [OF this] show "limit_ok (add_sample wilson s rs)"
    "rs_quota (add_sample wilson s rs) = rs_quota rs" "rs_active (add_sample wilson s rs) = rs_active rs"
    by (simp_all add: add_sample_def)
qed

end
