(* ===== verification/Resource_Manager.thy ===== *)
theory Resource_Manager
  imports Resource_Adaptation
begin

text \<open>
  Admission to execution resources, runtime/src/execution_core/graph/resources/manager.rs: the bounded
  queue of waiters, the order in which they are granted (service class, aging, priority, arrival), the
  atomic grant of a bundle of weighted demands, leases, quota changes and ephemeral resources of parent
  executions.  What the code does under the lock of the manager is one operation; waiting, the
  notifications between waiters and the observer of admissions are left out.  Instants are nanoseconds,
  readings of the clocks are arguments.  The debug output of a resource kind, by which demands are
  sorted and default fairness keys are made, is an argument \<open>kdebug\<close>.  Loops over hashed maps run in the
  order of the keys.
\<close>

section \<open>Requests\<close>

type_synonym demands = "(execution_resource_kind \<times> nat) list"

record admission_policy =
  ap_revision :: nat
  ap_max_pending_instance :: nat
  ap_max_pending_per_class :: nat
  ap_max_pending_per_key :: nat
  ap_aging_interval :: nat

definition admission_policy_default :: admission_policy where
  "admission_policy_default = \<lparr> ap_revision = 1, ap_max_pending_instance = 4096, ap_max_pending_per_class = 2048,
     ap_max_pending_per_key = 512, ap_aging_interval = 5000000000 \<rparr>"

definition policy_validate :: "admission_policy \<Rightarrow> (resource_acquire_error, admission_policy) result" where
  "policy_validate p =
    (if ap_max_pending_instance p = 0 \<or> ap_max_pending_per_class p = 0 \<or> ap_max_pending_per_key p = 0
        \<or> ap_max_pending_per_class p > ap_max_pending_instance p \<or> ap_max_pending_per_key p > ap_max_pending_per_class p
        \<or> ap_aging_interval p = 0
     then Err ReInvalidAdmissionPolicy else Ok p)"

definition add_demand :: "execution_resource_kind \<times> nat \<Rightarrow> (execution_resource_kind, nat) smap \<Rightarrow> (execution_resource_kind, nat) smap" where
  "add_demand = (\<lambda>(kind, weight) m. if weight > 0
     then sm_insert kind (sat_add64 (case sm_get m kind of Some w \<Rightarrow> w | None \<Rightarrow> 0) weight) m else m)"

definition normalize_demands :: "(execution_resource_kind \<Rightarrow> rstring) \<Rightarrow> demands \<Rightarrow> demands" where
  "normalize_demands kdebug ds = (let m = sort_key (\<lambda>d. kdebug (fst d)) (fold add_demand ds []) in
     if m = [] then [(KTool, 1)] else m)"

definition default_fairness_key :: "(execution_resource_kind \<Rightarrow> rstring) \<Rightarrow> demands \<Rightarrow> rstring" where
  "default_fairness_key kdebug ds = ''resource:'' @ join_with ''+'' (map (\<lambda>d. kdebug (fst d)) ds)"

record admission_request =
  aq_request_id :: rstring
  aq_requested_priority :: "nat option"
  aq_deadline_at_ms :: "nat option"
  aq_requested_service_class :: execution_service_class
  aq_parent_class_ceiling :: "execution_service_class option"
  aq_demands :: demands
  aq_ephemeral_limits :: demands
  aq_normalized_scope :: "rstring option"
  aq_scope_feasible :: bool
  aq_fairness_key :: rstring

definition request_new ::
  "(execution_resource_kind \<Rightarrow> rstring) \<Rightarrow> rstring \<Rightarrow> execution_service_class \<Rightarrow> demands \<Rightarrow> admission_request" where
  "request_new kdebug request_id cls ds = (let d = normalize_demands kdebug ds in
     \<lparr> aq_request_id = request_id, aq_requested_priority = None, aq_deadline_at_ms = None, aq_requested_service_class = cls,
       aq_parent_class_ceiling = None, aq_demands = d, aq_ephemeral_limits = [], aq_normalized_scope = None,
       aq_scope_feasible = True, aq_fairness_key = default_fairness_key kdebug d \<rparr>)"

definition resolved_service_class :: "admission_request \<Rightarrow> execution_service_class" where
  "resolved_service_class rq = bounded_by (aq_requested_service_class rq) (aq_parent_class_ceiling rq)"

definition with_scope :: "rstring \<Rightarrow> bool \<Rightarrow> admission_request \<Rightarrow> admission_request" where
  "with_scope scope feasible rq = (let s = trim scope in
     rq \<lparr> aq_normalized_scope := (if s \<noteq> [] then Some s else None), aq_scope_feasible := feasible \<rparr>)"

definition with_fairness_key :: "rstring \<Rightarrow> admission_request \<Rightarrow> admission_request" where
  "with_fairness_key key rq = (if trim key \<noteq> [] then rq \<lparr> aq_fairness_key := trim key \<rparr> else rq)"

definition with_ephemeral_limit :: "execution_resource_kind \<Rightarrow> nat \<Rightarrow> admission_request \<Rightarrow> admission_request" where
  "with_ephemeral_limit kind maximum rq =
     rq \<lparr> aq_ephemeral_limits := filter (\<lambda>d. fst d \<noteq> kind) (aq_ephemeral_limits rq) @ [(kind, maximum)] \<rparr>"

section \<open>State\<close>

record pending_demand =
  pd_id :: rstring
  pd_demands :: demands
  pd_requested_priority :: "nat option"
  pd_deadline_at_ms :: "nat option"
  pd_requested_service_class :: execution_service_class
  pd_resolved_service_class :: execution_service_class
  pd_parent_class_ceiling :: "execution_service_class option"
  pd_normalized_scope :: "rstring option"
  pd_scope_feasible :: bool
  pd_fairness_key :: rstring
  pd_enqueue_sequence :: nat
  pd_enqueued_at_ms :: nat
  pd_enqueued_at :: nat
  pd_policy_revision :: nat
  pd_last_wait_reason :: "resource_wait_reason option"
  pd_last_blocker :: "rstring option"

record manager_state =
  ms_resources :: "(execution_resource_kind, resource_state) smap"
  ms_accepting :: "execution_resource_kind sset"
  ms_ephemeral :: "execution_resource_kind sset"
  ms_interactive_reserves :: "(execution_resource_kind, nat) smap"
  ms_waiters :: "pending_demand list"
  ms_policy :: admission_policy
  ms_next_enqueue_sequence :: nat

definition manager_new :: "(execution_resource_kind \<times> resource_quota) list \<Rightarrow> admission_policy \<Rightarrow> manager_state" where
  "manager_new quotas policy = (let resources = sm_of_list (map (\<lambda>(k, q). (k, resource_new q)) quotas) in
     \<lparr> ms_resources = resources, ms_accepting = sm_keys resources, ms_ephemeral = [], ms_interactive_reserves = [],
       ms_waiters = [], ms_policy = policy, ms_next_enqueue_sequence = 0 \<rparr>)"

definition reserve_of :: "manager_state \<Rightarrow> execution_resource_kind \<Rightarrow> nat" where
  "reserve_of ms kind = (case sm_get (ms_interactive_reserves ms) kind of Some r \<Rightarrow> r | None \<Rightarrow> 0)"

definition queued_waiter_count :: "pending_demand list \<Rightarrow> execution_resource_kind \<Rightarrow> nat" where
  "queued_waiter_count waiters kind = length (filter (\<lambda>w. list_ex (\<lambda>d. fst d = kind) (pd_demands w)) waiters)"

definition manager_snapshot ::
  "(nat \<Rightarrow> nat \<Rightarrow> nat option) \<Rightarrow> execution_resource_kind \<Rightarrow> nat \<Rightarrow> manager_state \<Rightarrow> (resource_acquire_error, resource_snapshot) result" where
  "manager_snapshot wilson kind now ms = (case sm_get (ms_resources ms) kind of
     None \<Rightarrow> Err (ReUnknownResource kind)
   | Some rs \<Rightarrow> Ok (snapshot_for wilson kind (queued_waiter_count (ms_waiters ms) kind) (reserve_of ms kind) now rs))"

section \<open>Quotas\<close>

definition record_observation ::
  "(nat \<Rightarrow> nat \<Rightarrow> nat option) \<Rightarrow> execution_resource_kind \<Rightarrow> resource_observation \<Rightarrow> manager_state \<Rightarrow> (resource_acquire_error, manager_state) result" where
  "record_observation wilson kind ob ms = (case sm_get (ms_resources ms) kind of
     None \<Rightarrow> Err (ReUnknownResource kind)
   | Some rs \<Rightarrow> Ok (ms \<lparr> ms_resources :=
       sm_insert kind (add_sample wilson (observation_sample ob rs) rs) (ms_resources ms) \<rparr>))"

definition update_quota ::
  "execution_resource_kind \<Rightarrow> resource_quota \<Rightarrow> manager_state \<Rightarrow> (resource_acquire_error, manager_state) result" where
  "update_quota kind quota ms = (case sm_get (ms_resources ms) kind of
     None \<Rightarrow> Err (ReUnknownResource kind)
   | Some rs \<Rightarrow> Ok (ms \<lparr> ms_resources := sm_insert kind (rs \<lparr> rs_quota := quota, rs_effective_limit := rq_target quota,
       rs_samples := [], rs_adaptive := adaptive_default \<lparr> av_last_adjustment := AjResetToConfiguredTarget \<rparr> \<rparr>) (ms_resources ms) \<rparr>))"

definition check_reserve ::
  "(execution_resource_kind, resource_quota) smap \<Rightarrow> unit \<Rightarrow> execution_resource_kind \<times> nat \<Rightarrow> (resource_acquire_error, unit) result" where
  "check_reserve desired = (\<lambda>_ (kind, reserve). case sm_get desired kind of
     None \<Rightarrow> Err (ReUnknownResource kind)
   | Some q \<Rightarrow> if reserve > rq_maximum q then Err (ReInvalidInteractiveReserve reserve (rq_maximum q)) else Ok ())"

definition reconcile_resource ::
  "execution_resource_kind \<times> resource_quota \<Rightarrow> (execution_resource_kind, resource_state) smap
   \<Rightarrow> (execution_resource_kind, resource_state) smap" where
  "reconcile_resource = (\<lambda>(kind, quota) resources. case sm_get resources kind of
     Some rs \<Rightarrow> sm_insert kind (rs \<lparr> rs_quota := quota,
       rs_effective_limit := clamp (rs_effective_limit rs) (rq_minimum quota) (rq_maximum quota) \<rparr>) resources
   | None \<Rightarrow> sm_insert kind (resource_new quota) resources)"

definition wanted_by_waiter :: "pending_demand list \<Rightarrow> execution_resource_kind \<Rightarrow> bool" where
  "wanted_by_waiter waiters kind = list_ex (\<lambda>w. list_ex (\<lambda>d. fst d = kind) (pd_demands w)) waiters"

definition reconcile_quotas ::
  "(execution_resource_kind \<times> resource_quota) list \<Rightarrow> (execution_resource_kind \<times> nat) list \<Rightarrow> manager_state
   \<Rightarrow> (resource_acquire_error, manager_state) result" where
  "reconcile_quotas quotas reserves ms = (let desired = sm_of_list quotas; rsv = sm_of_list reserves in
     and_then (try_fold (check_reserve desired) () rsv) (\<lambda>_.
       let resources = fold reconcile_resource desired (ms_resources ms) in
       Ok (ms \<lparr> ms_resources := filter (\<lambda>(kind, rs). sm_contains desired kind \<or> wanted_by_waiter (ms_waiters ms) kind
              \<or> rs_active rs \<noteq> []) resources,
            ms_accepting := sm_keys desired, ms_interactive_reserves := rsv \<rparr>)))"

section \<open>Registration\<close>

definition validate_demand :: "manager_state \<Rightarrow> unit \<Rightarrow> execution_resource_kind \<times> nat \<Rightarrow> (resource_acquire_error, unit) result" where
  "validate_demand ms = (\<lambda>_ (kind, weight).
     if kind \<notin> set (ms_accepting ms) then Err (ReUnknownResource kind)
     else case sm_get (ms_resources ms) kind of
       None \<Rightarrow> Err (ReUnknownResource kind)
     | Some rs \<Rightarrow> if weight > rq_maximum (rs_quota rs)
         then Err (ReDemandExceedsQuota kind weight (rq_maximum (rs_quota rs))) else Ok ())"

definition validate_request_resources :: "manager_state \<Rightarrow> admission_request \<Rightarrow> (resource_acquire_error, unit) result" where
  "validate_request_resources ms rq = try_fold (validate_demand ms) () (aq_demands rq)"

fun is_parent_execution :: "execution_resource_kind \<Rightarrow> bool" where
  "is_parent_execution (KParentExecution _) = True"
| "is_parent_execution _ = False"

text \<open>An error leaves the limits that were installed before it.\<close>
fun install_ephemeral_limits :: "demands \<Rightarrow> manager_state \<Rightarrow> manager_state \<times> (resource_acquire_error, unit) result" where
  "install_ephemeral_limits [] ms = (ms, Ok ())"
| "install_ephemeral_limits ((kind, maximum) # ls) ms =
    (if \<not> is_parent_execution kind \<or> maximum = 0 then (ms, Err (ReInvalidQuota 1 maximum maximum))
     else case sm_get (ms_resources ms) kind of
       Some rs \<Rightarrow> if rq_maximum (rs_quota rs) \<noteq> maximum
         then (ms, Err (ReInvalidQuota (rq_minimum (rs_quota rs)) (rq_target (rs_quota rs)) maximum))
         else install_ephemeral_limits ls ms
     | None \<Rightarrow> (case quota_new 1 maximum maximum of
         Inl e \<Rightarrow> (ms, Err e)
       | Inr q \<Rightarrow> install_ephemeral_limits ls (ms \<lparr> ms_resources := sm_insert kind (resource_new q) (ms_resources ms),
           ms_accepting := ss_insert kind (ms_accepting ms), ms_ephemeral := ss_insert kind (ms_ephemeral ms) \<rparr>)))"

definition remove_drained_resources :: "manager_state \<Rightarrow> manager_state" where
  "remove_drained_resources ms =
    (let wanted = wanted_by_waiter (ms_waiters ms);
         drained = (\<lambda>kind. kind \<in> set (ms_ephemeral ms) \<and> \<not> wanted kind
           \<and> (case sm_get (ms_resources ms) kind of None \<Rightarrow> True | Some rs \<Rightarrow> rs_active rs = []));
         accepting = filter (\<lambda>k. \<not> drained k) (ms_accepting ms)
     in ms \<lparr> ms_ephemeral := filter (\<lambda>k. \<not> drained k) (ms_ephemeral ms), ms_accepting := accepting,
          ms_resources := filter (\<lambda>(kind, rs). kind \<in> set accepting \<or> rs_active rs \<noteq> [] \<or> wanted kind) (ms_resources ms) \<rparr>)"

definition request_id_exists :: "manager_state \<Rightarrow> rstring \<Rightarrow> bool" where
  "request_id_exists ms i = (list_ex (\<lambda>w. pd_id w = i) (ms_waiters ms)
     \<or> list_ex (\<lambda>rs. sm_contains (rs_active rs) i) (sm_values (ms_resources ms)))"

definition pending_limit_reason ::
  "manager_state \<Rightarrow> execution_service_class \<Rightarrow> rstring \<Rightarrow> resource_wait_reason option" where
  "pending_limit_reason ms cls key =
    (if length (ms_waiters ms) \<ge> ap_max_pending_instance (ms_policy ms) then Some WrInstancePendingLimit
     else if length (filter (\<lambda>w. pd_resolved_service_class w = cls) (ms_waiters ms)) \<ge> ap_max_pending_per_class (ms_policy ms)
     then Some WrClassPendingLimit
     else if length (filter (\<lambda>w. pd_fairness_key w = key) (ms_waiters ms)) \<ge> ap_max_pending_per_key (ms_policy ms)
     then Some WrKeyPendingLimit else None)"

datatype admission_registration =
  RegQueued nat nat nat nat
| RegDeferred resource_wait_reason nat nat
| RegOverloaded resource_wait_reason nat nat

definition enqueue_waiter :: "admission_request \<Rightarrow> nat \<Rightarrow> nat \<Rightarrow> manager_state \<Rightarrow> manager_state" where
  "enqueue_waiter rq wall started ms = ms \<lparr>
     ms_next_enqueue_sequence := wrap64 (ms_next_enqueue_sequence ms + 1),
     ms_waiters := ms_waiters ms @ [\<lparr> pd_id = aq_request_id rq, pd_demands = aq_demands rq,
       pd_requested_priority = aq_requested_priority rq, pd_deadline_at_ms = aq_deadline_at_ms rq,
       pd_requested_service_class = aq_requested_service_class rq, pd_resolved_service_class = resolved_service_class rq,
       pd_parent_class_ceiling = aq_parent_class_ceiling rq, pd_normalized_scope = aq_normalized_scope rq,
       pd_scope_feasible = aq_scope_feasible rq, pd_fairness_key = aq_fairness_key rq,
       pd_enqueue_sequence = ms_next_enqueue_sequence ms, pd_enqueued_at_ms = wall, pd_enqueued_at = started,
       pd_policy_revision = ap_revision (ms_policy ms), pd_last_wait_reason = None, pd_last_blocker = None \<rparr>] \<rparr>"

text \<open>The first part of \<open>admit_with_timeout\<close>, until the request waits or is refused\<close>
definition register_request ::
  "(execution_resource_kind \<Rightarrow> rstring) \<Rightarrow> admission_request \<Rightarrow> nat \<Rightarrow> nat \<Rightarrow> nat \<Rightarrow> manager_state
   \<Rightarrow> manager_state \<times> (resource_acquire_error, admission_registration) result" where
  "register_request kdebug rq0 wall wall' started ms =
    (let d = normalize_demands kdebug (aq_demands rq0);
         rq = rq0 \<lparr> aq_demands := d,
           aq_fairness_key := (if is_blank (aq_fairness_key rq0) then default_fairness_key kdebug d else aq_fairness_key rq0) \<rparr>;
         revision = ap_revision (ms_policy ms); pending = length (ms_waiters ms);
         refuse = (\<lambda>r. (remove_drained_resources ms, Ok r))
     in if (case aq_deadline_at_ms rq of Some t \<Rightarrow> t \<le> wall | None \<Rightarrow> False)
        then refuse (RegDeferred WrDeadlineExpired revision pending)
        else if \<not> aq_scope_feasible rq then refuse (RegDeferred WrScopeInfeasible revision pending)
        else if request_id_exists ms (aq_request_id rq) then (ms, Err (ReDuplicateRequest (aq_request_id rq)))
        else (case pending_limit_reason ms (resolved_service_class rq) (aq_fairness_key rq) of
          Some reason \<Rightarrow> refuse (RegOverloaded reason revision pending)
        | None \<Rightarrow> (case install_ephemeral_limits (aq_ephemeral_limits rq) ms of
            (ms1, Inl e) \<Rightarrow> (ms1, Err e)
          | (ms1, Inr _) \<Rightarrow> (case validate_request_resources ms1 rq of
              Inl e \<Rightarrow> (remove_drained_resources ms1, Err e)
            | Inr _ \<Rightarrow> (enqueue_waiter rq wall' started ms1,
                Ok (RegQueued (ms_next_enqueue_sequence ms1) wall' revision (Suc pending)))))))"

section \<open>Granting\<close>

definition demand_sets_overlap :: "demands \<Rightarrow> demands \<Rightarrow> bool" where
  "demand_sets_overlap l r = list_ex (\<lambda>a. list_ex (\<lambda>b. fst a = fst b) r) l"

fun service_class_index :: "execution_service_class \<Rightarrow> nat" where
  "service_class_index Interactive = 0"
| "service_class_index Foreground = 1"
| "service_class_index Background = 2"
| "service_class_index Maintenance = 3"

definition class_limit :: "manager_state \<Rightarrow> execution_resource_kind \<Rightarrow> execution_service_class \<Rightarrow> resource_state \<Rightarrow> nat" where
  "class_limit ms kind cls rs = (if cls = Interactive then rs_effective_limit rs else rs_effective_limit rs - reserve_of ms kind)"

text \<open>\<open>Some blocker\<close>: a demand does not fit, and the smallest active lease of that resource, if any\<close>
fun capacity_blocker :: "manager_state \<Rightarrow> demands \<Rightarrow> execution_service_class \<Rightarrow> rstring option option" where
  "capacity_blocker ms [] cls = None"
| "capacity_blocker ms ((kind, weight) # ds) cls = (case sm_get (ms_resources ms) kind of
     None \<Rightarrow> capacity_blocker ms ds cls
   | Some rs \<Rightarrow> if sat_add64 (active_weight rs) weight > class_limit ms kind cls rs
       then Some (case sm_keys (rs_active rs) of [] \<Rightarrow> None | k # ks \<Rightarrow> Some (fold min ks k))
       else capacity_blocker ms ds cls)"

definition scheduling_precedence :: "pending_demand \<Rightarrow> nat \<Rightarrow> nat \<Rightarrow> nat \<times> nat \<times> nat" where
  "scheduling_precedence w now aging_interval =
    (let age_steps = duration_millis (now - pd_enqueued_at w) div max (duration_millis aging_interval) 1 in
     (service_class_index (pd_resolved_service_class w) - age_steps,
      255 - (case pd_requested_priority w of Some p \<Rightarrow> p | None \<Rightarrow> 0), pd_enqueue_sequence w))"

definition prec_less :: "nat \<times> nat \<times> nat \<Rightarrow> nat \<times> nat \<times> nat \<Rightarrow> bool" where
  "prec_less = (\<lambda>(a, b, c) (a', b', c'). a < a' \<or> a = a' \<and> (b < b' \<or> b = b' \<and> c < c'))"

definition same_class_precedence_blocker :: "manager_state \<Rightarrow> nat \<Rightarrow> nat \<Rightarrow> nat \<Rightarrow> rstring option" where
  "same_class_precedence_blocker ms position now aging_interval =
    (let w = ms_waiters ms ! position; precedence = scheduling_precedence w now aging_interval in
     map_option pd_id (find (\<lambda>e. pd_resolved_service_class e = pd_resolved_service_class w
       \<and> demand_sets_overlap (pd_demands e) (pd_demands w)
       \<and> \<not> prec_less precedence (scheduling_precedence e now aging_interval)) (take position (ms_waiters ms))))"

text \<open>One iteration of the search for a waiter of another class that goes first\<close>
definition consider_other ::
  "manager_state \<Rightarrow> nat \<Rightarrow> nat \<Rightarrow> nat \<Rightarrow> nat \<times> pending_demand
   \<Rightarrow> (execution_service_class \<times> execution_resource_kind) list \<times> ((nat \<times> nat \<times> nat) \<times> rstring) option
   \<Rightarrow> (execution_service_class \<times> execution_resource_kind) list \<times> ((nat \<times> nat \<times> nat) \<times> rstring) option" where
  "consider_other ms position now wall = (\<lambda>(other_position, other) (seen, higher).
    let w = ms_waiters ms ! position; aging = ap_aging_interval (ms_policy ms);
        cls = pd_resolved_service_class other;
        fifo_blocked = list_ex (\<lambda>d. (cls, fst d) \<in> set seen) (pd_demands other);
        candidate = (other_position \<noteq> position \<and> cls \<noteq> pd_resolved_service_class w
          \<and> demand_sets_overlap (pd_demands w) (pd_demands other) \<and> pd_scope_feasible other
          \<and> (case pd_deadline_at_ms other of None \<Rightarrow> True | Some t \<Rightarrow> t > wall)
          \<and> \<not> fifo_blocked \<and> capacity_blocker ms (pd_demands other) cls = None);
        p = scheduling_precedence other now aging
    in (map (\<lambda>d. (cls, fst d)) (pd_demands other) @ seen,
        if candidate \<and> prec_less p (scheduling_precedence w now aging)
           \<and> (case higher of None \<Rightarrow> True | Some (selected, _) \<Rightarrow> prec_less p selected)
        then Some (p, pd_id other) else higher))"

datatype admission_evaluation =
  EvGrantable "resource_wait_reason option" "rstring option"
| EvDeferred resource_wait_reason "rstring option"

definition evaluate_waiter :: "manager_state \<Rightarrow> nat \<Rightarrow> nat \<Rightarrow> nat \<Rightarrow> admission_evaluation" where
  "evaluate_waiter ms position now wall = (let w = ms_waiters ms ! position in
     if (case pd_deadline_at_ms w of Some t \<Rightarrow> t \<le> wall | None \<Rightarrow> False) then EvDeferred WrDeadlineExpired None
     else if \<not> pd_scope_feasible w then EvDeferred WrScopeInfeasible None
     else case same_class_precedence_blocker ms position now (ap_aging_interval (ms_policy ms)) of
       Some blocker \<Rightarrow> EvDeferred WrClassFifo (Some blocker)
     | None \<Rightarrow> (case capacity_blocker ms (pd_demands w) (pd_resolved_service_class w) of
         Some blocker \<Rightarrow> EvDeferred WrCapacity blocker
       | None \<Rightarrow> (case snd (fold (consider_other ms position now wall) (enumerate 0 (ms_waiters ms)) ([], None)) of
           Some (_, blocker) \<Rightarrow> EvDeferred WrHigherServiceClass (Some blocker)
         | None \<Rightarrow> EvGrantable (pd_last_wait_reason w) (pd_last_blocker w))))"

record grant_receipt =
  gr_waiter :: pending_demand
  gr_granted_at_ms :: nat
  gr_queue_age_ms :: nat
  gr_wait_reason :: "resource_wait_reason option"
  gr_blocker :: "rstring option"

datatype admission_attempt =
  AtGranted grant_receipt
| AtDeferred resource_wait_reason "rstring option" bool

fun waiter_position :: "rstring \<Rightarrow> pending_demand list \<Rightarrow> nat option" where
  "waiter_position i [] = None"
| "waiter_position i (w # ws) = (if pd_id w = i then Some 0 else map_option Suc (waiter_position i ws))"

text \<open>The demands become active one after the other; a resource that is gone ends the loop.\<close>
fun grant_demands ::
  "rstring \<Rightarrow> demands \<Rightarrow> (execution_resource_kind, resource_state) smap
   \<Rightarrow> (execution_resource_kind, resource_state) smap \<times> (resource_acquire_error, unit) result" where
  "grant_demands i [] resources = (resources, Ok ())"
| "grant_demands i ((kind, weight) # ds) resources = (case sm_get resources kind of
     None \<Rightarrow> (resources, Err ReRegistrationLost)
   | Some rs \<Rightarrow> grant_demands i ds (sm_insert kind (rs \<lparr> rs_active := sm_insert i weight (rs_active rs) \<rparr>) resources))"

definition evaluate_and_grant ::
  "rstring \<Rightarrow> nat \<Rightarrow> nat \<Rightarrow> manager_state \<Rightarrow> manager_state \<times> (resource_acquire_error, admission_attempt) result" where
  "evaluate_and_grant i now wall ms = (case waiter_position i (ms_waiters ms) of
     None \<Rightarrow> (ms, Err ReRegistrationLost)
   | Some position \<Rightarrow> (let w = ms_waiters ms ! position in case evaluate_waiter ms position now wall of
       EvGrantable reason blocker \<Rightarrow>
         (case grant_demands (pd_id w) (pd_demands w) (ms_resources ms) of (resources, r) \<Rightarrow>
           (ms \<lparr> ms_waiters := take position (ms_waiters ms) @ drop (Suc position) (ms_waiters ms), ms_resources := resources \<rparr>,
            and_then r (\<lambda>_. Ok (AtGranted \<lparr> gr_waiter = w, gr_granted_at_ms = wall,
              gr_queue_age_ms = duration_millis (now - pd_enqueued_at w), gr_wait_reason = reason, gr_blocker = blocker \<rparr>))))
     | EvDeferred reason blocker \<Rightarrow>
         (ms \<lparr> ms_waiters := (ms_waiters ms)[position := w \<lparr> pd_last_wait_reason := Some reason, pd_last_blocker := blocker \<rparr>] \<rparr>,
          Ok (AtDeferred reason blocker (pd_last_wait_reason w \<noteq> Some reason \<or> pd_last_blocker w \<noteq> blocker)))))"

text \<open>
  When a waiter has to look again although nothing was notified.  At most three aging intervals are
  added up, so the saturation of durations does not show.
\<close>
definition scheduler_recheck_after :: "rstring \<Rightarrow> nat \<Rightarrow> nat \<Rightarrow> manager_state \<Rightarrow> nat option" where
  "scheduler_recheck_after i now wall ms =
    (let aging = ap_aging_interval (ms_policy ms);
         boundary = (\<lambda>w. let r = service_class_index (pd_resolved_service_class w); age = now - pd_enqueued_at w;
             steps = duration_millis age div max (duration_millis aging) 1
           in if r = 0 \<or> steps \<ge> r then None else Some (aging * (steps + 1) - age));
         boundaries = List.map_filter boundary (ms_waiters ms);
         next = (case boundaries of [] \<Rightarrow> None | b # bs \<Rightarrow> Some (fold min bs b))
     in case (case find (\<lambda>w. pd_id w = i) (ms_waiters ms) of Some w \<Rightarrow> pd_deadline_at_ms w | None \<Rightarrow> None) of
          None \<Rightarrow> next
        | Some deadline \<Rightarrow> let until_deadline = (deadline - wall) * 1000000 in
            Some (case next of None \<Rightarrow> until_deadline | Some b \<Rightarrow> min b until_deadline))"

section \<open>Leaving\<close>

definition release_lease :: "rstring \<Rightarrow> demands \<Rightarrow> manager_state \<Rightarrow> manager_state" where
  "release_lease i ds ms = remove_drained_resources (ms \<lparr> ms_resources :=
     fold (\<lambda>d. sm_modify (fst d) (\<lambda>rs. rs \<lparr> rs_active := sm_remove i (rs_active rs) \<rparr>)) ds (ms_resources ms) \<rparr>)"

text \<open>A waiter gives up (timeout or a caller that went away)\<close>
definition finish_waiter ::
  "(nat \<Rightarrow> nat \<Rightarrow> nat option) \<Rightarrow> rstring \<Rightarrow> demands \<Rightarrow> nat \<Rightarrow> nat \<Rightarrow> resource_result_class \<Rightarrow> manager_state \<Rightarrow> manager_state" where
  "finish_waiter wilson i ds observed_at_ms queue_wait_ms result ms = remove_drained_resources (ms \<lparr>
     ms_waiters := filter (\<lambda>w. pd_id w \<noteq> i) (ms_waiters ms),
     ms_resources := fold (\<lambda>d. sm_modify (fst d) (add_sample wilson \<lparr> sa_observed_at_ms = observed_at_ms,
       sa_queue_wait_ms = queue_wait_ms, sa_service_time_ms = 0, sa_result_class = result \<rparr>)) ds (ms_resources ms) \<rparr>)"

end
