(* ===== verification/Resource_Properties.thy ===== *)
theory Resource_Properties
  imports Resource_Manager
begin

text \<open>
  The capacity of resources is never exceeded and bundles are granted as a whole, over every sequence
  of registrations, attempts, releases, cancellations, observations and quota changes.
\<close>

section \<open>Sequences of operations\<close>

datatype rm_action =
  RmRegister admission_request nat nat nat
| RmAttempt rstring nat nat
| RmRelease rstring demands
| RmFinish rstring demands nat nat resource_result_class
| RmObserve execution_resource_kind resource_observation
| RmUpdate execution_resource_kind resource_quota
| RmReconcile "(execution_resource_kind \<times> resource_quota) list" "(execution_resource_kind \<times> nat) list"

definition or_else :: "'a \<Rightarrow> ('e, 'a) result \<Rightarrow> 'a" where
  "or_else x r = (case r of Inl _ \<Rightarrow> x | Inr y \<Rightarrow> y)"

fun rm_exec ::
  "(execution_resource_kind \<Rightarrow> rstring) \<Rightarrow> (nat \<Rightarrow> nat \<Rightarrow> nat option) \<Rightarrow> rm_action \<Rightarrow> manager_state \<Rightarrow> manager_state" where
  "rm_exec kdebug wilson (RmRegister rq wall wall' started) ms = fst (register_request kdebug rq wall wall' started ms)"
| "rm_exec kdebug wilson (RmAttempt i now wall) ms = fst (evaluate_and_grant i now wall ms)"
| "rm_exec kdebug wilson (RmRelease i ds) ms = release_lease i ds ms"
| "rm_exec kdebug wilson (RmFinish i ds t wait c) ms = finish_waiter wilson i ds t wait c ms"
| "rm_exec kdebug wilson (RmObserve kind ob) ms = or_else ms (record_observation wilson kind ob ms)"
| "rm_exec kdebug wilson (RmUpdate kind quota) ms = or_else ms (update_quota kind quota ms)"
| "rm_exec kdebug wilson (RmReconcile quotas reserves) ms = or_else ms (reconcile_quotas quotas reserves ms)"

text \<open>Quotas are well formed, and none is larger than \<open>M\<close> for its resource.\<close>
definition within :: "(execution_resource_kind \<Rightarrow> nat) \<Rightarrow> execution_resource_kind \<times> resource_quota \<Rightarrow> bool" where
  "within M = (\<lambda>(kind, quota). quota_ok quota \<and> rq_maximum quota \<le> M kind)"

fun action_within :: "(execution_resource_kind \<Rightarrow> nat) \<Rightarrow> rm_action \<Rightarrow> bool" where
  "action_within M (RmRegister rq wall wall' started) = list_all (\<lambda>d. snd d \<le> M (fst d)) (aq_ephemeral_limits rq)"
| "action_within M (RmUpdate kind quota) = within M (kind, quota)"
| "action_within M (RmReconcile quotas reserves) = list_all (within M) quotas"
| "action_within M _ = True"

inductive rm_reachable ::
  "(execution_resource_kind \<Rightarrow> rstring) \<Rightarrow> (nat \<Rightarrow> nat \<Rightarrow> nat option) \<Rightarrow> (execution_resource_kind \<Rightarrow> nat) \<Rightarrow> manager_state \<Rightarrow> bool"
  for kdebug wilson M where
  start: "list_all (within M) quotas \<Longrightarrow> rm_reachable kdebug wilson M (manager_new quotas policy)"
| step: "rm_reachable kdebug wilson M ms \<Longrightarrow> action_within M a \<Longrightarrow> rm_reachable kdebug wilson M (rm_exec kdebug wilson a ms)"

section \<open>The invariant\<close>

definition resource_ok :: "nat \<Rightarrow> resource_state \<Rightarrow> bool" where
  "resource_ok m rs \<longleftrightarrow> limit_ok rs \<and> rq_maximum (rs_quota rs) \<le> m \<and> sm_wf (rs_active rs) \<and> active_weight rs \<le> m"

definition resources_ok :: "(execution_resource_kind \<Rightarrow> nat) \<Rightarrow> (execution_resource_kind, resource_state) smap \<Rightarrow> bool" where
  "resources_ok M resources \<longleftrightarrow> sm_wf resources \<and> (\<forall>k rs. sm_get resources k = Some rs \<longrightarrow> resource_ok (M k) rs)"

definition waiters_ok :: "manager_state \<Rightarrow> bool" where
  "waiters_ok ms \<longleftrightarrow> (\<forall>w\<in>set (ms_waiters ms). distinct (map fst (pd_demands w))
     \<and> (\<forall>d\<in>set (pd_demands w). sm_get (ms_resources ms) (fst d) \<noteq> None))"

definition rm_inv :: "(execution_resource_kind \<Rightarrow> nat) \<Rightarrow> manager_state \<Rightarrow> bool" where
  "rm_inv M ms \<longleftrightarrow> resources_ok M (ms_resources ms) \<and> waiters_ok ms"

lemma resource_new_within: "within M (k, q) \<Longrightarrow> resource_ok (M k) (resource_new q)"
  by (simp add: within_def resource_ok_def resource_new_ok) (simp add: resource_new_def active_weight_def sm_values_def)

lemma resources_ok_insert:
  "resources_ok M resources \<Longrightarrow> resource_ok (M k) rs \<Longrightarrow> resources_ok M (sm_insert k rs resources)"
  by (auto simp: resources_ok_def split: if_splits)

lemma resources_ok_filter: "resources_ok M resources \<Longrightarrow> resources_ok M (filter P resources)"
  using sm_wf_filter [of resources P]
  by (auto simp: resources_ok_def sm_get_filter split: option.splits if_splits)

lemma resources_ok_modify:
  "resources_ok M resources \<Longrightarrow> (\<And>rs. resource_ok (M k) rs \<Longrightarrow> resource_ok (M k) (f rs)) \<Longrightarrow> resources_ok M (sm_modify k f resources)"
  by (auto simp: resources_ok_def split: if_splits)

lemma fold_modify_ok:
  assumes "resources_ok M resources" "\<And>k rs. resource_ok (M k) rs \<Longrightarrow> resource_ok (M k) (f rs)"
  shows "resources_ok M (fold (\<lambda>d. sm_modify (fst d) f) ds resources)"
    "sm_get (fold (\<lambda>d. sm_modify (fst d) f) ds resources) k = None \<longleftrightarrow> sm_get resources k = None"
  using assms(1) by (induction ds arbitrary: resources) (simp_all add: resources_ok_modify assms(2))

lemma waiters_ok_mono:
  "waiters_ok ms \<Longrightarrow> set (ms_waiters ms') \<subseteq> set (ms_waiters ms)
    \<Longrightarrow> (\<And>k. sm_get (ms_resources ms) k \<noteq> None \<Longrightarrow> sm_get (ms_resources ms') k \<noteq> None) \<Longrightarrow> waiters_ok ms'"
  unfolding waiters_ok_def by blast

lemma add_sample_resource_ok: "resource_ok m rs \<Longrightarrow> resource_ok m (add_sample wilson s rs)"
  by (simp add: resource_ok_def add_sample_ok active_weight_def)

lemma sum_list_sub: "sum_list (sm_values (sm_remove i m)) \<le> (sum_list (sm_values m) :: nat)"
  unfolding sm_values_def sm_remove_def by (induction m) auto

lemma drop_active_resource_ok:
  "resource_ok m rs \<Longrightarrow> resource_ok m (rs \<lparr> rs_active := sm_remove i (rs_active rs) \<rparr>)"
  using sum_list_sub [of i "rs_active rs"] by (auto simp: resource_ok_def limit_ok_def active_weight_def)

lemma wanted_iff: "wanted_by_waiter ws k \<longleftrightarrow> (\<exists>w\<in>set ws. \<exists>d\<in>set (pd_demands w). fst d = k)"
  by (simp add: wanted_by_waiter_def list_ex_iff)

text \<open>Resources may go, as long as those a waiter wants stay.\<close>
lemma waiters_ok_filter:
  assumes "waiters_ok ms" "sm_wf (ms_resources ms)" "ms_waiters ms' = ms_waiters ms"
    and "ms_resources ms' = filter P (ms_resources ms)" "\<And>k rs. wanted_by_waiter (ms_waiters ms) k \<Longrightarrow> P (k, rs)"
  shows "waiters_ok ms'"
  unfolding waiters_ok_def
proof (intro ballI conjI)
  fix w
  assume w: "w \<in> set (ms_waiters ms')"
  then show "distinct (map fst (pd_demands w))" using assms(1,3) by (simp add: waiters_ok_def)
  fix d
  assume d: "d \<in> set (pd_demands w)"
  then obtain rs where "sm_get (ms_resources ms) (fst d) = Some rs" using assms(1,3) w by (auto simp: waiters_ok_def)
  moreover have "P (fst d, rs)" using assms(3,5) w d by (auto simp: wanted_iff)
  ultimately show "sm_get (ms_resources ms') (fst d) \<noteq> None" using assms(2,4) by (simp add: sm_get_filter)
qed

lemma remove_drained_inv:
  assumes "resources_ok M (ms_resources ms)" "waiters_ok ms"
  shows "rm_inv M (remove_drained_resources ms)"
proof -
  have wf: "sm_wf (ms_resources ms)" using assms(1) by (simp add: resources_ok_def)
  have f: "ms_resources (remove_drained_resources ms) = filter (\<lambda>(kind, rs).
      kind \<in> set (ms_accepting (remove_drained_resources ms)) \<or> rs_active rs \<noteq> [] \<or> wanted_by_waiter (ms_waiters ms) kind)
      (ms_resources ms)" and w: "ms_waiters (remove_drained_resources ms) = ms_waiters ms"
    by (simp_all add: remove_drained_resources_def Let_def)
  have "waiters_ok (remove_drained_resources ms)" by (rule waiters_ok_filter [OF assms(2) wf w f]) simp
  then show ?thesis using resources_ok_filter [OF assms(1)] by (simp add: rm_inv_def remove_drained_resources_def Let_def)
qed

section \<open>Registration keeps it\<close>

lemma fold_add_demand_wf: "sm_wf m \<Longrightarrow> sm_wf (fold add_demand ds m)"
  by (induction ds arbitrary: m) (auto simp: add_demand_def)

lemma normalize_demands_distinct: "distinct (map fst (normalize_demands kdebug ds))"
proof -
  let ?m = "fold add_demand ds []"
  have "distinct (map fst ?m)" by (rule sm_distinct) (simp add: fold_add_demand_wf)
  moreover have "mset (map fst (sort_key (\<lambda>d. kdebug (fst d)) ?m)) = mset (map fst ?m)" by simp
  ultimately have "distinct (map fst (sort_key (\<lambda>d. kdebug (fst d)) ?m))" using mset_eq_imp_distinct_iff by blast
  then show ?thesis by (simp add: normalize_demands_def Let_def)
qed

lemma validate_resources_exist:
  "validate_request_resources ms rq = Inr u \<Longrightarrow> d \<in> set (aq_demands rq) \<Longrightarrow> sm_get (ms_resources ms) (fst d) \<noteq> None"
proof -
  have "try_fold (validate_demand ms) u' ds = Inr u \<Longrightarrow> d \<in> set ds \<Longrightarrow> sm_get (ms_resources ms) (fst d) \<noteq> None" for ds u'
  proof (induction ds arbitrary: u')
    case (Cons e ds)
    then show ?case by (cases e) (auto simp: validate_demand_def and_then_eq_Inr split: if_splits option.splits)
  qed simp
  then show "validate_request_resources ms rq = Inr u \<Longrightarrow> d \<in> set (aq_demands rq) \<Longrightarrow> sm_get (ms_resources ms) (fst d) \<noteq> None"
    by (simp add: validate_request_resources_def)
qed

lemma install_ephemeral_inv:
  "install_ephemeral_limits ls ms = (ms', r) \<Longrightarrow> rm_inv M ms \<Longrightarrow> list_all (\<lambda>d. snd d \<le> M (fst d)) ls
    \<Longrightarrow> rm_inv M ms' \<and> ms_waiters ms' = ms_waiters ms"
proof (induction ls arbitrary: ms)
  case (Cons l ls)
  obtain kind maximum where l: "l = (kind, maximum)" by fastforce
  show ?case
  proof (cases "\<not> is_parent_execution kind \<or> maximum = 0 \<or> sm_get (ms_resources ms) kind \<noteq> None")
    case True
    then show ?thesis using Cons l by (auto split: if_splits)
  next
    case False
    let ?q = "\<lparr> rq_minimum = 1, rq_target = maximum, rq_maximum = maximum \<rparr>"
    let ?ms = "ms \<lparr> ms_resources := sm_insert kind (resource_new ?q) (ms_resources ms),
      ms_accepting := ss_insert kind (ms_accepting ms), ms_ephemeral := ss_insert kind (ms_ephemeral ms) \<rparr>"
    have q: "quota_new 1 maximum maximum = Inr ?q" using False by (simp add: quota_new_def)
    then have "within M (kind, ?q)" using Cons.prems(3) l quota_new_ok [OF q] by (simp add: within_def)
    then have res: "resources_ok M (ms_resources ?ms)"
      using Cons.prems(2) resources_ok_insert resource_new_within by (fastforce simp: rm_inv_def)
    have "waiters_ok ?ms"
      by (rule waiters_ok_mono [of ms]) (use Cons.prems(2) in \<open>auto simp: rm_inv_def resources_ok_def\<close>)
    then have "rm_inv M ?ms" using res by (simp add: rm_inv_def)
    then show ?thesis using Cons.IH [of ?ms] Cons.prems False l q by simp
  qed
qed simp

lemma enqueue_waiter_inv:
  assumes "rm_inv M ms" "distinct (map fst (aq_demands rq))" "\<And>d. d \<in> set (aq_demands rq) \<Longrightarrow> sm_get (ms_resources ms) (fst d) \<noteq> None"
  shows "rm_inv M (enqueue_waiter rq wall started ms)"
  using assms by (auto simp: rm_inv_def waiters_ok_def enqueue_waiter_def)

lemma register_request_inv:
  assumes "rm_inv M ms" "list_all (\<lambda>d. snd d \<le> M (fst d)) (aq_ephemeral_limits rq)"
  shows "rm_inv M (fst (register_request kdebug rq wall wall' started ms))"
proof -
  let ?rq = "rq \<lparr> aq_demands := normalize_demands kdebug (aq_demands rq),
    aq_fairness_key := (if is_blank (aq_fairness_key rq) then default_fairness_key kdebug (normalize_demands kdebug (aq_demands rq))
      else aq_fairness_key rq) \<rparr>"
  define rq' where "rq' = ?rq"
  have rq': "aq_ephemeral_limits rq' = aq_ephemeral_limits rq" "distinct (map fst (aq_demands rq'))"
    by (simp_all add: rq'_def normalize_demands_distinct)
  obtain ms1 r where inst: "install_ephemeral_limits (aq_ephemeral_limits rq') ms = (ms1, r)" by fastforce
  have I: "rm_inv M ms1" using install_ephemeral_inv [OF inst assms(1)] assms(2) rq'(1) by simp
  have drained: "rm_inv M (remove_drained_resources m)" if "rm_inv M m" for m
    using that remove_drained_inv [of M m] unfolding rm_inv_def by blast
  have queued: "rm_inv M (enqueue_waiter rq' wall' started ms1)" if "validate_request_resources ms1 rq' = Inr u" for u
    by (rule enqueue_waiter_inv [OF I rq'(2) validate_resources_exist [OF that]])
  show ?thesis
    unfolding register_request_def Let_def rq'_def [symmetric] inst prod.case
    by (simp add: I assms(1) drained queued split: option.split sum.split)
qed

section \<open>Granting keeps it\<close>

lemma waiter_position_nth:
  "waiter_position i ws = Some n \<Longrightarrow> n < length ws \<and> pd_id (ws ! n) = i"
  by (induction ws arbitrary: n) (auto split: if_splits)

lemma active_weight_insert: "sum_list (sm_values (sm_insert i n m)) \<le> sum_list (sm_values m) + (n :: nat)"
  unfolding sm_values_def by (induction m) auto

lemma capacity_fits:
  assumes "capacity_blocker ms ds cls = None" "(k, weight) \<in> set ds" "sm_get (ms_resources ms) k = Some rs"
  shows "sat_add64 (active_weight rs) weight \<le> class_limit ms k cls rs"
  using assms(1,2)
proof (induction ds)
  case (Cons d ds)
  then show ?case using assms(3) by (cases d) (auto split: option.splits if_splits)
qed simp

lemma grant_demands_ok:
  assumes "sm_wf resources" "distinct (map fst ds)" "\<And>d. d \<in> set ds \<Longrightarrow> sm_get resources (fst d) \<noteq> None"
  shows "\<exists>resources'. grant_demands i ds resources = (resources', Inr ()) \<and> sm_wf resources'
    \<and> (\<forall>k. sm_get resources' k = (case sm_get resources k of None \<Rightarrow> None
         | Some rs \<Rightarrow> Some (case map_of ds k of None \<Rightarrow> rs | Some n \<Rightarrow> rs \<lparr> rs_active := sm_insert i n (rs_active rs) \<rparr>)))"
  using assms
proof (induction ds arbitrary: resources)
  case Nil
  then show ?case by (auto split: option.split)
next
  case (Cons d ds)
  obtain k n where d: "d = (k, n)" by fastforce
  obtain rs where rs: "sm_get resources k = Some rs" using Cons.prems(3) [of d] d by auto
  let ?resources = "sm_insert k (rs \<lparr> rs_active := sm_insert i n (rs_active rs) \<rparr>) resources"
  have k: "map_of ds k = None" using Cons.prems(2) d by (simp add: map_of_eq_None_iff)
  have "sm_wf ?resources" "distinct (map fst ds)" "\<And>e. e \<in> set ds \<Longrightarrow> sm_get ?resources (fst e) \<noteq> None"
    using Cons.prems by auto
  from Cons.IH [OF this] obtain resources' where r: "grant_demands i ds ?resources = (resources', Inr ())" "sm_wf resources'"
    "\<forall>j. sm_get resources' j = (case sm_get ?resources j of None \<Rightarrow> None
       | Some rs \<Rightarrow> Some (case map_of ds j of None \<Rightarrow> rs | Some n \<Rightarrow> rs \<lparr> rs_active := sm_insert i n (rs_active rs) \<rparr>))" by blast
  have "sm_get resources' j = (case sm_get resources j of None \<Rightarrow> None
       | Some rs \<Rightarrow> Some (case map_of (d # ds) j of None \<Rightarrow> rs | Some n \<Rightarrow> rs \<lparr> rs_active := sm_insert i n (rs_active rs) \<rparr>))" for j
    using r(3) rs k d Cons.prems(1) by (cases "j = k") (simp_all split: option.split)
  then show ?case using r(1,2) rs d by simp
qed

text \<open>A granted demand: the weight that was checked is active, within the limit of the class.\<close>
lemma granted_fits:
  assumes "resource_ok m rs" "m < u64_max" "sat_add64 (active_weight rs) n \<le> class_limit ms k cls rs"
    and "rs' = rs \<lparr> rs_active := sm_insert i n (rs_active rs) \<rparr>"
  shows "resource_ok m rs'" "active_weight rs' \<le> class_limit ms k cls rs'" "sm_get (rs_active rs') i = Some n"
proof -
  have "class_limit ms k cls rs \<le> rs_effective_limit rs" by (simp add: class_limit_def)
  also have "\<dots> \<le> m" using assms(1) by (simp add: resource_ok_def limit_ok_def)
  finally have lim: "class_limit ms k cls rs \<le> m" .
  have "active_weight rs' \<le> active_weight rs + n" using assms(4) active_weight_insert by (simp add: active_weight_def)
  also have "\<dots> \<le> class_limit ms k cls rs" using lim assms(2,3) by (auto simp: sat_add64_def min_def split: if_splits)
  finally have fits: "active_weight rs' \<le> class_limit ms k cls rs" .
  then show "active_weight rs' \<le> class_limit ms k cls rs'" using assms(4) by (simp add: class_limit_def split: if_splits)
  show "resource_ok m rs'" using fits lim assms(1,4) by (auto simp: resource_ok_def limit_ok_def)
  show "sm_get (rs_active rs') i = Some n" using assms(1,4) by (simp add: resource_ok_def)
qed

lemma evaluate_grantable_capacity:
  assumes "evaluate_waiter ms position now wall = EvGrantable reason blocker"
  shows "capacity_blocker ms (pd_demands (ms_waiters ms ! position)) (pd_resolved_service_class (ms_waiters ms ! position)) = None"
  using assms by (auto simp: evaluate_waiter_def Let_def split: option.splits if_splits)

lemma deferred_inv:
  assumes "rm_inv M ms" "position < length (ms_waiters ms)"
  shows "rm_inv M (ms \<lparr> ms_waiters := (ms_waiters ms)[position := (ms_waiters ms ! position)
    \<lparr> pd_last_wait_reason := a, pd_last_blocker := b \<rparr>] \<rparr>)" (is "rm_inv M ?ms")
proof -
  let ?w = "(ms_waiters ms ! position) \<lparr> pd_last_wait_reason := a, pd_last_blocker := b \<rparr>"
  define P where "P w \<longleftrightarrow> distinct (map fst (pd_demands w)) \<and> (\<forall>d\<in>set (pd_demands w). sm_get (ms_resources ms) (fst d) \<noteq> None)" for w :: pending_demand
  have all: "\<forall>w\<in>set (ms_waiters ms). P w" using assms(1) unfolding rm_inv_def waiters_ok_def P_def by blast
  then have "P (ms_waiters ms ! position)" using assms(2) by simp
  then have "P ?w" by (simp add: P_def)
  then have "\<forall>w\<in>set (ms_waiters ?ms). P w" using all set_update_subset_insert [of "ms_waiters ms" position ?w] by auto
  then have "waiters_ok ?ms" by (simp add: waiters_ok_def P_def)
  then show ?thesis using assms(1) by (simp add: rm_inv_def)
qed

text \<open>A waiter whose demands fit: all of them become active, and every resource stays within its bound.\<close>
lemma granted_resources:
  assumes inv: "rm_inv M ms" and bound: "\<forall>k. M k < u64_max" and w: "w \<in> set (ms_waiters ms)"
    and cap: "capacity_blocker ms (pd_demands w) cls = None"
    and grant: "grant_demands (pd_id w) (pd_demands w) (ms_resources ms) = (resources', r)"
  shows "r = Inr ()" "resources_ok M resources'" "sm_get resources' k = None \<longleftrightarrow> sm_get (ms_resources ms) k = None"
    "(k, n) \<in> set (pd_demands w) \<Longrightarrow> \<exists>rs. sm_get resources' k = Some rs \<and> sm_get (rs_active rs) (pd_id w) = Some n
       \<and> active_weight rs \<le> class_limit ms k cls rs"
proof -
  have wok: "distinct (map fst (pd_demands w))" "\<And>d. d \<in> set (pd_demands w) \<Longrightarrow> sm_get (ms_resources ms) (fst d) \<noteq> None"
    using inv w by (auto simp: rm_inv_def waiters_ok_def)
  have rok: "sm_wf (ms_resources ms)" "\<And>k rs. sm_get (ms_resources ms) k = Some rs \<Longrightarrow> resource_ok (M k) rs"
    using inv by (auto simp: rm_inv_def resources_ok_def)
  have g: "r = Inr ()" "sm_wf resources'"
    "\<And>k. sm_get resources' k = (case sm_get (ms_resources ms) k of None \<Rightarrow> None | Some rs \<Rightarrow> Some (case map_of (pd_demands w) k of
       None \<Rightarrow> rs | Some n \<Rightarrow> rs \<lparr> rs_active := sm_insert (pd_id w) n (rs_active rs) \<rparr>))"
    using grant_demands_ok [OF rok(1) wok(1), of "pd_id w"] wok(2) grant by auto
  have fits: "sat_add64 (active_weight rs) n \<le> class_limit ms k cls rs"
    if "(k, n) \<in> set (pd_demands w)" "sm_get (ms_resources ms) k = Some rs" for k n rs by (rule capacity_fits [OF cap that])
  show "r = Inr ()" by (rule g(1))
  show "sm_get resources' k = None \<longleftrightarrow> sm_get (ms_resources ms) k = None" by (simp add: g(3) split: option.split)
  have "resource_ok (M k) rs'" if mem: "sm_get resources' k = Some rs'" for k rs'
  proof -
    obtain rs where rs: "sm_get (ms_resources ms) k = Some rs" using mem g(3) by (cases "sm_get (ms_resources ms) k") auto
    show ?thesis
    proof (cases "map_of (pd_demands w) k")
      case None
      then show ?thesis using mem g(3) rs rok(2) [OF rs] by simp
    next
      case (Some n)
      then have "rs' = rs \<lparr> rs_active := sm_insert (pd_id w) n (rs_active rs) \<rparr>" using mem g(3) rs by simp
      then show ?thesis using granted_fits(1) [OF rok(2) [OF rs] _ fits [OF map_of_SomeD [OF Some] rs]] bound by blast
    qed
  qed
  then show "resources_ok M resources'" using g(2) by (simp add: resources_ok_def)
  assume kn: "(k, n) \<in> set (pd_demands w)"
  then obtain rs where rs: "sm_get (ms_resources ms) k = Some rs" using wok(2) [OF kn] by auto
  then have "sm_get resources' k = Some (rs \<lparr> rs_active := sm_insert (pd_id w) n (rs_active rs) \<rparr>)"
    using g(3) wok(1) kn by simp
  then show "\<exists>rs. sm_get resources' k = Some rs \<and> sm_get (rs_active rs) (pd_id w) = Some n \<and> active_weight rs \<le> class_limit ms k cls rs"
    using granted_fits(2,3) [OF rok(2) [OF rs] _ fits [OF kn rs] refl, of "pd_id w"] bound by simp
qed

lemma evaluate_and_grant_ok:
  assumes inv: "rm_inv M ms" and bound: "\<forall>k. M k < u64_max"
    and pos: "waiter_position i (ms_waiters ms) = Some position" and eval: "evaluate_and_grant i now wall ms = (ms', r)"
  shows "rm_inv M ms'" "\<exists>a. r = Inr a"
    "r = Inr (AtGranted rc) \<Longrightarrow> \<forall>(k, n)\<in>set (pd_demands (gr_waiter rc)). \<exists>rs. sm_get (ms_resources ms') k = Some rs
       \<and> sm_get (rs_active rs) i = Some n \<and> active_weight rs \<le> class_limit ms' k (pd_resolved_service_class (gr_waiter rc)) rs"
proof -
  let ?w = "ms_waiters ms ! position"
  have len: "position < length (ms_waiters ms)" and id: "pd_id ?w = i" using waiter_position_nth [OF pos] by auto
  have "rm_inv M ms' \<and> (\<exists>a. r = Inr a) \<and> (\<forall>rc. r = Inr (AtGranted rc) \<longrightarrow> gr_waiter rc = ?w
       \<and> (\<forall>(k, n)\<in>set (pd_demands ?w). \<exists>rs. sm_get (ms_resources ms') k = Some rs
          \<and> sm_get (rs_active rs) i = Some n \<and> active_weight rs \<le> class_limit ms' k (pd_resolved_service_class ?w) rs))"
  proof (cases "evaluate_waiter ms position now wall")
    case (EvDeferred reason blocker)
    then show ?thesis using eval pos deferred_inv [OF inv len] by (auto simp: evaluate_and_grant_def Let_def)
  next
    case (EvGrantable reason blocker)
    obtain resources' r' where g: "grant_demands (pd_id ?w) (pd_demands ?w) (ms_resources ms) = (resources', r')" by fastforce
    note G = granted_resources [OF inv bound nth_mem [OF len] evaluate_grantable_capacity [OF EvGrantable] g]
    have ms': "ms' = ms \<lparr> ms_waiters := take position (ms_waiters ms) @ drop (Suc position) (ms_waiters ms), ms_resources := resources' \<rparr>"
      and r: "\<exists>rc. r = Inr (AtGranted rc) \<and> gr_waiter rc = ?w"
      using eval pos EvGrantable g G(1) by (auto simp: evaluate_and_grant_def Let_def)
    have "waiters_ok ms'"
      by (rule waiters_ok_mono [of ms]) (use inv G(3) in \<open>auto simp: ms' rm_inv_def dest!: in_set_takeD in_set_dropD\<close>)
    moreover have "class_limit ms' = class_limit ms" by (simp add: ms' class_limit_def reserve_of_def fun_eq_iff)
    ultimately show ?thesis using r G(2,4) id by (auto simp: ms' rm_inv_def)
  qed
  then show "rm_inv M ms'" "\<exists>a. r = Inr a" "r = Inr (AtGranted rc) \<Longrightarrow> \<forall>(k, n)\<in>set (pd_demands (gr_waiter rc)).
      \<exists>rs. sm_get (ms_resources ms') k = Some rs \<and> sm_get (rs_active rs) i = Some n
        \<and> active_weight rs \<le> class_limit ms' k (pd_resolved_service_class (gr_waiter rc)) rs"
    by auto
qed

section \<open>Quota changes keep it\<close>

lemma update_quota_inv:
  assumes "rm_inv M ms" "within M (kind, quota)"
  shows "rm_inv M (or_else ms (update_quota kind quota ms))"
proof (cases "sm_get (ms_resources ms) kind")
  case (Some rs)
  have ok: "resources_ok M (ms_resources ms)" using assms(1) by (simp add: rm_inv_def)
  then have "resource_ok (M kind) rs" using Some by (simp add: resources_ok_def)
  then have "resource_ok (M kind) (rs \<lparr> rs_quota := quota, rs_effective_limit := rq_target quota, rs_samples := [],
      rs_adaptive := adaptive_default \<lparr> av_last_adjustment := AjResetToConfiguredTarget \<rparr> \<rparr>)" (is "resource_ok _ ?rs")
    using assms(2) by (auto simp: resource_ok_def limit_ok_def within_def quota_ok_def active_weight_def)
  then have "resources_ok M (sm_insert kind ?rs (ms_resources ms))" using ok resources_ok_insert by blast
  moreover have "waiters_ok (ms \<lparr> ms_resources := sm_insert kind ?rs (ms_resources ms) \<rparr>)"
    by (rule waiters_ok_mono [of ms]) (use assms(1) ok in \<open>auto simp: rm_inv_def resources_ok_def\<close>)
  ultimately show ?thesis using Some by (simp add: update_quota_def or_else_def rm_inv_def)
qed (use assms in \<open>simp add: update_quota_def or_else_def\<close>)

lemma record_observation_inv:
  assumes "rm_inv M ms"
  shows "rm_inv M (or_else ms (record_observation wilson kind ob ms))"
proof (cases "sm_get (ms_resources ms) kind")
  case (Some rs)
  have ok: "resources_ok M (ms_resources ms)" using assms by (simp add: rm_inv_def)
  let ?rs = "add_sample wilson (observation_sample ob rs) rs"
  have "resource_ok (M kind) ?rs" using ok Some add_sample_resource_ok by (simp add: resources_ok_def)
  then have "resources_ok M (sm_insert kind ?rs (ms_resources ms))" using ok resources_ok_insert by blast
  moreover have "waiters_ok (ms \<lparr> ms_resources := sm_insert kind ?rs (ms_resources ms) \<rparr>)"
    by (rule waiters_ok_mono [of ms]) (use assms ok in \<open>auto simp: rm_inv_def resources_ok_def\<close>)
  ultimately show ?thesis using Some by (simp add: record_observation_def or_else_def rm_inv_def)
qed (use assms in \<open>simp add: record_observation_def or_else_def\<close>)

lemma reconcile_resource_ok:
  assumes "resources_ok M resources" "within M d"
  shows "resources_ok M (reconcile_resource d resources)" "sm_get resources k \<noteq> None \<Longrightarrow> sm_get (reconcile_resource d resources) k \<noteq> None"
proof -
  obtain kind quota where d: "d = (kind, quota)" by fastforce
  have wf: "sm_wf resources" using assms(1) by (simp add: resources_ok_def)
  have "resource_ok (M kind) (rs \<lparr> rs_quota := quota, rs_effective_limit := clamp (rs_effective_limit rs) (rq_minimum quota) (rq_maximum quota) \<rparr>)"
    if "sm_get resources kind = Some rs" for rs
  proof -
    have "resource_ok (M kind) rs" using assms(1) that by (simp add: resources_ok_def)
    moreover have "rq_minimum quota \<le> rq_maximum quota" using assms(2) d by (simp add: within_def quota_ok_def)
    ultimately show ?thesis using assms(2) d clamp_bounds [of "rq_minimum quota" "rq_maximum quota" "rs_effective_limit rs"]
      by (auto simp: resource_ok_def limit_ok_def within_def active_weight_def)
  qed
  then show "resources_ok M (reconcile_resource d resources)"
    using assms resource_new_within d
    by (auto simp: reconcile_resource_def intro: resources_ok_insert split: option.split)
  show "sm_get resources k \<noteq> None \<Longrightarrow> sm_get (reconcile_resource d resources) k \<noteq> None"
    using wf d by (auto simp: reconcile_resource_def split: option.split)
qed

lemma fold_reconcile_ok:
  assumes "resources_ok M resources" "\<forall>d\<in>set ds. within M d"
  shows "resources_ok M (fold reconcile_resource ds resources)
    \<and> (\<forall>k. sm_get resources k \<noteq> None \<longrightarrow> sm_get (fold reconcile_resource ds resources) k \<noteq> None)"
  using assms
proof (induction ds arbitrary: resources)
  case (Cons d ds)
  note R = reconcile_resource_ok [OF Cons.prems(1), of d]
  then show ?case using Cons.IH [of "reconcile_resource d resources"] Cons.prems(2) by auto
qed simp

lemma set_sm_of_list: "set (sm_of_list kvs) \<subseteq> set kvs"
proof
  fix kv
  assume "kv \<in> set (sm_of_list kvs)"
  then have "sm_get (sm_of_list kvs) (fst kv) = Some (snd kv)" by (simp add: sm_mem_get)
  then have "map_of (rev kvs) (fst kv) = Some (snd kv)" by (simp add: sm_get_of_list)
  then show "kv \<in> set kvs" using map_of_SomeD by fastforce
qed

lemma reconcile_quotas_inv:
  assumes "rm_inv M ms" "list_all (within M) quotas"
  shows "rm_inv M (or_else ms (reconcile_quotas quotas reserves ms))"
proof (cases "try_fold (check_reserve (sm_of_list quotas)) () (sm_of_list reserves)")
  case (Inr u)
  let ?d = "sm_of_list quotas"
  let ?r = "fold reconcile_resource ?d (ms_resources ms)"
  let ?P = "\<lambda>(kind, rs). sm_contains ?d kind \<or> wanted_by_waiter (ms_waiters ms) kind \<or> rs_active rs \<noteq> []"
  have "\<forall>d\<in>set ?d. within M d" using assms(2) set_sm_of_list [of quotas] by (auto simp: list_all_iff)
  then have ok: "resources_ok M ?r" and more: "\<And>k. sm_get (ms_resources ms) k \<noteq> None \<Longrightarrow> sm_get ?r k \<noteq> None"
    using fold_reconcile_ok [of M "ms_resources ms" ?d] assms(1) by (auto simp: rm_inv_def)
  have "waiters_ok (ms \<lparr> ms_resources := ?r \<rparr>)"
    by (rule waiters_ok_mono [of ms]) (use assms(1) more in \<open>auto simp: rm_inv_def\<close>)
  then have "waiters_ok (ms \<lparr> ms_resources := filter ?P ?r, ms_accepting := sm_keys ?d, ms_interactive_reserves := sm_of_list reserves \<rparr>)"
    by (rule waiters_ok_filter [where P = ?P]) (use ok in \<open>auto simp: resources_ok_def\<close>)
  then show ?thesis using Inr resources_ok_filter [OF ok]
    by (simp add: reconcile_quotas_def or_else_def rm_inv_def Let_def)
qed (use assms in \<open>simp add: reconcile_quotas_def or_else_def Let_def\<close>)

lemma leave_inv:
  assumes "rm_inv M ms"
  shows "rm_inv M (release_lease i ds ms)" "rm_inv M (finish_waiter wilson i ds t wait c ms)"
proof -
  have ok: "resources_ok M (ms_resources ms)" and wok: "waiters_ok ms" using assms by (simp_all add: rm_inv_def)
  let ?f = "\<lambda>rs. rs \<lparr> rs_active := sm_remove i (rs_active rs) \<rparr>"
  let ?g = "add_sample wilson \<lparr> sa_observed_at_ms = t, sa_queue_wait_ms = wait, sa_service_time_ms = 0, sa_result_class = c \<rparr>"
  let ?rel = "ms \<lparr> ms_resources := fold (\<lambda>d. sm_modify (fst d) ?f) ds (ms_resources ms) \<rparr>"
  let ?fin = "ms \<lparr> ms_waiters := filter (\<lambda>w. pd_id w \<noteq> i) (ms_waiters ms),
    ms_resources := fold (\<lambda>d. sm_modify (fst d) ?g) ds (ms_resources ms) \<rparr>"
  have f: "\<And>k rs. resource_ok (M k) rs \<Longrightarrow> resource_ok (M k) (?f rs)" by (rule drop_active_resource_ok)
  have g: "\<And>k rs. resource_ok (M k) rs \<Longrightarrow> resource_ok (M k) (?g rs)" by (rule add_sample_resource_ok)
  have rel: "ms_waiters ?rel = ms_waiters ms" "ms_resources ?rel = fold (\<lambda>d. sm_modify (fst d) ?f) ds (ms_resources ms)"
    and fin: "set (ms_waiters ?fin) \<subseteq> set (ms_waiters ms)" "ms_resources ?fin = fold (\<lambda>d. sm_modify (fst d) ?g) ds (ms_resources ms)"
    by auto
  have keeps: "sm_get (ms_resources ?rel) k \<noteq> None" "sm_get (ms_resources ?fin) k \<noteq> None"
    if "sm_get (ms_resources ms) k \<noteq> None" for k
    using that fold_modify_ok(2) [OF ok f, where k = k and ds = ds] fold_modify_ok(2) [OF ok g, where k = k and ds = ds]
    unfolding rel fin by simp_all
  have "waiters_ok ?rel" by (rule waiters_ok_mono [OF wok _ keeps(1)]) (simp add: rel)
  moreover have "waiters_ok ?fin" by (rule waiters_ok_mono [OF wok fin(1) keeps(2)])
  moreover have "resources_ok M (ms_resources ?rel)" "resources_ok M (ms_resources ?fin)"
    using fold_modify_ok(1) [OF ok f] fold_modify_ok(1) [OF ok g] by simp_all
  ultimately show "rm_inv M (release_lease i ds ms)" "rm_inv M (finish_waiter wilson i ds t wait c ms)"
    unfolding release_lease_def finish_waiter_def by (auto intro: remove_drained_inv)
qed

lemma attempt_inv:
  assumes "rm_inv M ms" "\<forall>k. M k < u64_max"
  shows "rm_inv M (fst (evaluate_and_grant i now wall ms))"
proof (cases "waiter_position i (ms_waiters ms)")
  case (Some position)
  obtain ms' r where e: "evaluate_and_grant i now wall ms = (ms', r)" by fastforce
  then show ?thesis using evaluate_and_grant_ok(1) [OF assms Some e] by simp
qed (use assms in \<open>simp add: evaluate_and_grant_def\<close>)

lemma rm_reachable_inv:
  assumes "rm_reachable kdebug wilson M ms" "\<forall>k. M k < u64_max"
  shows "rm_inv M ms"
  using assms(1)
proof (induction rule: rm_reachable.induct)
  case (start quotas policy)
  have "resource_ok (M k) rs" if "sm_get (sm_of_list (map (\<lambda>(k, q). (k, resource_new q)) quotas)) k = Some rs" for k rs
    using sm_get_Some_mem [OF that] set_sm_of_list [of "map (\<lambda>(k, q). (k, resource_new q)) quotas"] start resource_new_within
    by (fastforce simp: list_all_iff)
  then show ?case by (simp add: rm_inv_def resources_ok_def waiters_ok_def manager_new_def Let_def)
next
  case (step ms a)
  then show ?case using assms(2)
    by (cases a) (simp_all add: register_request_inv attempt_inv leave_inv record_observation_inv update_quota_inv reconcile_quotas_inv)
qed

section \<open>Properties\<close>

text \<open>
  C4: resources are never overcommitted and bundles are granted as a whole.  Whatever is registered,
  granted, released, cancelled, observed and reconfigured, the adapted limit of every resource stays
  within its quota and the weight of its leases never exceeds the largest quota it ever had.  An attempt
  of a waiting request never loses its registration half-way, and when it is granted every demand of
  its bundle is active and fits into the limit of its service class, which leaves the interactive
  reserve to interactive requests.
\<close>
theorem resource_capacity_respected:
  assumes "rm_reachable kdebug wilson M ms" "\<forall>k. M k < u64_max"
  shows "(\<forall>k rs. sm_get (ms_resources ms) k = Some rs \<longrightarrow> rq_minimum (rs_quota rs) \<le> rs_effective_limit rs
        \<and> rs_effective_limit rs \<le> rq_maximum (rs_quota rs) \<and> active_weight rs \<le> M k)
    \<and> (\<forall>i now wall ms' r. waiter_position i (ms_waiters ms) \<noteq> None \<longrightarrow> evaluate_and_grant i now wall ms = (ms', r) \<longrightarrow>
        (\<exists>a. r = Inr a) \<and> (\<forall>rc. r = Inr (AtGranted rc) \<longrightarrow> (\<forall>(k, n)\<in>set (pd_demands (gr_waiter rc)).
          \<exists>rs. sm_get (ms_resources ms') k = Some rs \<and> sm_get (rs_active rs) i = Some n
            \<and> active_weight rs \<le> class_limit ms' k (pd_resolved_service_class (gr_waiter rc)) rs)))"
proof (intro conjI allI impI)
  note inv = rm_reachable_inv [OF assms]
  fix k rs
  assume "sm_get (ms_resources ms) k = Some rs"
  then have "resource_ok (M k) rs" using inv by (simp add: rm_inv_def resources_ok_def)
  then show "rq_minimum (rs_quota rs) \<le> rs_effective_limit rs" "rs_effective_limit rs \<le> rq_maximum (rs_quota rs)" "active_weight rs \<le> M k"
    by (simp_all add: resource_ok_def limit_ok_def)
next
  note inv = rm_reachable_inv [OF assms]
  fix i now wall ms' r
  assume "waiter_position i (ms_waiters ms) \<noteq> None" "evaluate_and_grant i now wall ms = (ms', r)"
  then obtain position where "waiter_position i (ms_waiters ms) = Some position" by blast
  note G = evaluate_and_grant_ok [OF inv assms(2) this \<open>evaluate_and_grant i now wall ms = (ms', r)\<close>]
  show "\<exists>a. r = Inr a" by (rule G(2))
  fix rc
  assume "r = Inr (AtGranted rc)"
  then show "\<forall>(k, n)\<in>set (pd_demands (gr_waiter rc)). \<exists>rs. sm_get (ms_resources ms') k = Some rs \<and> sm_get (rs_active rs) i = Some n
      \<and> active_weight rs \<le> class_limit ms' k (pd_resolved_service_class (gr_waiter rc)) rs" by (rule G(3))
qed

text \<open>One tool slot is free and one request waits for it.\<close>
definition one_slot :: manager_state where
  "one_slot = manager_new [(KTool, \<lparr> rq_minimum = 1, rq_target = 1, rq_maximum = 2 \<rparr>)] admission_policy_default"

definition one_waiter :: manager_state where
  "one_waiter = rm_exec (\<lambda>_. ''k'') (\<lambda>_ _. None)
     (RmRegister (request_new (\<lambda>_. ''k'') ''r'' Interactive [(KTool, 1)]) 5 5 5) one_slot"

lemma one_waiter_reachable: "rm_reachable (\<lambda>_. ''k'') (\<lambda>_ _. None) (\<lambda>_. 2) one_waiter"
  unfolding one_waiter_def one_slot_def
  by (intro rm_reachable.step rm_reachable.start) (simp_all add: within_def quota_ok_def request_new_def Let_def)

lemma normalize_one: "normalize_demands (\<lambda>_. ''k'') [(KTool, 1)] = [(KTool, 1)]"
  by (simp add: normalize_demands_def add_demand_def sat_add64_def u64_max_def)

lemma one_waiter_queue:
  "ms_resources one_waiter = [(KTool, resource_new \<lparr> rq_minimum = 1, rq_target = 1, rq_maximum = 2 \<rparr>)]"
  "\<exists>w. ms_waiters one_waiter = [w] \<and> pd_id w = ''r'' \<and> pd_demands w = [(KTool, 1)] \<and> pd_resolved_service_class w = Interactive
     \<and> pd_scope_feasible w \<and> pd_deadline_at_ms w = None"
  by (simp_all add: one_waiter_def one_slot_def register_request_def request_new_def normalize_one [simplified] Let_def manager_new_def
    request_id_exists_def pending_limit_reason_def admission_policy_default_def resolved_service_class_def bounded_by_def sm_of_list_def
    validate_request_resources_def validate_demand_def resource_new_def enqueue_waiter_def sm_keys_def sm_values_def sm_contains_def sm_get_def)

lemma one_waiter_granted:
  "\<exists>ms' rc. evaluate_and_grant ''r'' 6 6 one_waiter = (ms', Inr (AtGranted rc)) \<and> pd_demands (gr_waiter rc) = [(KTool, 1)]
     \<and> pd_resolved_service_class (gr_waiter rc) = Interactive"
proof -
  obtain w where "ms_waiters one_waiter = [w]" "pd_id w = ''r''" "pd_demands w = [(KTool, 1)]" "pd_resolved_service_class w = Interactive"
    "pd_scope_feasible w" "pd_deadline_at_ms w = None" using one_waiter_queue(2) by blast
  then show ?thesis
    by (simp add: evaluate_and_grant_def evaluate_waiter_def same_class_precedence_blocker_def consider_other_def one_waiter_queue(1)
      resource_new_def active_weight_def class_limit_def sat_add64_def sm_values_def sm_get_def u64_max_def Let_def)
qed

theorem resource_capacity_respected_witness:
  "\<exists>ms' rs. fst (evaluate_and_grant ''r'' 6 6 one_waiter) = ms' \<and> sm_get (ms_resources ms') KTool = Some rs
     \<and> sm_get (rs_active rs) ''r'' = Some 1 \<and> active_weight rs \<le> class_limit ms' KTool Interactive rs"
proof -
  obtain ms' rc where G: "evaluate_and_grant ''r'' 6 6 one_waiter = (ms', Inr (AtGranted rc))" "pd_demands (gr_waiter rc) = [(KTool, 1)]"
    "pd_resolved_service_class (gr_waiter rc) = Interactive" using one_waiter_granted by blast
  have "waiter_position ''r'' (ms_waiters one_waiter) \<noteq> None" using one_waiter_queue(2) by auto
  then show ?thesis
    using resource_capacity_respected [OF one_waiter_reachable, THEN conjunct2, rule_format, OF _ _ G(1)] G by (simp add: u64_max_def)
qed

end
