(* ===== verification/Resource_Scheduling.thy ===== *)
theory Resource_Scheduling
  imports Resource_Properties
begin

text \<open>
  The order in which waiters are granted: who is at the head of its class and fits is served unless
  somebody with more precedence fits as well, so capacity is never left idle.
\<close>

section \<open>Who goes first\<close>

lemma prec_less_lex: "prec_less a b \<longleftrightarrow> (a, b) \<in> less_than <*lex*> less_than <*lex*> less_than"
  by (cases a; cases b) (simp add: prec_less_def)

lemma prec_less_irrefl: "\<not> prec_less a a"
  by (cases a) (simp add: prec_less_def)

lemma prec_less_minimal:
  assumes "P x"
  shows "\<exists>m. P m \<and> (\<forall>y. prec_less (f y) (f m) \<longrightarrow> \<not> P y)"
proof -
  have "wf (less_than <*lex*> less_than <*lex*> less_than)" by (intro wf_lex_prod wf_less_than)
  then have "wf (inv_image (less_than <*lex*> less_than <*lex*> less_than) f)" by (rule wf_inv_image)
  from wfE_min [OF this, of x "{y. P y}"] assms show ?thesis by (auto simp: prec_less_lex in_inv_image)
qed

lemma demand_sets_overlap_iff: "demand_sets_overlap l r \<longleftrightarrow> fst ` set l \<inter> fst ` set r \<noteq> {}"
  by (auto simp: demand_sets_overlap_def list_ex_iff)

lemma demand_sets_overlap_sym: "demand_sets_overlap l r \<longleftrightarrow> demand_sets_overlap r l"
  by (auto simp: demand_sets_overlap_iff)

text \<open>The head of its class that could run now: in scope, in time, within capacity, nobody of its class before it\<close>
definition runnable :: "manager_state \<Rightarrow> nat \<Rightarrow> nat \<Rightarrow> bool" where
  "runnable ms wall k \<longleftrightarrow> k < length (ms_waiters ms) \<and> (let w = ms_waiters ms ! k in
     pd_scope_feasible w \<and> (case pd_deadline_at_ms w of None \<Rightarrow> True | Some t \<Rightarrow> t > wall)
     \<and> capacity_blocker ms (pd_demands w) (pd_resolved_service_class w) = None
     \<and> (\<forall>j<k. pd_resolved_service_class (ms_waiters ms ! j) = pd_resolved_service_class w
          \<longrightarrow> \<not> demand_sets_overlap (pd_demands (ms_waiters ms ! j)) (pd_demands w)))"

abbreviation precedence :: "manager_state \<Rightarrow> nat \<Rightarrow> nat \<Rightarrow> nat \<times> nat \<times> nat" where
  "precedence ms now k \<equiv> scheduling_precedence (ms_waiters ms ! k) now (ap_aging_interval (ms_policy ms))"

text \<open>What makes one iteration of the search select a waiter\<close>
definition overtakes :: "manager_state \<Rightarrow> nat \<Rightarrow> nat \<Rightarrow> nat \<Rightarrow> nat \<Rightarrow> bool" where
  "overtakes ms position now wall k \<longleftrightarrow> runnable ms wall k \<and> k \<noteq> position
     \<and> pd_resolved_service_class (ms_waiters ms ! k) \<noteq> pd_resolved_service_class (ms_waiters ms ! position)
     \<and> demand_sets_overlap (pd_demands (ms_waiters ms ! position)) (pd_demands (ms_waiters ms ! k))
     \<and> prec_less (precedence ms now k) (precedence ms now position)"

definition seen_before :: "manager_state \<Rightarrow> nat \<Rightarrow> (execution_service_class \<times> execution_resource_kind) set" where
  "seen_before ms k = (\<Union>w\<in>set (take k (ms_waiters ms)). (\<lambda>d. (pd_resolved_service_class w, fst d)) ` set (pd_demands w))"

lemma seen_before_Suc:
  "k < length (ms_waiters ms) \<Longrightarrow> seen_before ms (Suc k) =
    (\<lambda>d. (pd_resolved_service_class (ms_waiters ms ! k), fst d)) ` set (pd_demands (ms_waiters ms ! k)) \<union> seen_before ms k"
  by (simp add: seen_before_def take_Suc_conv_app_nth)

lemma not_fifo_blocked:
  assumes "k < length (ms_waiters ms)"
  shows "(\<exists>d\<in>set (pd_demands (ms_waiters ms ! k)). (pd_resolved_service_class (ms_waiters ms ! k), fst d) \<in> seen_before ms k)
    \<longleftrightarrow> (\<exists>j<k. pd_resolved_service_class (ms_waiters ms ! j) = pd_resolved_service_class (ms_waiters ms ! k)
          \<and> demand_sets_overlap (pd_demands (ms_waiters ms ! j)) (pd_demands (ms_waiters ms ! k)))" (is "?L \<longleftrightarrow> ?R")
proof
  assume ?L
  then obtain d w e where d: "d \<in> set (pd_demands (ms_waiters ms ! k))" "w \<in> set (take k (ms_waiters ms))" "e \<in> set (pd_demands w)"
    "pd_resolved_service_class w = pd_resolved_service_class (ms_waiters ms ! k)" "fst e = fst d"
    by (auto simp: seen_before_def)
  then obtain j where "j < k" "w = ms_waiters ms ! j" by (auto simp: in_set_conv_nth)
  then show ?R using d by (auto simp: demand_sets_overlap_iff)
next
  assume ?R
  then obtain j where j: "j < k" "pd_resolved_service_class (ms_waiters ms ! j) = pd_resolved_service_class (ms_waiters ms ! k)"
    "demand_sets_overlap (pd_demands (ms_waiters ms ! j)) (pd_demands (ms_waiters ms ! k))" by blast
  then have "ms_waiters ms ! j \<in> set (take k (ms_waiters ms))" using assms by (auto simp: in_set_conv_nth)
  moreover obtain d e where "d \<in> set (pd_demands (ms_waiters ms ! k))" "e \<in> set (pd_demands (ms_waiters ms ! j))" "fst e = fst d"
    using j(3) by (auto simp: demand_sets_overlap_iff)
  ultimately have "(pd_resolved_service_class (ms_waiters ms ! k), fst d) \<in> seen_before ms k" "d \<in> set (pd_demands (ms_waiters ms ! k))"
    unfolding seen_before_def using j(2) by (metis (no_types, lifting) UN_I image_eqI)+
  then show ?L by blast
qed

text \<open>One iteration: the resources seen grow, and the selection becomes non-empty exactly by a waiter that overtakes.\<close>
lemma consider_other_step:
  assumes "k < length (ms_waiters ms)" "set seen = seen_before ms k"
    and "consider_other ms position now wall (k, ms_waiters ms ! k) (seen, higher) = (seen', higher')"
  shows "set seen' = seen_before ms (Suc k)" "higher' = None \<longleftrightarrow> higher = None \<and> \<not> overtakes ms position now wall k"
proof -
  have "seen' = map (\<lambda>d. (pd_resolved_service_class (ms_waiters ms ! k), fst d)) (pd_demands (ms_waiters ms ! k)) @ seen"
    using assms(3) by (simp add: consider_other_def Let_def)
  then show "set seen' = seen_before ms (Suc k)" using assms(2) seen_before_Suc [OF assms(1)] by simp
  have fifo: "list_ex (\<lambda>d. (pd_resolved_service_class (ms_waiters ms ! k), fst d) \<in> set seen) (pd_demands (ms_waiters ms ! k))
    \<longleftrightarrow> (\<exists>j<k. pd_resolved_service_class (ms_waiters ms ! j) = pd_resolved_service_class (ms_waiters ms ! k)
          \<and> demand_sets_overlap (pd_demands (ms_waiters ms ! j)) (pd_demands (ms_waiters ms ! k)))"
    unfolding list_ex_iff assms(2) by (rule not_fifo_blocked [OF assms(1)])
  show "higher' = None \<longleftrightarrow> higher = None \<and> \<not> overtakes ms position now wall k"
    using assms(1,3) by (cases higher) (auto simp: fifo consider_other_def overtakes_def runnable_def Let_def split: if_splits, metis surj_pair)
qed

lemma consider_other_fold:
  assumes "k \<le> length (ms_waiters ms)" "set seen = seen_before ms k"
  shows "snd (fold (consider_other ms position now wall) (enumerate k (drop k (ms_waiters ms))) (seen, higher)) = None
    \<longleftrightarrow> higher = None \<and> (\<forall>j. k \<le> j \<longrightarrow> \<not> overtakes ms position now wall j)"
  using assms
proof (induction "length (ms_waiters ms) - k" arbitrary: k seen higher)
  case 0
  then show ?case by (auto simp: overtakes_def runnable_def)
next
  case (Suc n)
  then have k: "k < length (ms_waiters ms)" by simp
  obtain seen' higher' where step: "consider_other ms position now wall (k, ms_waiters ms ! k) (seen, higher) = (seen', higher')" by fastforce
  note S = consider_other_step [OF k Suc.prems(2) step]
  have "snd (fold (consider_other ms position now wall) (enumerate (Suc k) (drop (Suc k) (ms_waiters ms))) (seen', higher')) = None
    \<longleftrightarrow> higher' = None \<and> (\<forall>j. Suc k \<le> j \<longrightarrow> \<not> overtakes ms position now wall j)"
    using Suc.hyps(1) [of "Suc k" seen' higher'] Suc.hyps(2) k S(1) by simp
  moreover have "drop k (ms_waiters ms) = ms_waiters ms ! k # drop (Suc k) (ms_waiters ms)" using k by (simp add: Cons_nth_drop_Suc)
  moreover have "(\<forall>j. k \<le> j \<longrightarrow> P j) \<longleftrightarrow> P k \<and> (\<forall>j. Suc k \<le> j \<longrightarrow> P j)" for P
    by (metis Suc_leD le_antisym not_less_eq_eq order_refl)
  ultimately show ?case using step S(2) by simp
qed

lemma same_class_blocker_None:
  assumes "position < length (ms_waiters ms)"
  shows "same_class_precedence_blocker ms position now (ap_aging_interval (ms_policy ms)) = None
    \<longleftrightarrow> (\<forall>j<position. pd_resolved_service_class (ms_waiters ms ! j) = pd_resolved_service_class (ms_waiters ms ! position)
          \<longrightarrow> demand_sets_overlap (pd_demands (ms_waiters ms ! j)) (pd_demands (ms_waiters ms ! position))
          \<longrightarrow> prec_less (precedence ms now position) (precedence ms now j))"
  using assms by (auto simp: same_class_precedence_blocker_def find_None_iff in_set_conv_nth Let_def)

lemma evaluate_grantable_iff:
  assumes "position < length (ms_waiters ms)"
  shows "(\<exists>reason blocker. evaluate_waiter ms position now wall = EvGrantable reason blocker)
    \<longleftrightarrow> pd_scope_feasible (ms_waiters ms ! position)
      \<and> (case pd_deadline_at_ms (ms_waiters ms ! position) of None \<Rightarrow> True | Some t \<Rightarrow> t > wall)
      \<and> capacity_blocker ms (pd_demands (ms_waiters ms ! position)) (pd_resolved_service_class (ms_waiters ms ! position)) = None
      \<and> same_class_precedence_blocker ms position now (ap_aging_interval (ms_policy ms)) = None
      \<and> (\<forall>k. \<not> overtakes ms position now wall k)"
proof -
  have "snd (fold (consider_other ms position now wall) (enumerate 0 (ms_waiters ms)) ([], None)) = None
    \<longleftrightarrow> (\<forall>k. \<not> overtakes ms position now wall k)"
    using consider_other_fold [of 0 ms "[]" position now wall None] by (simp add: seen_before_def)
  then show ?thesis unfolding evaluate_waiter_def Let_def by (auto split: option.split)
qed

text \<open>Nobody who is runnable and wants the same has more precedence than a waiter that is granted.\<close>
lemma granted_first:
  assumes "k < length (ms_waiters ms)" "evaluate_waiter ms k now wall = EvGrantable reason blocker" "runnable ms wall q"
    and "demand_sets_overlap (pd_demands (ms_waiters ms ! k)) (pd_demands (ms_waiters ms ! q))"
  shows "\<not> prec_less (precedence ms now q) (precedence ms now k)"
proof
  assume less: "prec_less (precedence ms now q) (precedence ms now k)"
  have ev: "same_class_precedence_blocker ms k now (ap_aging_interval (ms_policy ms)) = None" "\<not> overtakes ms k now wall q"
    using assms(2) evaluate_grantable_iff [OF assms(1), of now wall] by blast+
  have ne: "q \<noteq> k" using less prec_less_irrefl by blast
  have cls: "pd_resolved_service_class (ms_waiters ms ! q) = pd_resolved_service_class (ms_waiters ms ! k)"
    using ev(2) assms(3,4) ne less by (auto simp: overtakes_def)
  have o: "demand_sets_overlap (pd_demands (ms_waiters ms ! q)) (pd_demands (ms_waiters ms ! k))"
    using assms(4) demand_sets_overlap_sym by blast
  consider "q < k" | "k < q" using ne by linarith
  then show False
  proof cases
    case 1
    then have "prec_less (precedence ms now k) (precedence ms now q)" using ev(1) cls o same_class_blocker_None [OF assms(1)] by blast
    then show ?thesis using less by (cases "precedence ms now k"; cases "precedence ms now q") (auto simp: prec_less_def)
  next
    case 2
    then show ?thesis using assms(3,4) cls by (auto simp: runnable_def Let_def)
  qed
qed

section \<open>Identifiers of waiters are distinct\<close>

definition ids_distinct :: "manager_state \<Rightarrow> bool" where
  "ids_distinct ms \<longleftrightarrow> distinct (map pd_id (ms_waiters ms))"

lemma install_ephemeral_waiters: "ms_waiters (fst (install_ephemeral_limits ls ms)) = ms_waiters ms"
  by (induction ls ms rule: install_ephemeral_limits.induct) (simp_all split: option.split sum.split)

lemma remove_drained_waiters [simp]: "ms_waiters (remove_drained_resources ms) = ms_waiters ms"
  by (simp add: remove_drained_resources_def Let_def)

lemma register_request_ids:
  assumes "ids_distinct ms"
  shows "ids_distinct (fst (register_request kdebug rq wall wall' started ms))"
proof -
  let ?rq = "rq \<lparr> aq_demands := normalize_demands kdebug (aq_demands rq),
    aq_fairness_key := (if is_blank (aq_fairness_key rq) then default_fairness_key kdebug (normalize_demands kdebug (aq_demands rq))
      else aq_fairness_key rq) \<rparr>"
  define rq' where "rq' = ?rq"
  obtain ms1 r where inst: "install_ephemeral_limits (aq_ephemeral_limits rq') ms = (ms1, r)" by fastforce
  have w: "ms_waiters ms1 = ms_waiters ms" using install_ephemeral_waiters [of "aq_ephemeral_limits rq'" ms] inst by simp
  have queued: "ids_distinct (enqueue_waiter rq' wall' started ms1)" if "\<not> request_id_exists ms (aq_request_id rq')"
    using that assms w by (auto simp: ids_distinct_def enqueue_waiter_def request_id_exists_def list_ex_iff)
  have kept: "ids_distinct ms1" "ids_distinct (remove_drained_resources ms1)" "ids_distinct (remove_drained_resources ms)"
    using assms w by (simp_all add: ids_distinct_def)
  show ?thesis
    unfolding register_request_def Let_def rq'_def [symmetric] inst prod.case
    by (simp add: kept assms queued split: option.split sum.split)
qed

lemma evaluate_and_grant_ids:
  assumes "ids_distinct ms"
  shows "ids_distinct (fst (evaluate_and_grant i now wall ms))"
proof (cases "waiter_position i (ms_waiters ms)")
  case (Some position)
  have "map pd_id ((ms_waiters ms)[position := (ms_waiters ms ! position) \<lparr> pd_last_wait_reason := a, pd_last_blocker := b \<rparr>])
    = map pd_id (ms_waiters ms)" for a b
    using waiter_position_nth [OF Some] by (simp add: map_update list_update_same_conv)
  moreover have "distinct (map pd_id (take n (ms_waiters ms) @ drop (Suc n) (ms_waiters ms)))" for n
    using assms set_take_disj_set_drop_if_distinct [of "map pd_id (ms_waiters ms)" n "Suc n"]
    by (simp add: ids_distinct_def flip: take_map drop_map)
  ultimately show ?thesis using Some assms
    by (auto simp: evaluate_and_grant_def ids_distinct_def Let_def split: admission_evaluation.split prod.split)
qed (use assms in \<open>simp add: evaluate_and_grant_def\<close>)

lemma leave_ids:
  "ids_distinct ms \<Longrightarrow> ids_distinct (release_lease i ds ms)" "ids_distinct ms \<Longrightarrow> ids_distinct (finish_waiter wilson i ds t wait c ms)"
  by (simp_all add: ids_distinct_def release_lease_def finish_waiter_def distinct_map_filter)

lemma quota_ids:
  assumes "ids_distinct ms"
  shows "ids_distinct (or_else ms (record_observation wilson kind ob ms))" "ids_distinct (or_else ms (update_quota kind quota ms))"
    "ids_distinct (or_else ms (reconcile_quotas quotas reserves ms))"
  using assms
  by (simp_all add: or_else_def record_observation_def update_quota_def reconcile_quotas_def and_then_case ids_distinct_def Let_def
    split: sum.split option.split)

lemma rm_reachable_ids: "rm_reachable kdebug wilson M ms \<Longrightarrow> ids_distinct ms"
proof (induction rule: rm_reachable.induct)
  case (start quotas policy)
  then show ?case by (simp add: ids_distinct_def manager_new_def Let_def)
next
  case (step ms a)
  then show ?case by (cases a) (simp_all add: register_request_ids evaluate_and_grant_ids leave_ids quota_ids)
qed

lemma waiter_position_of_nth:
  "distinct (map pd_id ws) \<Longrightarrow> n < length ws \<Longrightarrow> waiter_position (pd_id (ws ! n)) ws = Some n"
  by (induction ws arbitrary: n) (auto simp: nth_Cons split: nat.split)

section \<open>Properties\<close>

text \<open>
  C10: capacity is not left idle and is given in order.  Whenever some waiter at the head of its service
  class is in scope, in time and fits into what is free, an attempt of one of the waiters is granted; and
  whoever is granted, no such waiter that wants one of the same resources has more precedence (service
  class after aging, then requested priority, then arrival).
\<close>
theorem admission_not_idle:
  assumes "rm_reachable kdebug wilson M ms" "\<forall>k. M k < u64_max" "runnable ms wall p"
  shows "(\<exists>i ms' rc. evaluate_and_grant i now wall ms = (ms', Inr (AtGranted rc)))
    \<and> (\<forall>i ms' rc q. evaluate_and_grant i now wall ms = (ms', Inr (AtGranted rc)) \<longrightarrow> runnable ms wall q
        \<longrightarrow> demand_sets_overlap (pd_demands (gr_waiter rc)) (pd_demands (ms_waiters ms ! q))
        \<longrightarrow> \<not> prec_less (precedence ms now q)
              (scheduling_precedence (gr_waiter rc) now (ap_aging_interval (ms_policy ms))))"
proof (intro conjI allI impI)
  note inv = rm_reachable_inv [OF assms(1,2)]
  obtain k where k: "runnable ms wall k" "\<And>y. prec_less (precedence ms now y) (precedence ms now k) \<Longrightarrow> \<not> runnable ms wall y"
    using prec_less_minimal [of "runnable ms wall" p "precedence ms now"] assms(3) by blast
  let ?w = "ms_waiters ms ! k"
  have len: "k < length (ms_waiters ms)" using k(1) by (simp add: runnable_def)
  have "same_class_precedence_blocker ms k now (ap_aging_interval (ms_policy ms)) = None"
    using k(1) by (auto simp: same_class_blocker_None [OF len] runnable_def Let_def)
  moreover have "\<not> overtakes ms k now wall y" for y using k(2) [of y] by (auto simp: overtakes_def)
  ultimately obtain reason blocker where ev: "evaluate_waiter ms k now wall = EvGrantable reason blocker"
    using k(1) evaluate_grantable_iff [OF len, of now wall] by (auto simp: runnable_def Let_def)
  have pos: "waiter_position (pd_id ?w) (ms_waiters ms) = Some k"
    using waiter_position_of_nth [OF _ len] rm_reachable_ids [OF assms(1)] by (simp add: ids_distinct_def)
  obtain ms' r where e: "evaluate_and_grant (pd_id ?w) now wall ms = (ms', r)" by fastforce
  then obtain a where "r = Inr a" using evaluate_and_grant_ok(2) [OF inv assms(2) pos e] by blast
  then have "\<exists>rc. r = Inr (AtGranted rc)"
    using e pos ev by (auto simp: evaluate_and_grant_def and_then_eq_Inr Let_def split: prod.splits)
  then show "\<exists>i ms' rc. evaluate_and_grant i now wall ms = (ms', Inr (AtGranted rc))" using e by blast
next
  fix i ms' rc q
  assume e: "evaluate_and_grant i now wall ms = (ms', Inr (AtGranted rc))" and q: "runnable ms wall q"
    and o: "demand_sets_overlap (pd_demands (gr_waiter rc)) (pd_demands (ms_waiters ms ! q))"
  obtain k where pos: "waiter_position i (ms_waiters ms) = Some k" using e by (cases "waiter_position i (ms_waiters ms)") (auto simp: evaluate_and_grant_def)
  have len: "k < length (ms_waiters ms)" using waiter_position_nth [OF pos] by simp
  obtain reason blocker where ev: "evaluate_waiter ms k now wall = EvGrantable reason blocker" and rc: "gr_waiter rc = ms_waiters ms ! k"
    using e pos by (cases "evaluate_waiter ms k now wall") (auto simp: evaluate_and_grant_def and_then_eq_Inr Let_def split: prod.splits)
  show "\<not> prec_less (precedence ms now q) (scheduling_precedence (gr_waiter rc) now (ap_aging_interval (ms_policy ms)))"
    unfolding rc by (rule granted_first [OF len ev q o [unfolded rc]])
qed

lemma one_waiter_runnable: "runnable one_waiter 6 0"
proof -
  obtain w where "ms_waiters one_waiter = [w]" "pd_demands w = [(KTool, 1)]" "pd_resolved_service_class w = Interactive"
    "pd_scope_feasible w" "pd_deadline_at_ms w = None" using one_waiter_queue(2) by blast
  then show ?thesis
    by (simp add: runnable_def one_waiter_queue(1) resource_new_def active_weight_def class_limit_def sat_add64_def sm_values_def
      sm_get_def u64_max_def Let_def)
qed

theorem admission_not_idle_witness:
  "runnable one_waiter 6 0 \<and> (\<exists>i ms' rc. evaluate_and_grant i 6 6 one_waiter = (ms', Inr (AtGranted rc)))"
  using admission_not_idle [OF one_waiter_reachable _ one_waiter_runnable, of 6] one_waiter_runnable
  by (simp add: u64_max_def)

end
