(* ===== verification/Spec2Isabelle.thy ===== *)
theory Spec2Isabelle
  imports Work_Projection Lifecycle Acceptance Runner_Properties Supervisor_Properties Scope_Lock_Properties Resource_Scheduling
begin

text \<open>
  Verification of the execution graph kernel of Cowd.

  \<^bold>\<open>The program.\<close>  Cowd keeps every stateful AI execution as a durable graph.  The contract crate
  (src/crates/harness-contract) defines the graph, validates it, moves its nodes and projects it for
  display.  The runtime crate (src/crates/runtime) stores a graph as a stream of events: the commit
  service turns every change into one event-store transaction that is fenced by the revision of the
  graph, the state store rebuilds a graph from its events and a registry keeps hot copies, recovery
  settles the nodes that were running when the process died.  The runner decides which nodes may start
  and commits what executors answer; the supervisor runs at most one driver per graph; the scope locks
  and the resource manager guard what the nodes use.

  \<^bold>\<open>Conventions.\<close>  A \<open>Result\<close> is a sum with the error on the left, an operation on shared state returns
  the new state with its result, strings are byte lists, \<open>u64\<close> and \<open>usize\<close> are natural numbers with
  saturation (\<open>sat_add64\<close>) or wrap-around (\<open>wrap64\<close>) where the code has it, the hash of lock files is
  a 64-bit word.  Ordered maps and sets are strictly ascending lists (Ordered_Map, locale \<open>kv_map\<close>,
  interpreted on \<open>sm_get\<close>, \<open>sm_insert\<close> and \<open>sm_remove\<close>).  Clocks, random identifiers and the answers of
  asynchronous calls are arguments.  Code outside the model that the operations call is a field of a
  record of parameters: \<open>store_env\<close> (byte counts, SHA-256, serde), \<open>graph_codec\<close> (serde of graph events),
  \<open>commit_env\<close> (the approval queue, the continuation planner, the knowledge candidate builder, base64,
  which hot graphs to evict), \<open>acceptance_digests\<close> (SHA-256 of JSON), \<open>layout\<close> (sizes of Rust types), \<open>runner_env\<close>, \<open>node_executor\<close>, and the
  arguments \<open>wilson\<close> and \<open>kdebug\<close> of the resource manager.  What is assumed of them is a hypothesis of
  the theorems that need it; Graph_Codec shows that a codec with the laws asked of serde exists.

  \<^bold>\<open>Contracts\<close> (harness-contract/src).
  \<^item> Evidence_Types: the records of reality/mod.rs, context/mod.rs, acceptance.rs, outcome.rs, turn.rs.
  \<^item> Contract: execution_graph/contract.rs, the graph with its nodes, edges, policies and commands.
  \<^item> Kahn, Validation: execution_graph/validation.rs.  \<open>validate_execution_graph\<close> accepts exactly the
    graphs that an independent predicate calls acceptable; its batches are the levels of the dependency
    order; it reports a cycle exactly when there is one.
  \<^item> Lifecycle: execution_graph/state.rs.  Terminal statuses are absorbing, revisions grow by one per
    accepted transition, and every branch of \<open>apply_node_transition\<close> has its exact effect.
  \<^item> Work_Projection: execution_graph/projection.rs.  The loops over the work graph may run for ever on
    bad input, so they are partial functions; on validated graphs they are shown to return, and the
    shape and the critical path equal their definitions by longest chains.

  \<^bold>\<open>Storage\<close> (runtime/src).
  \<^item> Graph_Events, Graph_Size: execution_core/graph/events.rs and the estimates of hot_state/graph.rs.
    Applying the delta between two successive graphs gives the second.
  \<^item> Event_Types, Event_Store, Event_Outbox, Event_Queries: recovery/event_store/ports.rs, domain.rs and
    ephemeral.rs, the in-memory backend that the tests of the runtime use; the production backend is
    PostgreSQL.  Appends are atomic and idempotent, stale writers are refused, journals are gapless,
    paged reads are exact, checkpoints are compared and swapped, claims of the outbox are exclusive and
    fenced.  Versioned_Log is the contract the graph components rely on (locale \<open>cas_log\<close>): streams only
    grow and a commit succeeds only at the revision its writer has read.  The interpretation \<open>store_log\<close>
    discharges it for every step of the store.
  \<^item> Graph_Replay: execution_core/graph/state_store.rs and hot_state/graph.rs.
  \<^item> Commit_Pipeline, Graph_Commit: commit_pipeline.rs and commit_service.rs.  The retry loops let other
    writers run between two attempts.
  \<^item> Commit_Refinement: the commit service refines the machine whose state is one graph.  After any
    accepted sequence of commits the journal replays to the graph of the last receipt, terminal nodes
    stay as they are, stale graphs cannot commit, committed graphs are well typed.  Commit_Progress:
    a writer with the current graph is accepted.  Commit_Witness and Graph_Codec hold concrete runs.
  \<^item> Recovery, Recovery_Refinement: registry.rs and recovery.rs.  Recovery settles every running node
    and nothing else.

  \<^bold>\<open>Execution\<close> (runtime/src/execution_core).
  \<^item> Dependencies: the dependency policies of graph/runner.rs.  A node is blocked exactly when no
    evolution of its predecessors could make it ready.
  \<^item> Acceptance: ../context/acceptance_evaluator.rs and the matching of evidence with obligations in
    ../context/path_identity.rs, which mint the verdict that the dependencies read.  The verdict is
    exact and depends only on the sets of receipts; a verification is never older than the last write;
    obligations on the workspace root cannot be met.
  \<^item> Runner, Runner_Progress, Runner_Properties: graph/runner.rs.  The dependency loop has one round per
    planned node as its bound; it is shown to end within it, to be never refused on a current graph and
    to leave nothing to decide.  A settled graph completes.  Interrupting commands are fenced.
  \<^item> Supervisor, Supervisor_Properties: supervisor.rs as interleaved steps, one per critical section.
    Requests are answered unless one falls into the two-step cleanup of its slot, and such a loss is
    exhibited; owner reports add up; a shutdown answers everybody.
  \<^item> Scope_Lock, Scope_Lock_Properties: graph/resources/scope_lock.rs, several processes that share lock
    files.  Conflicting leases exclude each other and waiters are served in order.  The locale
    \<open>lock_tier\<close> says what lock targets must have to exclude; the interpretation \<open>process_tier\<close> discharges
    it for the targets the code computes.
  \<^item> Resource_Adaptation, Resource_Manager, Resource_Properties, Resource_Scheduling:
    graph/resources/manager.rs.  Limits stay within quotas, capacity is never exceeded and bundles are
    granted as a whole; capacity that fits somebody is not left idle and is given in order.

  \<^bold>\<open>Bounds.\<close>  The only bound that is not in the code is the number of rounds of \<open>advance_loop\<close>, one more
  than the nodes of the graph: every round but the last decides a planned node.  The retry loops have the
  attempt limits of the code.

  \<^bold>\<open>Not modelled.\<close>  Everything that talks to models, tools, terminals, networks, databases or the file
  system: the node executors, worktree leases, the gateway, the terminal interface, the providers, the
  PostgreSQL backends, sandboxes and workers.  The agent, conversation, mission, memory and evaluation
  layers sit above the kernel and see it through the operations modelled here.  Inside the modelled
  files the following is left out: starting a node with its resource guards (\<open>prepare_ready_wave\<close>) and the
  table of active nodes, because they are process-local and interleaved with executor calls; the tool
  and execution effect ledgers and read-only tool receipts of the commit service; sharing of one replay
  among concurrent readers; admission permits, the forced abort and dispatcher restarts of the
  supervisor; the observer of admissions.  Of path identities the resolver, which reads the
  workspace, and the keys of novel reads are left out.  The Wilson bound is computed in floating point and therefore
  an argument.  Poisoned mutexes and I/O errors of lock files beyond their error value are left out.
\<close>

end
